(* ===== verification/Prelude.thy ===== *)
theory Prelude
  imports Main "HOL-Library.Word"
begin

text \<open>
  The vocabulary shared by the components of the node agent: Go's machine integers, the
  outcome of a Go call (a value or a panic), Go error values with wrapping, decimal printing
  (the \<^verbatim>\<open>%d\<close> verb), the string functions of the standard library that the agent
  calls, and generic facts on lists and words.
\<close>

named_theorems go_defs \<open>definitions of small standard-library helpers\<close>
named_theorems trace_simps \<open>what a call appends to the trace of external calls\<close>

section \<open>Machine integers\<close>

type_synonym byte = "8 word"
type_synonym int32 = "32 word"
type_synonym uint32 = "32 word"
type_synonym int64 = "64 word"
type_synonym uint64 = "64 word"

text \<open>Go's \<open>/\<close> on \<open>int64\<close> truncates towards zero.\<close>

definition go_quot :: "int \<Rightarrow> int \<Rightarrow> int" where
  "go_quot n d = (let q = \<bar>n\<bar> div \<bar>d\<bar> in if (n < 0) = (d < 0) then q else - q)"

lemma go_quot_nonneg: "0 \<le> a \<Longrightarrow> 0 < b \<Longrightarrow> go_quot a b = a div b"
  by (simp add: go_quot_def)

definition int64_range :: "int \<Rightarrow> bool" where
  "int64_range i \<longleftrightarrow> - (2 ^ 63) \<le> i \<and> i < 2 ^ 63"

lemma sint_int64_range: "int64_range (sint (w :: int64))"
  using sint_greater_eq [of w] sint_less [of w] by (simp add: int64_range_def)

lemma sint_word_of_int64: "int64_range i \<Longrightarrow> sint (word_of_int i :: int64) = i"
  by (simp add: int64_range_def sint_sbintrunc' signed_take_bit_int_eq_self)

lemma sint_plus_int64:
  fixes a b :: int64
  assumes "int64_range (sint a + sint b)"
  shows "sint (a + b) = sint a + sint b"
proof -
  have "a + b = word_of_int (sint a + sint b)" by simp
  then show ?thesis using sint_word_of_int64 [OF assms] by simp
qed

lemma sint_times_int64:
  fixes a b :: int64
  assumes "int64_range (sint a * sint b)"
  shows "sint (a * b) = sint a * sint b"
proof -
  have "a * b = word_of_int (sint a * sint b)" by simp
  then show ?thesis using sint_word_of_int64 [OF assms] by simp
qed

section \<open>Outcomes and errors\<close>

text \<open>A Go call returns a value, panics, or blocks for ever (a channel operation with no partner).\<close>

datatype 'a outcome = Ret 'a | Panic string | Blocked

definition outcome_bind :: "'a outcome \<Rightarrow> ('a \<Rightarrow> 'b outcome) \<Rightarrow> 'b outcome" where
  "outcome_bind m f = (case m of Ret a \<Rightarrow> f a | Panic s \<Rightarrow> Panic s | Blocked \<Rightarrow> Blocked)"

lemma outcome_bind_simps [simp]:
  "outcome_bind (Ret a) f = f a"
  "outcome_bind (Panic s) f = Panic s"
  "outcome_bind Blocked f = Blocked"
  by (simp_all add: outcome_bind_def)

lemma outcome_bind_Ret: "outcome_bind m f = Ret b \<longleftrightarrow> (\<exists>a. m = Ret a \<and> f a = Ret b)"
  by (cases m) auto

text \<open>
  Package-level error values, which \<^verbatim>\<open>errors.Is\<close> compares by identity: the
  agent's own two and the ones of the standard library it tests for.
\<close>

datatype sentinel = ErrDomainNotFound | ErrUpdateFailed | CtxCanceled | CtxDeadlineExceeded
  | OsErrNotExist

text \<open>
  An error value: a package-level sentinel, a fresh error with its text
  (\<^verbatim>\<open>errors.New\<close>, \<^verbatim>\<open>fmt.Errorf\<close> without \<^verbatim>\<open>%w\<close>), an error of another
  package, or a wrapping error (\<^verbatim>\<open>fmt.Errorf\<close> with \<^verbatim>\<open>%w\<close>, between the text
  before and the text after the verb).
\<close>

datatype goerr = Sentinel sentinel | ErrorsNew string | ForeignErr nat string
  | Wrapped string goerr string

fun sentinel_text :: "sentinel \<Rightarrow> string" where
  "sentinel_text ErrDomainNotFound = ''domain not found''"
| "sentinel_text ErrUpdateFailed = ''update has failed''"
| "sentinel_text CtxCanceled = ''context canceled''"
| "sentinel_text CtxDeadlineExceeded = ''context deadline exceeded''"
| "sentinel_text OsErrNotExist = ''file does not exist''"

text \<open>The method \<^verbatim>\<open>Error()\<close>.\<close>

fun error_text :: "goerr \<Rightarrow> string" where
  "error_text (Sentinel s) = sentinel_text s"
| "error_text (ErrorsNew t) = t"
| "error_text (ForeignErr n t) = t"
| "error_text (Wrapped pre e post) = pre @ error_text e @ post"

text \<open>\<^verbatim>\<open>errors.Is(err, sentinel)\<close>: the sentinel is somewhere on the chain.\<close>

fun errors_is :: "goerr \<Rightarrow> sentinel \<Rightarrow> bool" where
  "errors_is (Sentinel s) t = (s = t)"
| "errors_is (ErrorsNew x) t = False"
| "errors_is (ForeignErr n x) t = False"
| "errors_is (Wrapped pre e post) t = errors_is e t"

section \<open>Decimal printing\<close>

definition digit_char :: "nat \<Rightarrow> char" where
  "digit_char d = char_of (48 + d)"

fun dec :: "nat \<Rightarrow> string" where
  "dec n = (if n < 10 then [digit_char n] else dec (n div 10) @ [digit_char (n mod 10)])"

declare dec.simps [simp del]

definition digit_val :: "char \<Rightarrow> nat" where
  "digit_val c = of_char c - 48"

definition undec :: "string \<Rightarrow> nat" where
  "undec s = foldl (\<lambda>a c. 10 * a + digit_val c) 0 s"

definition is_dec_digit :: "char \<Rightarrow> bool" where
  "is_dec_digit c \<longleftrightarrow> 48 \<le> (of_char c :: nat) \<and> (of_char c :: nat) \<le> 57"

lemma digit_val_char [simp]: "d < 10 \<Longrightarrow> digit_val (digit_char d) = d"
  by (simp add: digit_val_def digit_char_def)

lemma is_dec_digit_char [simp]: "d < 10 \<Longrightarrow> is_dec_digit (digit_char d)"
  by (simp add: is_dec_digit_def digit_char_def)

lemma dec_not_Nil [simp]: "dec n \<noteq> []"
  by (subst dec.simps) simp

lemma dec_digits: "list_all is_dec_digit (dec n)"
proof (induction n rule: dec.induct)
  case (1 n)
  then show ?case by (cases "n < 10") (simp_all add: dec.simps [of n])
qed

lemma undec_dec [simp]: "undec (dec n) = n"
proof (induction n rule: dec.induct)
  case (1 n)
  show ?case
  proof (cases "n < 10")
    case True
    then show ?thesis by (simp add: dec.simps [of n] undec_def)
  next
    case False
    with "1.IH" show ?thesis by (simp add: dec.simps [of n] undec_def)
  qed
qed

lemma dec_inject [simp]: "dec m = dec n \<longleftrightarrow> m = n"
  by (metis undec_dec)

lemma dec_no_char: "\<not> is_dec_digit c \<Longrightarrow> c \<notin> set (dec n)"
  using dec_digits [of n] by (auto simp: list_all_iff)

text \<open>A signed value prints with a leading minus sign.\<close>

definition dec_int :: "int \<Rightarrow> string" where
  "dec_int i = (if i < 0 then CHR ''-'' # dec (nat (- i)) else dec (nat i))"

section \<open>The string functions of the standard library\<close>

definition has_suffix :: "string \<Rightarrow> string \<Rightarrow> bool" where
  "has_suffix s t \<longleftrightarrow> length t \<le> length s \<and> drop (length s - length t) s = t"

lemma has_suffix_append: "has_suffix s t \<longleftrightarrow> (\<exists>p. s = p @ t)"
proof
  assume "has_suffix s t"
  then have "s = take (length s - length t) s @ t"
    by (metis append_take_drop_id has_suffix_def)
  then show "\<exists>p. s = p @ t" ..
qed (auto simp: has_suffix_def)

text \<open>\<^verbatim>\<open>strings.SplitN(s, sep, 2)\<close> for a one-byte separator.\<close>

definition split_n2 :: "char \<Rightarrow> string \<Rightarrow> string list" where
  "split_n2 c s =
     (if c \<in> set s then [takeWhile (\<lambda>x. x \<noteq> c) s, tl (dropWhile (\<lambda>x. x \<noteq> c) s)] else [s])"

lemma split_n2_append: "c \<notin> set k \<Longrightarrow> split_n2 c (k @ c # v) = [k, v]"
  by (simp add: split_n2_def takeWhile_append dropWhile_append takeWhile_eq_all_conv [THEN iffD2]
      dropWhile_eq_Nil_conv [THEN iffD2])

lemma split_n2_nonempty [simp]: "split_n2 c s \<noteq> []"
  by (simp add: split_n2_def)

text \<open>\<^verbatim>\<open>strings.Split(s, sep)\<close> for a one-byte separator.\<close>

fun split_all :: "char \<Rightarrow> string \<Rightarrow> string list" where
  "split_all c [] = [[]]"
| "split_all c (x # xs) =
     (if x = c then [] # split_all c xs
      else (case split_all c xs of [] \<Rightarrow> [[x]] | y # ys \<Rightarrow> (x # y) # ys))"

lemma split_all_nonempty [simp]: "split_all c s \<noteq> []"
  by (induction s) (auto split: list.splits)

end
