(* ===== verification/GoFloat.thy ===== *)
theory GoFloat
  imports Complex_Main Prelude "HOL-Library.Log_Nat"
begin

text \<open>
  Go's \<^verbatim>\<open>float64\<close> (IEEE 754 binary64), as far as the agent uses it: conversion from
  integers, multiplication, division, conversion to \<^verbatim>\<open>int64\<close> and the \<^verbatim>\<open>%.1f\<close> verb.
  A finite value is \<open>Finite m e\<close>, standing for \<open>m * 2 ^ e\<close>; every operation rounds its exact
  result to 53 significant bits (fewer in the subnormal range), ties to even. Signed zeros are
  not distinguished: no conversion or print of the agent can tell them apart, since it never
  divides by a computed float.
\<close>

section \<open>Definitions\<close>

datatype float64 = Finite int int | PosInf | NegInf | NotANumber

text \<open>\<open>m / 2 ^ k\<close>, rounded to the nearest integer, ties to even.\<close>

definition rne_shift :: "int \<Rightarrow> nat \<Rightarrow> int" where
  "rne_shift m k =
     (let q = m div 2 ^ k; r = m mod 2 ^ k
      in if 2 * r < 2 ^ k then q
         else if 2 ^ k < 2 * r then q + 1
         else if even q then q else q + 1)"

definition finite_or_inf :: "int \<Rightarrow> int \<Rightarrow> float64" where
  "finite_or_inf m e =
     (if m \<noteq> 0 \<and> 1024 < bitlen \<bar>m\<bar> + e then (if 0 < m then PosInf else NegInf) else Finite m e)"

definition round64 :: "int \<Rightarrow> int \<Rightarrow> float64" where
  "round64 m e =
     (let k = max (bitlen \<bar>m\<bar> - 53) (- 1074 - e)
      in if k \<le> 0 then finite_or_inf m e else finite_or_inf (rne_shift m (nat k)) (e + k))"

definition float_of_int :: "int \<Rightarrow> float64" where
  "float_of_int i = round64 i 0"

definition signed_inf :: "int \<Rightarrow> float64" where
  "signed_inf s = (if s = 0 then NotANumber else if 0 < s then PosInf else NegInf)"

fun fsgn :: "float64 \<Rightarrow> int" where
  "fsgn (Finite m e) = sgn m"
| "fsgn PosInf = 1"
| "fsgn NegInf = - 1"
| "fsgn NotANumber = 0"

fun fmul :: "float64 \<Rightarrow> float64 \<Rightarrow> float64" where
  "fmul (Finite a b) (Finite c d) = round64 (a * c) (b + d)"
| "fmul x y = signed_inf (fsgn x * fsgn y)"

fun fdiv :: "float64 \<Rightarrow> float64 \<Rightarrow> float64" where
  "fdiv (Finite a b) (Finite c d) =
     (if c = 0 then signed_inf (sgn a)
      else (let s = max 0 (55 + bitlen \<bar>c\<bar> - bitlen \<bar>a\<bar>);
                q = (\<bar>a\<bar> * 2 ^ nat s) div \<bar>c\<bar>;
                r = (\<bar>a\<bar> * 2 ^ nat s) mod \<bar>c\<bar>
            in round64 (sgn a * sgn c * (2 * q + (if r = 0 then 0 else 1))) (b - d - s - 1)))"
| "fdiv (Finite a b) PosInf = Finite 0 0"
| "fdiv (Finite a b) NegInf = Finite 0 0"
| "fdiv PosInf (Finite c d) = (if c < 0 then NegInf else PosInf)"
| "fdiv NegInf (Finite c d) = (if c < 0 then PosInf else NegInf)"
| "fdiv x y = NotANumber"

text \<open>The integer part of \<open>m * 2 ^ e\<close>, towards zero.\<close>

definition float_trunc :: "int \<Rightarrow> int \<Rightarrow> int" where
  "float_trunc m e = (if 0 \<le> e then m * 2 ^ nat e else go_quot m (2 ^ nat (- e)))"

text \<open>
  The conversion \<^verbatim>\<open>int64(x)\<close>. Outside the range of \<^verbatim>\<open>int64\<close> the Go specification leaves
  the result to the implementation: it is the parameter \<open>oob\<close>.
\<close>

fun int64_of_float :: "(float64 \<Rightarrow> int64) \<Rightarrow> float64 \<Rightarrow> int64" where
  "int64_of_float oob (Finite m e) =
     (if int64_range (float_trunc m e) then word_of_int (float_trunc m e) else oob (Finite m e))"
| "int64_of_float oob x = oob x"

text \<open>The verb \<^verbatim>\<open>%.1f\<close>: the exact value, rounded to tenths, ties to even.\<close>

definition tenths :: "int \<Rightarrow> int \<Rightarrow> int" where
  "tenths m e = (if 0 \<le> e then 10 * m * 2 ^ nat e else rne_shift (10 * m) (nat (- e)))"

fun fmt_1f :: "float64 \<Rightarrow> string" where
  "fmt_1f (Finite m e) =
     (let t = nat (tenths \<bar>m\<bar> e)
      in (if m < 0 then ''-'' else []) @ dec (t div 10) @ ''.'' @ dec (t mod 10))"
| "fmt_1f PosInf = ''+Inf''"
| "fmt_1f NegInf = ''-Inf''"
| "fmt_1f NotANumber = ''NaN''"

text \<open>The real number a finite value stands for.\<close>

fun fval :: "float64 \<Rightarrow> real" where
  "fval (Finite m e) = of_int m * 2 powi e"
| "fval x = 0"

section \<open>Rounding to the nearest\<close>

lemma div_pow_split: "(m::int) = m div 2 ^ k * 2 ^ k + m mod 2 ^ k"
  by (rule div_mult_mod_eq [symmetric])

lemma div_pow_le: "(m::int) div 2 ^ k * 2 ^ k \<le> m"
  using div_pow_split [of m k] pos_mod_sign [of "2 ^ k" m]
  by (smt (verit) zero_less_power)

lemma div_pow_gt: "(m::int) < (m div 2 ^ k + 1) * 2 ^ k"
proof -
  have "m < m div 2 ^ k * 2 ^ k + 2 ^ k"
    using div_pow_split [of m k] pos_mod_bound [of "2 ^ k" m] by (metis add_strict_left_mono zero_less_numeral zero_less_power)
  then show ?thesis by (simp add: distrib_right)
qed

lemma rne_shift_ge:
  assumes "j * 2 ^ k \<le> m"
  shows "j \<le> rne_shift m k"
proof -
  have "j \<le> m div 2 ^ k"
    using assms by (simp add: zdiv_mono1 [of "j * 2 ^ k" m "2 ^ k", simplified])
  then show ?thesis by (auto simp: rne_shift_def Let_def)
qed

lemma rne_shift_le:
  assumes "m \<le> j * 2 ^ k"
  shows "rne_shift m k \<le> j"
proof -
  have le: "m div 2 ^ k \<le> j"
    using zdiv_mono1 [OF assms, of "2 ^ k"] by simp
  show ?thesis
  proof (cases "m div 2 ^ k = j")
    case True
    note div_pow_split [of m k]
    with True assms have "m mod 2 ^ k \<le> 0" by simp
    moreover have "0 \<le> m mod 2 ^ k" by simp
    ultimately have "m mod 2 ^ k = 0" by linarith
    with True show ?thesis by (simp add: rne_shift_def)
  next
    case False
    with le show ?thesis by (auto simp: rne_shift_def Let_def)
  qed
qed

lemma rne_shift_exact [simp]: "rne_shift (j * 2 ^ k) k = j"
  by (intro antisym rne_shift_le rne_shift_ge) simp_all

lemma rne_shift_0 [simp]: "rne_shift m 0 = m"
  using rne_shift_exact [of m 0] by simp

text \<open>The result is at most half a unit away.\<close>

lemma rne_shift_error: "2 * \<bar>rne_shift m k * 2 ^ k - m\<bar> \<le> 2 ^ k"
proof -
  define q r where "q = m div 2 ^ k" and "r = m mod 2 ^ k"
  have m: "m = q * 2 ^ k + r"
    unfolding q_def r_def by (rule div_pow_split)
  have r: "0 \<le> r" "r < 2 ^ k"
    by (simp_all add: r_def)
  have "rne_shift m k = q \<and> 2 * r \<le> 2 ^ k \<or> rne_shift m k = q + 1 \<and> 2 ^ k \<le> 2 * r"
    by (auto simp: rne_shift_def Let_def q_def r_def)
  then show ?thesis using m r by (auto simp: algebra_simps)
qed

lemma bitlen_le_I: "0 \<le> n \<Longrightarrow> \<bar>m\<bar> < 2 ^ nat n \<Longrightarrow> bitlen \<bar>m\<bar> \<le> n"
  by (simp add: bitlen_le_iff_power)

lemma bitlen_le_shift:
  assumes "0 \<le> m" and "e \<le> 0" and "m < 2 ^ (c + nat (- e))"
  shows "bitlen \<bar>m\<bar> \<le> int c - e"
proof -
  have "nat (int c - e) = c + nat (- e)" using assms(2) by simp
  with assms show ?thesis by (intro bitlen_le_I) simp_all
qed

lemma bitlen_leD: "bitlen x \<le> int n \<Longrightarrow> x < 2 ^ n"
  by (simp add: bitlen_le_iff_power)

lemma round64_exact:
  assumes "bitlen \<bar>m\<bar> \<le> 53" and "- 1074 \<le> e" and "e \<le> 971"
  shows "round64 m e = Finite m e"
  using assms by (simp add: round64_def finite_or_inf_def)

lemma float_of_int_small: "\<bar>i\<bar> < 2 ^ 53 \<Longrightarrow> float_of_int i = Finite i 0"
  unfolding float_of_int_def by (rule round64_exact) (simp_all add: bitlen_le_I)

section \<open>Truncation of a rounded value\<close>

lemma bitlen_ge: "0 < m \<Longrightarrow> int n < bitlen m \<Longrightarrow> 2 ^ n \<le> m"
  using bitlen_le_iff_power [of m "int n"] by (simp add: not_le [symmetric])

text \<open>How far a value is rounded up: by at most a relative error of \<open>2 ^ - 53\<close>, unless the result is subnormal.\<close>

lemma rne_shift_up:
  assumes m: "0 < m" and k: "nat k > 0" "k = max (bitlen m - 53) (- 1074 - e)" and e: "e + k \<le> 0"
    and up: "c * 2 ^ nat (- (e + k)) \<le> rne_shift m (nat k)" "0 < c"
  shows "(c * 2 ^ nat (- e) - m) * 2 ^ 53 \<le> m"
proof (cases "k = bitlen m - 53")
  case True
  have pow: "(2::int) ^ nat (- e) = 2 ^ nat (- (e + k)) * 2 ^ nat k"
    using k(1) e by (simp flip: power_add nat_add_distrib)
  have "c * 2 ^ nat (- e) \<le> rne_shift m (nat k) * 2 ^ nat k"
    unfolding pow using up(1) by (simp add: mult.assoc [symmetric])
  moreover have "a \<le> b \<Longrightarrow> 2 * \<bar>b - m\<bar> \<le> p \<Longrightarrow> 2 * (a - m) \<le> p" for a b p :: int by presburger
  ultimately have "2 * (c * 2 ^ nat (- e) - m) \<le> 2 ^ nat k" using rne_shift_error by blast
  then have "(c * 2 ^ nat (- e) - m) * 2 ^ 53 \<le> 2 ^ (nat k + 52)" by (simp add: power_add)
  moreover have "2 ^ (nat k + 52) \<le> m" using True k(1) by (intro bitlen_ge [OF m]) simp
  ultimately show ?thesis by linarith
next
  case False
  then have k': "k = - 1074 - e" "bitlen m \<le> 53 + k" using k(2) by linarith+
  then have "m < 2 ^ (53 + nat k)" using bitlen_leD [of m "53 + nat k"] k(1) by simp
  then have "rne_shift m (nat k) \<le> 2 ^ 53" by (intro rne_shift_le) (simp add: power_add)
  moreover have "(2::int) ^ 1074 \<le> c * 2 ^ 1074" using up(2) by simp
  moreover have "nat (- (e + k)) = 1074" using k'(1) by simp
  moreover have "(2::int) ^ 53 < 2 ^ 1074" by (rule power_strict_increasing) simp_all
  ultimately show ?thesis using up(1) by simp
qed

text \<open>
  Rounding a non-negative value below \<open>2 ^ 53\<close> never crosses the integer below it and reaches at most the integer above
  it, and that only from within the rounding error: truncation afterwards gives the floor, or the next integer
  if the value is that close to it.
\<close>

lemma round64_trunc_neg_exp:
  assumes m: "0 \<le> m" and e: "e \<le> 0" and small: "m div 2 ^ nat (- e) < 2 ^ 53"
  shows "\<exists>m' e'. round64 m e = Finite m' e'
           \<and> m div 2 ^ nat (- e) \<le> float_trunc m' e'
           \<and> float_trunc m' e' \<le> m div 2 ^ nat (- e) + 1
           \<and> (float_trunc m' e' = m div 2 ^ nat (- e) + 1 \<longrightarrow>
                ((m div 2 ^ nat (- e) + 1) * 2 ^ nat (- e) - m) * 2 ^ 53 \<le> m)"
proof -
  define n where "n = m div 2 ^ nat (- e)"
  define k where "k = max (bitlen \<bar>m\<bar> - 53) (- 1074 - e)"
  have "m < (n + 1) * 2 ^ nat (- e)"
    unfolding n_def by (rule div_pow_gt)
  moreover have "(n + 1) * 2 ^ nat (- e) \<le> 2 ^ 53 * 2 ^ nat (- e)"
    using small by (simp add: n_def)
  ultimately have hi: "m \<le> (n + 1) * 2 ^ nat (- e)" and "m < 2 ^ (53 + nat (- e))"
    unfolding power_add by linarith+
  then have blen: "bitlen \<bar>m\<bar> \<le> 53 - e"
    using m e bitlen_le_shift [of m e 53] by simp
  have lo: "n * 2 ^ nat (- e) \<le> m"
    unfolding n_def by (rule div_pow_le)
  show ?thesis
  proof (cases "k \<le> 0")
    case True
    have "round64 m e = Finite m e"
      using True blen by (simp add: round64_def finite_or_inf_def k_def)
    moreover have "float_trunc m e = n"
      using m e by (cases "e = 0") (simp_all add: float_trunc_def go_quot_nonneg n_def)
    ultimately show ?thesis by (simp add: n_def)
  next
    case False
    define m' e' where "m' = rne_shift m (nat k)" and "e' = e + k"
    have e': "e' \<le> 0" using blen e by (auto simp: e'_def k_def)
    have pow: "(2::int) ^ nat (- e) = 2 ^ nat (- e') * 2 ^ nat k"
      using False e' by (simp add: e'_def flip: power_add nat_add_distrib)
    have lo': "n * 2 ^ nat (- e') \<le> m'" unfolding m'_def
      by (rule rne_shift_ge) (use lo pow in \<open>simp add: mult.assoc\<close>)
    have hi': "m' \<le> (n + 1) * 2 ^ nat (- e')" unfolding m'_def
      by (rule rne_shift_le) (use hi pow in \<open>simp add: mult.assoc\<close>)
    have n0: "0 \<le> n" using m by (simp add: n_def pos_imp_zdiv_nonneg_iff)
    then have m'0: "0 \<le> m'" using lo' by (meson mult_nonneg_nonneg order_trans zero_le_numeral zero_le_power)
    have "(n + 1) * 2 ^ nat (- e') \<le> 2 ^ 53 * 2 ^ nat (- e')"
      using small by (intro mult_right_mono) (simp_all add: n_def)
    with hi' have "m' \<le> 2 ^ 53 * 2 ^ nat (- e')" by (rule order_trans)
    moreover have "(2::int) ^ 53 * 2 ^ nat (- e') < 2 ^ (54 + nat (- e'))"
      by (simp add: power_add)
    ultimately have "m' < 2 ^ (54 + nat (- e'))" by (rule le_less_trans)
    then have "bitlen \<bar>m'\<bar> \<le> 54 - e'"
      using m'0 e' bitlen_le_shift [of m' e' 54] by simp
    then have "round64 m e = Finite m' e'"
      using False by (simp add: round64_def Let_def finite_or_inf_def k_def [symmetric] m'_def e'_def)
    moreover have tr: "float_trunc m' e' = m' div 2 ^ nat (- e')"
      using m'0 e' by (cases "e' = 0") (simp_all add: float_trunc_def go_quot_nonneg)
    moreover have "n \<le> m' div 2 ^ nat (- e')"
      using zdiv_mono1 [OF lo', of "2 ^ nat (- e')"] by simp
    moreover have "m' div 2 ^ nat (- e') \<le> n + 1"
      using zdiv_mono1 [OF hi', of "2 ^ nat (- e')"] by simp
    moreover have "((n + 1) * 2 ^ nat (- e) - m) * 2 ^ 53 \<le> m" if up: "m' div 2 ^ nat (- e') = n + 1"
    proof -
      have m0: "0 < m"
      proof (rule ccontr)
        assume "\<not> 0 < m"
        then have "m = 0" using m by simp
        then show False using up by (simp add: n_def m'_def rne_shift_def)
      qed
      have "(n + 1) * 2 ^ nat (- e') \<le> m'" using div_pow_le [of m' "nat (- e')"] up by simp
      then show ?thesis
        using rne_shift_up [OF m0, of k e "n + 1"] False m0 e' n0 by (simp add: k_def m'_def e'_def)
    qed
    ultimately show ?thesis by (auto simp: n_def)
  qed
qed

section \<open>Division by a power of two\<close>

lemma rne_shift_scale: "rne_shift (m * 2 ^ j) (k + j) = rne_shift m k"
proof -
  have q: "m * 2 ^ j div 2 ^ (k + j) = m div 2 ^ k"
    by (simp add: power_add)
  have r: "m * 2 ^ j mod 2 ^ (k + j) = (m mod 2 ^ k) * 2 ^ j"
    unfolding power_add by (rule mod_mult_mult2)
  have cmp: "2 * (x * 2 ^ j) < 2 ^ (k + j) \<longleftrightarrow> 2 * x < 2 ^ k"
      "2 ^ (k + j) < 2 * (x * 2 ^ j) \<longleftrightarrow> 2 ^ k < 2 * x" for x :: int
    unfolding power_add mult.assoc [symmetric] by (rule mult_less_cancel_right_pos; simp)+
  show ?thesis unfolding rne_shift_def q r Let_def cmp ..
qed

lemma float_of_int_pow2:
  assumes "p \<le> 60"
  obtains c d where "float_of_int (2 ^ p) = Finite (2 ^ c) (int d)" and "c + d = p"
proof -
  have bl: "bitlen (2 ^ p) = int p + 1"
    using bitlen_pow2 [of 1 p] by (simp add: bitlen_def floorlog_def)
  show thesis
  proof (cases "p \<le> 52")
    case True
    then have "float_of_int (2 ^ p) = Finite (2 ^ p) (int 0)"
      using bl by (simp add: float_of_int_def round64_def finite_or_inf_def)
    then show thesis by (rule that) simp
  next
    case False
    have bl': "bitlen (2 ^ 52) = 53"
      using bitlen_pow2 [of 1 52] by (simp add: bitlen_def floorlog_def)
    have "(2::int) ^ p = 2 ^ 52 * 2 ^ (p - 52)"
      using False power_add [of "2::int" 52 "p - 52"] by simp
    then have "rne_shift (2 ^ p) (p - 52) = 2 ^ 52"
      by (simp only: rne_shift_exact)
    then have "float_of_int (2 ^ p) = Finite (2 ^ 52) (int (p - 52))"
      using bl bl' False assms
      by (simp add: float_of_int_def round64_def finite_or_inf_def nat_diff_distrib)
    then show thesis by (rule that) (use False in simp)
  qed
qed

lemma fdiv_pow2:
  assumes a: "0 < a" "a < 2 ^ 53" and "c + d \<le> 1000"
  obtains j where "fdiv (Finite a 0) (Finite (2 ^ c) (int d)) = Finite (a * 2 ^ j) (- int (c + d) - int j)"
proof -
  define n where "n = nat (bitlen a)"
  have n: "bitlen a = int n" and "1 \<le> n"
    using a bitlen_eq_zero_iff [of a] bitlen_nonneg [of a] by (auto simp: n_def)
  have "n \<le> 53" using bitlen_le_I [of 53 a] a n by simp
  have bc: "bitlen (2 ^ c) = int c + 1"
    using bitlen_pow2 [of 1 c] by (simp add: bitlen_def floorlog_def)
  define S where "S = c + 56 - n"
  have S: "55 + bitlen (2 ^ c) - bitlen a = int S"
    using n bc \<open>n \<le> 53\<close> by (simp add: S_def of_nat_diff)
  have pow: "a * 2 ^ S = a * 2 ^ (56 - n) * 2 ^ c"
    using \<open>n \<le> 53\<close> by (simp add: S_def mult.assoc add.commute flip: power_add)
  have q: "a * 2 ^ S div 2 ^ c = a * 2 ^ (56 - n)" and r: "a * 2 ^ S mod 2 ^ c = 0"
    unfolding pow by simp_all
  have "57 - n = Suc (56 - n)" using \<open>n \<le> 53\<close> by simp
  then have M: "2 * (a * 2 ^ (56 - n)) = a * 2 ^ (57 - n)"
    by simp
  have fd: "fdiv (Finite a 0) (Finite (2 ^ c) (int d)) = round64 (a * 2 ^ (57 - n)) (- int d - int S - 1)"
    using a by (simp add: S q r M Let_def)
  have bM: "bitlen \<bar>a * 2 ^ (57 - n)\<bar> = 57"
    using a n \<open>n \<le> 53\<close> by simp
  have "a * 2 ^ (57 - n) = a * 2 ^ (53 - n) * 2 ^ 4"
    using \<open>n \<le> 53\<close> power_add [of "2::int" "53 - n" 4] by simp
  then have rs: "rne_shift (a * 2 ^ (57 - n)) 4 = a * 2 ^ (53 - n)"
    by (simp only: rne_shift_exact)
  have b': "bitlen \<bar>a * 2 ^ (53 - n)\<bar> = 53"
    using a n \<open>n \<le> 53\<close> by simp
  have k: "max (bitlen \<bar>a * 2 ^ (57 - n)\<bar> - 53) (- 1074 - (- int d - int S - 1)) = 4"
    unfolding bM using assms(3) \<open>1 \<le> n\<close> \<open>n \<le> 53\<close> by (simp add: S_def of_nat_diff)
  have "- int d - int S - 1 + 4 = - int (c + d) - int (53 - n)"
    using \<open>n \<le> 53\<close> by (simp add: S_def of_nat_diff)
  then have "round64 (a * 2 ^ (57 - n)) (- int d - int S - 1) = Finite (a * 2 ^ (53 - n)) (- int (c + d) - int (53 - n))"
    unfolding round64_def k Let_def by (simp add: rs finite_or_inf_def b' del: of_nat_add)
  with fd that show thesis by simp
qed

lemma fmt_1f_div_pow2:
  assumes "0 < a" "a < 2 ^ 53" and "0 < p" "p \<le> 60"
  shows "fmt_1f (fdiv (float_of_int a) (float_of_int (2 ^ p)))
       = (let t = nat (rne_shift (10 * a) p) in dec (t div 10) @ ''.'' @ dec (t mod 10))"
proof -
  obtain c d where cd: "float_of_int (2 ^ p) = Finite (2 ^ c) (int d)" "c + d = p"
    using float_of_int_pow2 [OF assms(4)] .
  obtain j where j: "fdiv (Finite a 0) (Finite (2 ^ c) (int d)) = Finite (a * 2 ^ j) (- int (c + d) - int j)"
    using fdiv_pow2 [of a c d] assms cd(2) by auto
  have "nat (int j + int p) = p + j" by simp
  then have "tenths (a * 2 ^ j) (- int p - int j) = rne_shift (10 * a) p"
    using assms(3) rne_shift_scale [of "10 * a" j p] by (simp add: tenths_def mult.assoc)
  moreover have "\<not> a * 2 ^ j < 0" "\<bar>a * 2 ^ j\<bar> = a * 2 ^ j" using assms(1) by (simp_all add: not_less)
  moreover have "float_of_int a = Finite a 0" using assms(1,2) by (simp add: float_of_int_small)
  ultimately show ?thesis
    using j cd by (simp add: Let_def del: fdiv.simps)
qed

end
