(* ===== verification/Quantity.thy ===== *)
theory Quantity
  imports Prelude
begin

text \<open>
  \<^verbatim>\<open>resource.Quantity\<close> of k8s.io/apimachinery is not part of the repository: its
  operations are a parameter of the model, the record \<open>'q quantity_api\<close> over an arbitrary type
  \<open>'q\<close> of quantities. What the agent relies on is the predicate \<open>quantity_laws\<close>: a quantity made
  by \<^verbatim>\<open>NewQuantity\<close> has that value and format, and \<^verbatim>\<open>Add\<close> adds the values of whole quantities as
  long as the sum is an \<^verbatim>\<open>int64\<close>. \<open>int_quantity_api\<close> is an instance, used by the witnesses.
\<close>

datatype quantity_format = BinarySI | DecimalSI | DecimalExponent

record 'q quantity_api =
  NewQuantity :: "int64 \<Rightarrow> quantity_format \<Rightarrow> 'q"
  QuantityAdd :: "'q \<Rightarrow> 'q \<Rightarrow> 'q"
  QuantityValue :: "'q \<Rightarrow> int64"
  QuantityFormat :: "'q \<Rightarrow> quantity_format"
  QuantityZero :: "'q" \<comment> \<open>the zero value of the Go struct\<close>

definition quantity_laws :: "'q quantity_api \<Rightarrow> ('q \<Rightarrow> bool) \<Rightarrow> bool" where
  "quantity_laws Q whole \<longleftrightarrow>
     (\<forall>v f. whole (NewQuantity Q v f) \<and> QuantityValue Q (NewQuantity Q v f) = v
            \<and> QuantityFormat Q (NewQuantity Q v f) = f) \<and>
     (\<forall>a b. whole a \<and> whole b \<and> int64_range (sint (QuantityValue Q a) + sint (QuantityValue Q b)) \<longrightarrow>
            whole (QuantityAdd Q a b) \<and>
            sint (QuantityValue Q (QuantityAdd Q a b))
              = sint (QuantityValue Q a) + sint (QuantityValue Q b))"

abbreviation qint :: "'q quantity_api \<Rightarrow> 'q \<Rightarrow> int" where
  "qint Q q \<equiv> sint (QuantityValue Q q)"

lemma quantity_lawsD:
  assumes "quantity_laws Q whole"
  shows "whole (NewQuantity Q v f)"
    and "QuantityValue Q (NewQuantity Q v f) = v"
    and "QuantityFormat Q (NewQuantity Q v f) = f"
    and "whole a \<Longrightarrow> whole b \<Longrightarrow> int64_range (qint Q a + qint Q b) \<Longrightarrow>
           whole (QuantityAdd Q a b) \<and> qint Q (QuantityAdd Q a b) = qint Q a + qint Q b"
  using assms by (auto simp: quantity_laws_def)

text \<open>An instance: the value and the format of the quantity.\<close>

definition int_quantity_api :: "(int64 \<times> quantity_format) quantity_api" where
  "int_quantity_api =
     \<lparr>NewQuantity = (\<lambda>v f. (v, f)),
      QuantityAdd = (\<lambda>(v, f) (w, g). (v + w, if v = 0 then g else f)),
      QuantityValue = fst, QuantityFormat = snd, QuantityZero = (0, DecimalSI)\<rparr>"

lemma int_quantity_laws: "quantity_laws int_quantity_api (\<lambda>_. True)"
  by (auto simp: quantity_laws_def int_quantity_api_def sint_plus_int64 split: prod.splits)

lemma int_quantity_simps [simp]:
  "NewQuantity int_quantity_api v f = (v, f)"
  "QuantityAdd int_quantity_api (v, f) (w, g) = (v + w, if v = 0 then g else f)"
  "QuantityValue int_quantity_api q = fst q"
  "QuantityFormat int_quantity_api q = snd q"
  by (simp_all add: int_quantity_api_def)

section \<open>Running totals\<close>

text \<open>
  The loops of \<^verbatim>\<open>addCapabilities\<close> and \<^verbatim>\<open>addAllocationCapacity\<close> start from zero and add one
  whole non-negative quantity per element. The total is exact as long as it is an \<^verbatim>\<open>int64\<close>.
\<close>

lemma int64_range_leI: "0 \<le> i \<Longrightarrow> i \<le> j \<Longrightarrow> int64_range j \<Longrightarrow> int64_range i"
  by (simp add: int64_range_def)

lemma fold_add_exact:
  assumes "quantity_laws Q whole" and "whole q" and "0 \<le> qint Q q"
    and "\<forall>x \<in> set xs. whole x \<and> 0 \<le> qint Q x"
    and "int64_range (qint Q q + (\<Sum>x\<leftarrow>xs. qint Q x))"
  shows "whole (foldl (QuantityAdd Q) q xs)
         \<and> qint Q (foldl (QuantityAdd Q) q xs) = qint Q q + (\<Sum>x\<leftarrow>xs. qint Q x)"
  using assms(2-5)
proof (induction xs arbitrary: q)
  case Nil
  then show ?case by simp
next
  case (Cons x xs)
  have nn: "0 \<le> (\<Sum>x\<leftarrow>xs. qint Q x)"
    using Cons.prems(3) by (intro sum_list_nonneg) auto
  have "int64_range (qint Q q + qint Q x)"
    by (rule int64_range_leI [OF _ _ Cons.prems(4)]) (use Cons.prems nn in auto)
  then have step: "whole (QuantityAdd Q q x)" "qint Q (QuantityAdd Q q x) = qint Q q + qint Q x"
    using quantity_lawsD(4) [OF assms(1)] Cons.prems by auto
  show ?case
    using Cons.IH [of "QuantityAdd Q q x"] Cons.prems step by (simp add: add.assoc)
qed

end
