(* ===== verification/Hypervisor.thy ===== *)
theory Hypervisor
  imports GoFloat Quantity
begin

text \<open>
  The custom resources the agent reads and writes. \<^verbatim>\<open>Hypervisor\<close> comes from
  openstack-hypervisor-operator/api/v1, whose schema the repository carries as
  \<^verbatim>\<open>hack/crds/hypervisor-crd.yaml\<close>: the records hold the fields the agent uses.
  \<^verbatim>\<open>Migration\<close> is the repository's own \<^verbatim>\<open>api/v1alpha1/migration_types.go\<close>. Quantities
  are of an arbitrary type \<open>'q\<close>. A Go map is a partial function.
\<close>

section \<open>Hypervisor\<close>

text \<open>\<^verbatim>\<open>v1.ResourceName\<close>: the two named resources, and any other key.\<close>

datatype ResourceName = ResourceMemory | ResourceCPU | OtherResource string

record Condition =
  cond_Type :: string
  cond_Status :: string
  cond_Reason :: string
  cond_Message :: string

abbreviation ConditionTrue :: string where "ConditionTrue \<equiv> ''True''"
abbreviation ConditionFalse :: string where "ConditionFalse \<equiv> ''False''"

record Instance =
  inst_ID :: string
  inst_Name :: string
  inst_Active :: bool

record 'q Cell =
  cell_CellID :: uint64
  cell_Allocation :: "ResourceName \<rightharpoonup> 'q"
  cell_Capacity :: "ResourceName \<rightharpoonup> 'q"
  cell_EffectiveCapacity :: "ResourceName \<rightharpoonup> 'q"

record 'q CapabilitiesStatus =
  scaps_HostCpuArch :: string
  scaps_HostMemory :: 'q
  scaps_HostCpus :: 'q

record DomainCapabilitiesStatus =
  sdcaps_Arch :: string
  sdcaps_HypervisorType :: string
  sdcaps_SupportedCpuModes :: "string list"
  sdcaps_SupportedDevices :: "string list"
  sdcaps_SupportedFeatures :: "string list"

record OperatingSystemStatus =
  os_Version :: string
  os_VariantID :: string
  os_PrettyVersion :: string
  os_GardenLinuxCommitID :: string
  os_GardenLinuxFeatures :: "string list"
  os_KernelName :: string
  os_KernelRelease :: string
  os_KernelVersion :: string
  os_KernelCommandLine :: string
  os_HardwareModel :: string
  os_HardwareSerial :: string
  os_HardwareVendor :: string
  os_FirmwareVendor :: string
  os_FirmwareVersion :: string
  os_FirmwareDate :: int64 \<comment> \<open>microseconds since the epoch\<close>

record UpdateStatus =
  update_InProgress :: bool
  update_Installed :: string
  update_Retry :: int

record HypervisorSpec =
  spec_OperatingSystemVersion :: string
  spec_Reboot :: bool
  spec_EvacuateOnReboot :: bool
  spec_CreateCertManagerCertificate :: bool
  spec_InstallCertificate :: bool
  spec_Overcommit :: "ResourceName \<rightharpoonup> float64"

record 'q HypervisorStatus =
  status_LibVirtVersion :: string
  status_HypervisorVersion :: string
  status_OperatingSystem :: OperatingSystemStatus
  status_Update :: UpdateStatus
  status_Instances :: "Instance list"
  status_NumInstances :: nat
  status_Capabilities :: "'q CapabilitiesStatus"
  status_DomainCapabilities :: DomainCapabilitiesStatus
  status_Allocation :: "ResourceName \<rightharpoonup> 'q"
  status_Capacity :: "ResourceName \<rightharpoonup> 'q"
  status_EffectiveCapacity :: "ResourceName \<rightharpoonup> 'q"
  status_Cells :: "'q Cell list"
  status_Conditions :: "Condition list"

record 'q Hypervisor =
  hv_Name :: string
  hv_UID :: string
  hv_ResourceVersion :: string
  hv_APIVersion :: string
  hv_Kind :: string
  hv_Spec :: HypervisorSpec
  hv_Status :: "'q HypervisorStatus"

text \<open>Updates of the nested status, as \<^verbatim>\<open>hypervisor.Status.X = v\<close>.\<close>

abbreviation map_status :: "('q HypervisorStatus \<Rightarrow> 'q HypervisorStatus) \<Rightarrow> 'q Hypervisor \<Rightarrow> 'q Hypervisor" where
  "map_status f \<equiv> hv_Status_update f"

abbreviation map_update :: "(UpdateStatus \<Rightarrow> UpdateStatus) \<Rightarrow> 'q Hypervisor \<Rightarrow> 'q Hypervisor" where
  "map_update f \<equiv> map_status (status_Update_update f)"

abbreviation map_os :: "(OperatingSystemStatus \<Rightarrow> OperatingSystemStatus) \<Rightarrow> 'q Hypervisor \<Rightarrow> 'q Hypervisor" where
  "map_os f \<equiv> map_status (status_OperatingSystem_update f)"

abbreviation hv_update :: "'q Hypervisor \<Rightarrow> UpdateStatus" where
  "hv_update hv \<equiv> status_Update (hv_Status hv)"

abbreviation hv_os :: "'q Hypervisor \<Rightarrow> OperatingSystemStatus" where
  "hv_os hv \<equiv> status_OperatingSystem (hv_Status hv)"

abbreviation hv_conditions :: "'q Hypervisor \<Rightarrow> Condition list" where
  "hv_conditions hv \<equiv> status_Conditions (hv_Status hv)"

section \<open>Migration\<close>

text \<open>The start time is in seconds since the epoch, 0 for the zero time.\<close>

record MigrationStatus =
  mig_Origin :: string
  mig_Destination :: string
  mig_Type :: string
  mig_Started :: int
  mig_ErrMsg :: string
  mig_AutoConvergeThrottle :: string
  mig_DiskBps :: string
  mig_DiskRemaining :: string
  mig_DiskProcessed :: string
  mig_DiskTotal :: string
  mig_MemPostcopyRequests :: uint64
  mig_MemIteration :: uint64
  mig_MemPageSize :: string
  mig_MemDirtyRate :: string
  mig_MemBps :: string
  mig_MemNormalBytes :: string
  mig_MemNormal :: uint64
  mig_MemConstant :: uint64
  mig_MemRemaining :: string
  mig_MemProcessed :: string
  mig_MemTotal :: string
  mig_DataRemaining :: string
  mig_DataProcessed :: string
  mig_DataTotal :: string
  mig_SetupTime :: string
  mig_TimeElapsed :: string
  mig_TimeRemaining :: string
  mig_Downtime :: string
  mig_Operation :: string

record Migration =
  migration_Name :: string
  migration_Namespace :: string
  migration_Status :: MigrationStatus

text \<open>The zero value of the status.\<close>

definition zero_MigrationStatus :: MigrationStatus where
  "zero_MigrationStatus =
     \<lparr>mig_Origin = [], mig_Destination = [], mig_Type = [], mig_Started = 0, mig_ErrMsg = [],
      mig_AutoConvergeThrottle = [], mig_DiskBps = [], mig_DiskRemaining = [], mig_DiskProcessed = [],
      mig_DiskTotal = [], mig_MemPostcopyRequests = 0, mig_MemIteration = 0, mig_MemPageSize = [],
      mig_MemDirtyRate = [], mig_MemBps = [], mig_MemNormalBytes = [], mig_MemNormal = 0,
      mig_MemConstant = 0, mig_MemRemaining = [], mig_MemProcessed = [], mig_MemTotal = [],
      mig_DataRemaining = [], mig_DataProcessed = [], mig_DataTotal = [], mig_SetupTime = [],
      mig_TimeElapsed = [], mig_TimeRemaining = [], mig_Downtime = [], mig_Operation = []\<rparr>"

end
