(* ===== verification/Sys.thy ===== *)
theory Sys
  imports Prelude
begin

text \<open>
  \<^verbatim>\<open>internal/sys\<close> and \<^verbatim>\<open>internal/kernel\<close>: the process-wide variables
  \<^verbatim>\<open>Hostname\<close>, \<^verbatim>\<open>NodeLabelName\<close> and \<^verbatim>\<open>Namespace\<close>, set once by the \<^verbatim>\<open>init\<close>
  functions, and the reader of the kernel command line. The environment of the process
  (\<^verbatim>\<open>os.Getenv\<close> returns the empty string for an unset variable), \<^verbatim>\<open>os.Hostname\<close> and
  \<^verbatim>\<open>os.ReadFile\<close> are arguments.
\<close>

section \<open>Definitions\<close>

record sys_vars =
  Hostname :: string
  NodeLabelName :: string
  Namespace :: string

text \<open>\<^verbatim>\<open>hostname.go\<close>: on an error \<^verbatim>\<open>os.Hostname\<close> returns the empty string, which is kept.\<close>

definition init_hostname :: "(string \<Rightarrow> string) \<Rightarrow> goerr + string \<Rightarrow> string \<times> string" where
  "init_hostname getenv os_Hostname =
     (let hostname = (if getenv ''HOSTNAME'' = [] then (case os_Hostname of Inr h \<Rightarrow> h | Inl err \<Rightarrow> [])
                      else getenv ''HOSTNAME'');
          label = (if getenv ''NODE_LABEL'' = [] then hostname else getenv ''NODE_LABEL'')
      in (hostname, label))"

definition init_namespace :: "(string \<Rightarrow> string) \<Rightarrow> string" where
  "init_namespace getenv = (if getenv ''NAMESPACE'' = [] then ''monsoon3'' else getenv ''NAMESPACE'')"

definition init_sys :: "(string \<Rightarrow> string) \<Rightarrow> goerr + string \<Rightarrow> sys_vars" where
  "init_sys getenv os_Hostname =
     (case init_hostname getenv os_Hostname of (h, l) \<Rightarrow>
        \<lparr>Hostname = h, NodeLabelName = l, Namespace = init_namespace getenv\<rparr>)"

text \<open>\<^verbatim>\<open>proc.go\<close>: the content of \<^verbatim>\<open>/proc/version\<close>, empty on an error.\<close>

definition GetVersion :: "(string \<Rightarrow> goerr + string) \<Rightarrow> string" where
  "GetVersion readFile = (case readFile ''/proc/version'' of Inr dat \<Rightarrow> dat | Inl err \<Rightarrow> [])"

text \<open>
  \<^verbatim>\<open>strings.TrimSpace\<close> on a byte string: it removes the UTF-8 encodings of the Unicode white
  space characters at both ends.
\<close>

definition bytes :: "nat list \<Rightarrow> string" where
  "bytes ns = map char_of ns"

definition space_runes :: "string list" where
  "space_runes = map bytes
     ([[9], [10], [11], [12], [13], [32], [0xC2, 0x85], [0xC2, 0xA0], [0xE1, 0x9A, 0x80]]
      @ map (\<lambda>n. [0xE2, 0x80, n]) ([0x80..<0x8B] @ [0xA8, 0xA9, 0xAF])
      @ [[0xE2, 0x81, 0x9F], [0xE3, 0x80, 0x80]])"

definition strip_one :: "string list \<Rightarrow> string \<Rightarrow> string option" where
  "strip_one rs s = (case filter (\<lambda>r. take (length r) s = r) rs of [] \<Rightarrow> None | r # _ \<Rightarrow> Some (drop (length r) s))"

lemma strip_one_shorter:
  assumes "[] \<notin> set rs" and "strip_one rs s = Some t"
  shows "length t < length s"
proof -
  obtain r ys where r: "filter (\<lambda>r. take (length r) s = r) rs = r # ys" "t = drop (length r) s"
    using assms(2) by (auto simp: strip_one_def split: list.splits)
  then have "r \<in> set (filter (\<lambda>r. take (length r) s = r) rs)" by simp
  then have "r \<in> set rs" and pre: "take (length r) s = r" by auto
  then have "r \<noteq> []" using assms(1) by auto
  have "s \<noteq> []" using pre \<open>r \<noteq> []\<close> by (cases s) auto
  with r(2) \<open>r \<noteq> []\<close> show ?thesis by simp
qed

lemma space_runes_nonempty: "[] \<notin> set space_runes" "[] \<notin> set (map rev space_runes)"
  by (auto simp: space_runes_def bytes_def)

function trim_left :: "string list \<Rightarrow> string \<Rightarrow> string" where
  "trim_left rs s =
     (if [] \<in> set rs then s else (case strip_one rs s of None \<Rightarrow> s | Some t \<Rightarrow> trim_left rs t))"
  by pat_completeness auto
termination
  by (relation "measure (\<lambda>(rs, s). length s)") (auto dest: strip_one_shorter)

declare trim_left.simps [simp del]

definition TrimSpace :: "string \<Rightarrow> string" where
  "TrimSpace s = rev (trim_left (map rev space_runes) (rev (trim_left space_runes s)))"

text \<open>\<^verbatim>\<open>kernel/parameters.go\<close>\<close>

record Parameters =
  CommandLine :: string

record SystemReader =
  cmdlinePath :: string

definition DefaultCmdlinePath :: string where
  "DefaultCmdlinePath = ''/proc/cmdline''"

definition NewSystemReader :: SystemReader where
  "NewSystemReader = \<lparr>cmdlinePath = DefaultCmdlinePath\<rparr>"

definition NewSystemReaderWithPath :: "string \<Rightarrow> SystemReader" where
  "NewSystemReaderWithPath path = \<lparr>cmdlinePath = path\<rparr>"

definition ReadParameters :: "(string \<Rightarrow> goerr + string) \<Rightarrow> SystemReader \<Rightarrow> goerr + Parameters" where
  "ReadParameters readFile r =
     (case readFile (cmdlinePath r) of
        Inl err \<Rightarrow> Inl err
      | Inr data \<Rightarrow> Inr \<lparr>CommandLine = TrimSpace data\<rparr>)"

section \<open>Trimming\<close>

lemma trim_left_stop: "strip_one rs s = None \<Longrightarrow> trim_left rs s = s"
  by (simp add: trim_left.simps [of rs s])

lemma trim_left_no_space: "[] \<notin> set rs \<Longrightarrow> strip_one rs (trim_left rs s) = None"
proof (induction rs s rule: trim_left.induct)
  case (1 rs s)
  then show ?case
    by (cases "strip_one rs s") (simp_all add: trim_left.simps [of rs s])
qed

lemma trim_left_suffix: "\<exists>p. s = p @ trim_left rs s"
proof (induction rs s rule: trim_left.induct)
  case (1 rs s)
  show ?case
  proof (cases "[] \<in> set rs \<or> strip_one rs s = None")
    case True
    then show ?thesis by (auto simp: trim_left.simps [of rs s])
  next
    case False
    then obtain t where t: "strip_one rs s = Some t" and ne: "[] \<notin> set rs" by auto
    then obtain n where "t = drop n s" by (auto simp: strip_one_def split: list.splits)
    moreover obtain p where "t = p @ trim_left rs t" using "1.IH" [OF ne t] by blast
    ultimately have "s = (take n s @ p) @ trim_left rs s"
      using t ne by (simp add: trim_left.simps [of rs s])
    then show ?thesis by blast
  qed
qed

lemma TrimSpace_infix: "\<exists>p q. s = p @ TrimSpace s @ q"
proof -
  define t where "t = trim_left space_runes s"
  obtain p where p: "s = p @ t" using trim_left_suffix [of s] t_def by blast
  obtain q where "rev t = q @ trim_left (map rev space_runes) (rev t)"
    using trim_left_suffix by blast
  then have "t = TrimSpace s @ rev q"
    by (metis TrimSpace_def rev_append rev_rev_ident t_def)
  with p show ?thesis by blast
qed

text \<open>A text that neither begins nor ends with white space is left alone.\<close>

lemma TrimSpace_id:
  assumes "strip_one space_runes s = None" and "strip_one (map rev space_runes) (rev s) = None"
  shows "TrimSpace s = s"
  using assms by (simp add: TrimSpace_def trim_left_stop)

end
