(* ===== verification/World.thy ===== *)
theory World
  imports Hypervisor Sys
begin

text \<open>
  What the agent talks to: the Kubernetes API server (through controller-runtime), libvirtd
  (through go-libvirt), systemd and logind (through D-Bus) and the operating system. None of it is
  part of the repository, so every response is a parameter. A call appends itself to the trace of
  external calls, and the response is an arbitrary function of the trace so far and of the
  arguments: theorems that leave the response functions unspecified hold for every behaviour of the
  other side, including one that changes from call to call.
\<close>

section \<open>Data of the other side\<close>

text \<open>\<^verbatim>\<open>go-libvirt\<close>: a domain, event identifiers and typed parameters.\<close>

record Domain =
  domain_Name :: string
  domain_UUID :: "byte list"
  domain_ID :: int32

datatype DomainEventID = DomainEventIDLifecycle | DomainEventIDMigrationIteration
  | DomainEventIDJobCompleted | OtherEventID nat

text \<open>The dynamic value of an interface, by its Go type.\<close>

datatype any_value = VInt32 int32 | VUint32 uint32 | VInt64 int64 | VUint64 uint64
  | VFloat64 float64 | VBool bool | VString string | VNil

record TypedParam =
  param_Field :: string
  param_Value :: any_value

datatype list_flag = ConnectListDomainsActive | ConnectListDomainsInactive

text \<open>\<^verbatim>\<open>go-systemd\<close>: the status of a unit.\<close>

record UnitStatus =
  unit_Name :: string
  unit_LoadState :: string
  unit_ActiveState :: string

definition zero_UnitStatus :: UnitStatus where
  "zero_UnitStatus = \<lparr>unit_Name = [], unit_LoadState = [], unit_ActiveState = []\<rparr>"

text \<open>The eviction object, its owner reference, and the certificate.\<close>

record OwnerReference =
  owner_APIVersion :: string
  owner_Kind :: string
  owner_Name :: string
  owner_UID :: string

record Eviction =
  ev_Name :: string
  ev_Namespace :: string
  ev_APIVersion :: string
  ev_Kind :: string
  ev_Hypervisor :: string
  ev_Reason :: string
  ev_Owners :: "OwnerReference list"

record Secret =
  secret_Name :: string
  secret_ResourceVersion :: string
  secret_Data :: "string \<rightharpoonup> byte list"

record Certificate =
  cert_Name :: string
  cert_Namespace :: string
  cert_Kind :: string
  cert_APIVersion :: string
  cert_SecretName :: string
  cert_KeyAlgorithm :: string
  cert_KeyEncoding :: string
  cert_KeySize :: nat
  cert_DurationSec :: nat
  cert_RenewBeforeSec :: nat
  cert_IsCA :: bool
  cert_Usages :: "string list"
  cert_Organizations :: "string list"
  cert_CommonName :: string
  cert_DNSNames :: "string list"
  cert_IPAddresses :: "string list"
  cert_IssuerName :: string
  cert_IssuerKind :: string
  cert_IssuerGroup :: string

section \<open>External calls\<close>

text \<open>An object key is a name space and a name.\<close>

datatype 'q ext_call =
    KGetHypervisor string string
  | KPatchHypervisorStatus "'q Hypervisor" "'q Hypervisor" \<comment> \<open>the object and the base\<close>
  | KGetMigration string string
  | KCreateMigration string string
  | KPatchMigrationStatus Migration Migration
  | KGetEviction string string
  | KCreateEviction Eviction
  | KGetSecret string string
  | KCreateOrUpdateCertificate Certificate
  | DListUnitsByNames "string list"
  | DStartUnit string string
  | DReloadUnit string string
  | DListInhibitors
  | DInhibit string string string string
  | DAddMatchSignal
  | DSignal
  | DRemoveSignal
  | DCloseFd int
  | DDescribe
  | DCloseConn
  | DCloseLogin1
  | VIsConnected
  | VConnectToURI string
  | VGetLibVersion
  | VGetVersion
  | VSubscribeEvents DomainEventID
  | VRegisterCloseCallback
  | VDisconnect
  | VCapabilities
  | VGetDomainCapabilities
  | VListAllDomains "list_flag list"
  | VGetXMLDesc Domain
  | VGetJobStats Domain bool \<comment> \<open>with the flag for a completed job\<close>
  | OMkdirAll string
  | OWriteFile string "byte list" nat
  | OLstat string
  | OReadlink string
  | ORemove string
  | OSymlink string string
  | OLookupIP string
  | OSleep nat \<comment> \<open>seconds\<close>

type_synonym 'q trace = "'q ext_call list"

text \<open>One external call: its response, and the trace with the call at the end.\<close>

definition ext :: "'q ext_call \<Rightarrow> ('q trace \<Rightarrow> 'r) \<Rightarrow> 'q trace \<Rightarrow> 'r \<times> 'q trace" where
  "ext c resp tr = (resp tr, tr @ [c])"

lemma ext_simps [simp]:
  "fst (ext c resp tr) = resp tr" "snd (ext c resp tr) = tr @ [c]"
  by (simp_all add: ext_def)

text \<open>A trace that grew only by calls of some kind.\<close>

definition extends_by :: "('q ext_call \<Rightarrow> bool) \<Rightarrow> 'q trace \<Rightarrow> 'q trace \<Rightarrow> bool" where
  "extends_by P tr tr' \<longleftrightarrow> (\<exists>cs. tr' = tr @ cs \<and> list_all P cs)"

lemma extends_by_refl [simp, intro]: "extends_by P tr tr"
  by (auto simp: extends_by_def)

lemma extends_by_snoc [simp]: "extends_by P s tr \<Longrightarrow> P c \<Longrightarrow> extends_by P s (tr @ [c])"
  by (auto simp: extends_by_def)

lemma extends_by_trans [trans]: "extends_by P s t \<Longrightarrow> extends_by P t u \<Longrightarrow> extends_by P s u"
  by (auto simp: extends_by_def)

lemma extends_by_mono: "extends_by P s t \<Longrightarrow> (\<And>c. P c \<Longrightarrow> P' c) \<Longrightarrow> extends_by P' s t"
  by (auto simp: extends_by_def list_all_iff)

section \<open>Responses\<close>

text \<open>
  The Kubernetes client, with the helpers of controller-runtime and apimachinery the agent calls:
  \<^verbatim>\<open>IgnoreNotFound\<close>, \<^verbatim>\<open>IgnoreAlreadyExists\<close>, \<^verbatim>\<open>SetStatusCondition\<close>,
  \<^verbatim>\<open>IsStatusConditionFalse\<close>. A successful status patch returns the object as the server stored it,
  which the client writes back into its argument.
\<close>

record 'q k8s =
  k_GetHypervisor :: "'q trace \<Rightarrow> string \<Rightarrow> string \<Rightarrow> goerr + 'q Hypervisor"
  k_PatchHypervisorStatus :: "'q trace \<Rightarrow> 'q Hypervisor \<Rightarrow> 'q Hypervisor \<Rightarrow> goerr + 'q Hypervisor"
  k_GetMigration :: "'q trace \<Rightarrow> string \<Rightarrow> string \<Rightarrow> goerr + Migration"
  k_CreateMigration :: "'q trace \<Rightarrow> string \<Rightarrow> string \<Rightarrow> goerr option"
  k_PatchMigrationStatus :: "'q trace \<Rightarrow> Migration \<Rightarrow> Migration \<Rightarrow> goerr option"
  k_GetEvictionState :: "'q trace \<Rightarrow> string \<Rightarrow> string \<Rightarrow> goerr + (goerr + string)"
  k_CreateEviction :: "'q trace \<Rightarrow> Eviction \<Rightarrow> goerr option"
  k_GetSecret :: "'q trace \<Rightarrow> string \<Rightarrow> string \<Rightarrow> goerr + Secret"
  k_CreateOrUpdateCertificate :: "'q trace \<Rightarrow> Certificate \<Rightarrow> goerr option"
  k_IgnoreNotFound :: "goerr option \<Rightarrow> goerr option"
  k_IgnoreAlreadyExists :: "goerr option \<Rightarrow> goerr option"
  k_SetStatusCondition :: "Condition list \<Rightarrow> Condition \<Rightarrow> Condition list"
  k_IsStatusConditionFalse :: "Condition list \<Rightarrow> string \<Rightarrow> bool"

text \<open>systemd and logind over D-Bus, and \<^verbatim>\<open>close(2)\<close> of the inhibitor's descriptor.\<close>

record 'q dbus =
  d_Connected :: "'q trace \<Rightarrow> bool" \<comment> \<open>the go-systemd connection\<close>
  d_login1Connected :: "'q trace \<Rightarrow> bool" \<comment> \<open>the D-Bus connection to logind\<close>
  d_ListUnitsByNames :: "'q trace \<Rightarrow> string list \<Rightarrow> goerr + UnitStatus list"
  d_StartUnit :: "'q trace \<Rightarrow> string \<Rightarrow> goerr + int"
  d_ReloadUnit :: "'q trace \<Rightarrow> string \<Rightarrow> goerr + int"
  d_ListInhibitors :: "'q trace \<Rightarrow> goerr option"
  d_Inhibit :: "'q trace \<Rightarrow> goerr + int"
  d_AddMatchSignal :: "'q trace \<Rightarrow> goerr option"
  d_CloseFd :: "'q trace \<Rightarrow> int \<Rightarrow> goerr option"
  d_Describe :: "'q trace \<Rightarrow> goerr + string"

text \<open>libvirtd.\<close>

record 'q virt =
  v_IsConnected :: "'q trace \<Rightarrow> bool"
  v_ConnectToURI :: "'q trace \<Rightarrow> string \<Rightarrow> goerr option"
  v_GetLibVersion :: "'q trace \<Rightarrow> goerr + uint64"
  v_GetVersion :: "'q trace \<Rightarrow> goerr + uint64"
  v_SubscribeEvents :: "'q trace \<Rightarrow> DomainEventID \<Rightarrow> goerr option"
  v_RegisterCloseCallback :: "'q trace \<Rightarrow> goerr option"
  v_Disconnect :: "'q trace \<Rightarrow> goerr option"
  v_Capabilities :: "'q trace \<Rightarrow> goerr + string"
  v_GetDomainCapabilities :: "'q trace \<Rightarrow> goerr + string"
  v_ListAllDomains :: "'q trace \<Rightarrow> list_flag list \<Rightarrow> goerr + Domain list"
  v_GetXMLDesc :: "'q trace \<Rightarrow> Domain \<Rightarrow> goerr + string"
  v_GetJobStats :: "'q trace \<Rightarrow> Domain \<Rightarrow> bool \<Rightarrow> goerr + int32 \<times> TypedParam list"

text \<open>
  The operating system: name resolution (for each address its dotted form if it is an IPv4 address),
  the environment and the file system. \<^verbatim>\<open>Lstat\<close> tells whether the path is a symbolic link.
\<close>

record 'q os_env =
  o_LookupIP :: "'q trace \<Rightarrow> string \<Rightarrow> goerr + string option list"
  o_LookupEnv :: "string \<Rightarrow> string option"
  o_MkdirAll :: "'q trace \<Rightarrow> string \<Rightarrow> goerr option"
  o_WriteFile :: "'q trace \<Rightarrow> string \<Rightarrow> byte list \<Rightarrow> goerr option"
  o_Lstat :: "'q trace \<Rightarrow> string \<Rightarrow> goerr + bool"
  o_Readlink :: "'q trace \<Rightarrow> string \<Rightarrow> goerr + string"
  o_Remove :: "'q trace \<Rightarrow> string \<Rightarrow> goerr option"
  o_Symlink :: "'q trace \<Rightarrow> string \<Rightarrow> string \<Rightarrow> goerr option"

definition os_Getenv :: "'q os_env \<Rightarrow> string \<Rightarrow> string" where
  "os_Getenv E name = (case o_LookupEnv E name of Some v \<Rightarrow> v | None \<Rightarrow> [])"

section \<open>Conditions\<close>

text \<open>
  What the agent relies on in \<^verbatim>\<open>meta.SetStatusCondition\<close> and \<^verbatim>\<open>meta.IsStatusConditionFalse\<close>: the first sets
  the condition of that type and leaves every other type alone, the second reads it.
\<close>

definition find_cond :: "Condition list \<Rightarrow> string \<Rightarrow> Condition option" where
  "find_cond cs t = List.find (\<lambda>c. cond_Type c = t) cs"

definition condition_laws :: "'q k8s \<Rightarrow> bool" where
  "condition_laws K \<longleftrightarrow>
     (\<forall>cs c t. find_cond (k_SetStatusCondition K cs c) t
                 = (if t = cond_Type c then Some c else find_cond cs t)) \<and>
     (\<forall>cs t. k_IsStatusConditionFalse K cs t
               \<longleftrightarrow> (\<exists>c. find_cond cs t = Some c \<and> cond_Status c = ConditionFalse))"

lemma find_cond_set:
  "condition_laws K \<Longrightarrow>
   find_cond (k_SetStatusCondition K cs c) t = (if t = cond_Type c then Some c else find_cond cs t)"
  by (simp add: condition_laws_def)

lemma is_condition_false:
  "condition_laws K \<Longrightarrow>
   k_IsStatusConditionFalse K cs t \<longleftrightarrow> (\<exists>c. find_cond cs t = Some c \<and> cond_Status c = ConditionFalse)"
  by (simp add: condition_laws_def)

text \<open>An instance that satisfies the laws, for the witnesses.\<close>

fun put_cond :: "Condition list \<Rightarrow> Condition \<Rightarrow> Condition list" where
  "put_cond [] c = [c]"
| "put_cond (d # ds) c = (if cond_Type d = cond_Type c then c # ds else d # put_cond ds c)"

definition cond_false :: "Condition list \<Rightarrow> string \<Rightarrow> bool" where
  "cond_false cs t = (case find_cond cs t of None \<Rightarrow> False | Some c \<Rightarrow> cond_Status c = ConditionFalse)"

lemma find_put_cond: "find_cond (put_cond cs c) t = (if t = cond_Type c then Some c else find_cond cs t)"
  by (induction cs) (auto simp: find_cond_def)

lemma condition_laws_put:
  "k_SetStatusCondition K = put_cond \<Longrightarrow> k_IsStatusConditionFalse K = cond_false \<Longrightarrow> condition_laws K"
  by (auto simp: condition_laws_def find_put_cond cond_false_def split: option.splits)

section \<open>A sample environment\<close>

text \<open>
  One concrete environment, in which every call succeeds with an empty answer. The witnesses start
  from it and change the responses they need.
\<close>

definition empty_err :: goerr where
  "empty_err = ForeignErr 0 []"

definition sample_spec :: HypervisorSpec where
  "sample_spec = \<lparr>spec_OperatingSystemVersion = [], spec_Reboot = False, spec_EvacuateOnReboot = False,
     spec_CreateCertManagerCertificate = False, spec_InstallCertificate = False, spec_Overcommit = Map.empty\<rparr>"

definition sample_os :: OperatingSystemStatus where
  "sample_os = \<lparr>os_Version = [], os_VariantID = [], os_PrettyVersion = [], os_GardenLinuxCommitID = [],
     os_GardenLinuxFeatures = [], os_KernelName = [], os_KernelRelease = [], os_KernelVersion = [],
     os_KernelCommandLine = [], os_HardwareModel = [], os_HardwareSerial = [], os_HardwareVendor = [],
     os_FirmwareVendor = [], os_FirmwareVersion = [], os_FirmwareDate = 0\<rparr>"

definition sample_status :: "'q \<Rightarrow> 'q HypervisorStatus" where
  "sample_status q = \<lparr>status_LibVirtVersion = [], status_HypervisorVersion = [],
     status_OperatingSystem = sample_os,
     status_Update = \<lparr>update_InProgress = False, update_Installed = [], update_Retry = 3\<rparr>,
     status_Instances = [], status_NumInstances = 0,
     status_Capabilities = \<lparr>scaps_HostCpuArch = [], scaps_HostMemory = q, scaps_HostCpus = q\<rparr>,
     status_DomainCapabilities = \<lparr>sdcaps_Arch = [], sdcaps_HypervisorType = [], sdcaps_SupportedCpuModes = [],
       sdcaps_SupportedDevices = [], sdcaps_SupportedFeatures = []\<rparr>,
     status_Allocation = Map.empty, status_Capacity = Map.empty, status_EffectiveCapacity = Map.empty,
     status_Cells = [], status_Conditions = []\<rparr>"

definition sample_hv :: "'q \<Rightarrow> 'q Hypervisor" where
  "sample_hv q = \<lparr>hv_Name = ''node1'', hv_UID = ''u1'', hv_ResourceVersion = ''1'',
     hv_APIVersion = ''kvm.cloud.sap/v1'', hv_Kind = ''Hypervisor'', hv_Spec = sample_spec,
     hv_Status = sample_status q\<rparr>"

definition sample_migration :: Migration where
  "sample_migration = \<lparr>migration_Name = [], migration_Namespace = [], migration_Status = zero_MigrationStatus\<rparr>"

definition idle_virt :: "'q virt" where
  "idle_virt =
     \<lparr>v_IsConnected = (\<lambda>t. False), v_ConnectToURI = (\<lambda>t u. None), v_GetLibVersion = (\<lambda>t. Inr 8001002),
      v_GetVersion = (\<lambda>t. Inr 41000000), v_SubscribeEvents = (\<lambda>t ev. None),
      v_RegisterCloseCallback = (\<lambda>t. None), v_Disconnect = (\<lambda>t. None), v_Capabilities = (\<lambda>t. Inr ''capabilities''),
      v_GetDomainCapabilities = (\<lambda>t. Inr ''domainCapabilities''), v_ListAllDomains = (\<lambda>t fs. Inr []),
      v_GetXMLDesc = (\<lambda>t d. Inr []), v_GetJobStats = (\<lambda>t d c. Inr (0, []))\<rparr>"

definition idle_k8s :: "'q Hypervisor \<Rightarrow> 'q k8s" where
  "idle_k8s hv =
     \<lparr>k_GetHypervisor = (\<lambda>t ns n. Inr hv), k_PatchHypervisorStatus = (\<lambda>t obj base. Inr obj),
      k_GetMigration = (\<lambda>t ns n. Inr sample_migration), k_CreateMigration = (\<lambda>t ns n. None),
      k_PatchMigrationStatus = (\<lambda>t m b. None), k_GetEvictionState = (\<lambda>t ns n. Inr (Inr ''Succeeded'')),
      k_CreateEviction = (\<lambda>t e. None),
      k_GetSecret = (\<lambda>t ns n. Inr \<lparr>secret_Name = n, secret_ResourceVersion = ''1'', secret_Data = Map.empty\<rparr>),
      k_CreateOrUpdateCertificate = (\<lambda>t c. None), k_IgnoreNotFound = (\<lambda>e. e),
      k_IgnoreAlreadyExists = (\<lambda>e. e), k_SetStatusCondition = put_cond,
      k_IsStatusConditionFalse = cond_false\<rparr>"

definition idle_dbus :: "'q dbus" where
  "idle_dbus =
     \<lparr>d_Connected = (\<lambda>t. True), d_login1Connected = (\<lambda>t. True), d_ListUnitsByNames = (\<lambda>t us. Inr []), d_StartUnit = (\<lambda>t u. Inr 1),
      d_ReloadUnit = (\<lambda>t u. Inr 1), d_ListInhibitors = (\<lambda>t. None), d_Inhibit = (\<lambda>t. Inr 7),
      d_AddMatchSignal = (\<lambda>t. None), d_CloseFd = (\<lambda>t fd. None), d_Describe = (\<lambda>t. Inr [])\<rparr>"

definition idle_os :: "'q os_env" where
  "idle_os =
     \<lparr>o_LookupIP = (\<lambda>t h. Inr [Some ''10.0.0.1'']), o_LookupEnv = (\<lambda>n. None), o_MkdirAll = (\<lambda>t p. None),
      o_WriteFile = (\<lambda>t p d. None), o_Lstat = (\<lambda>t p. Inl (Sentinel OsErrNotExist)), o_Readlink = (\<lambda>t p. Inr []),
      o_Remove = (\<lambda>t p. None), o_Symlink = (\<lambda>t a b. None)\<rparr>"

lemma condition_laws_idle: "condition_laws (idle_k8s hv)"
  by (rule condition_laws_put) (simp_all add: idle_k8s_def)

end
