(* ===== verification/Strconv.thy ===== *)
theory Strconv
  imports Prelude
begin

text \<open>
  What the decoders of the standard library use of \<^verbatim>\<open>strconv\<close> and \<^verbatim>\<open>strings\<close>:
  \<^verbatim>\<open>strings.TrimSpace\<close> on UTF-8 text, \<^verbatim>\<open>strconv.ParseInt\<close> and \<^verbatim>\<open>strconv.ParseUint\<close> for
  base 10 and 64 bits with their two errors, and the sequencing of calls that may fail.
\<close>

section \<open>Calls that may fail\<close>

definition and_then :: "'e + 'a \<Rightarrow> ('a \<Rightarrow> 'e + 'b) \<Rightarrow> 'e + 'b" where
  "and_then r f = (case r of Inl e \<Rightarrow> Inl e | Inr a \<Rightarrow> f a)"

lemma and_then_simps [simp]:
  "and_then (Inl e) f = Inl e" "and_then (Inr a) f = f a"
  by (simp_all add: and_then_def)

lemma and_then_Inr [simp]: "and_then r Inr = r"
  by (cases r) simp_all

lemma and_then_assoc: "and_then (and_then r f) g = and_then r (\<lambda>a. and_then (f a) g)"
  by (cases r) simp_all

lemma and_then_eq_Inr: "and_then r f = Inr b \<longleftrightarrow> (\<exists>a. r = Inr a \<and> f a = Inr b)"
  by (cases r) simp_all

text \<open>A loop over a list that ends at the first error.\<close>

fun fold_res :: "('x \<Rightarrow> 'a \<Rightarrow> 'e + 'a) \<Rightarrow> 'x list \<Rightarrow> 'a \<Rightarrow> 'e + 'a" where
  "fold_res f [] a = Inr a"
| "fold_res f (x # xs) a = and_then (f x a) (fold_res f xs)"

lemma fold_res_append: "fold_res f (xs @ ys) a = and_then (fold_res f xs a) (fold_res f ys)"
proof (induction xs arbitrary: a)
  case (Cons x xs)
  then show ?case by (cases "f x a") simp_all
qed simp

lemma fold_res_skip: "(\<And>x a. x \<in> set xs \<Longrightarrow> f x a = Inr a) \<Longrightarrow> fold_res f xs a = Inr a"
  by (induction xs arbitrary: a) simp_all

lemma fold_res_filter:
  "(\<And>x a. x \<in> set xs \<Longrightarrow> \<not> P x \<Longrightarrow> f x a = Inr a) \<Longrightarrow> fold_res f (filter P xs) a = fold_res f xs a"
proof (induction xs arbitrary: a)
  case (Cons x xs)
  then have "fold_res f (filter P xs) = fold_res f xs" by (intro ext) simp
  then show ?case using Cons.prems [of x] by simp
qed simp

section \<open>Integers\<close>

datatype num_err = ErrSyntax | ErrRange

text \<open>The loop of \<^verbatim>\<open>ParseUint\<close>: the value so far never exceeds 64 bits.\<close>

fun parse_digits :: "nat \<Rightarrow> string \<Rightarrow> num_err + nat" where
  "parse_digits n [] = Inr n"
| "parse_digits n (c # cs) =
     (if \<not> is_dec_digit c then Inl ErrSyntax
      else if 2 ^ 64 \<le> 10 * n + digit_val c then Inl ErrRange
      else parse_digits (10 * n + digit_val c) cs)"

definition ParseUint :: "string \<Rightarrow> num_err + nat" where
  "ParseUint s = (if s = [] then Inl ErrSyntax else parse_digits 0 s)"

text \<open>A range error of the digits leaves the largest value, which is then out of range too.\<close>

definition ParseInt :: "string \<Rightarrow> num_err + int" where
  "ParseInt s =
     (if s = [] then Inl ErrSyntax
      else let neg = (hd s = CHR ''-'');
               digits = (if hd s = CHR ''+'' \<or> hd s = CHR ''-'' then tl s else s)
           in if ParseUint digits = Inl ErrSyntax then Inl ErrSyntax
              else let un = (case ParseUint digits of Inl e \<Rightarrow> 2 ^ 64 - 1 | Inr n \<Rightarrow> n)
                   in if \<not> neg \<and> 2 ^ 63 \<le> un then Inl ErrRange
                      else if neg \<and> 2 ^ 63 < un then Inl ErrRange
                      else Inr (if neg then - int un else int un))"

lemma undec_Cons_acc: "foldl (\<lambda>a c. 10 * a + digit_val c) n s \<ge> n"
proof (induction s arbitrary: n)
  case (Cons c s)
  have "n \<le> 10 * n + digit_val c" by simp
  also have "\<dots> \<le> foldl (\<lambda>a c. 10 * a + digit_val c) (10 * n + digit_val c) s" by (rule Cons.IH)
  finally show ?case by simp
qed simp

lemma parse_digits_ok:
  "parse_digits n s = Inr m \<longleftrightarrow>
     list_all is_dec_digit s \<and> m = foldl (\<lambda>a c. 10 * a + digit_val c) n s \<and> (s \<noteq> [] \<longrightarrow> m < 2 ^ 64)"
proof (induction s arbitrary: n)
  case (Cons c s)
  let ?m = "foldl (\<lambda>a c. 10 * a + digit_val c) (10 * n + digit_val c) s"
  have "10 * n + digit_val c \<le> ?m" by (rule undec_Cons_acc)
  then show ?case using Cons.IH [of "10 * n + digit_val c"] by auto
qed auto

text \<open>\<^verbatim>\<open>ParseUint\<close> accepts exactly the non-empty sequences of digits below \<open>2 ^ 64\<close>.\<close>

lemma ParseUint_iff: "ParseUint s = Inr n \<longleftrightarrow> s \<noteq> [] \<and> list_all is_dec_digit s \<and> n = undec s \<and> n < 2 ^ 64"
  by (auto simp: ParseUint_def parse_digits_ok undec_def)

lemma ParseUint_dec: "n < 2 ^ 64 \<Longrightarrow> ParseUint (dec n) = Inr n"
  by (simp add: ParseUint_iff dec_digits)

lemma not_sign_digit: "is_dec_digit c \<Longrightarrow> c \<noteq> CHR ''+'' \<and> c \<noteq> CHR ''-''"
  by (auto simp: is_dec_digit_def)

lemma hd_dec_digit: "is_dec_digit (hd (dec n))"
  using dec_digits [of n] by (cases "dec n") (simp_all add: list_all_iff)

lemma ParseInt_dec_int:
  assumes "int64_range i"
  shows "ParseInt (dec_int i) = Inr i"
proof (cases "i < 0")
  case True
  with assms have "nat (- i) \<le> 2 ^ 63" "nat (- i) < 2 ^ 64" by (simp_all add: int64_range_def)
  with True show ?thesis by (simp add: ParseInt_def dec_int_def ParseUint_dec Let_def)
next
  case False
  with assms have "nat i < 2 ^ 63" "nat i < 2 ^ 64" by (simp_all add: int64_range_def)
  with False show ?thesis
    using not_sign_digit [OF hd_dec_digit [of "nat i"]]
    by (simp add: ParseInt_def dec_int_def ParseUint_dec Let_def)
qed

lemma ParseInt_range: "ParseInt s = Inr i \<Longrightarrow> int64_range i"
  by (auto simp: ParseInt_def int64_range_def Let_def split: if_splits sum.splits)

section \<open>White space\<close>

text \<open>The characters of \<^verbatim>\<open>unicode.IsSpace\<close>, as UTF-8.\<close>

definition space_runes :: "string list" where
  "space_runes =
     [[CHR 0x09], [CHR 0x0A], [CHR 0x0B], [CHR 0x0C], [CHR 0x0D], [CHR 0x20],
      [CHR 0xC2, CHR 0x85], [CHR 0xC2, CHR 0xA0], [CHR 0xE1, CHR 0x9A, CHR 0x80]]
     @ map (\<lambda>c. [CHR 0xE2, CHR 0x80, c])
         [CHR 0x80, CHR 0x81, CHR 0x82, CHR 0x83, CHR 0x84, CHR 0x85, CHR 0x86, CHR 0x87, CHR 0x88,
          CHR 0x89, CHR 0x8A, CHR 0xA8, CHR 0xA9, CHR 0xAF]
     @ [[CHR 0xE2, CHR 0x81, CHR 0x9F], [CHR 0xE3, CHR 0x80, CHR 0x80]]"

function trim_runes :: "string list \<Rightarrow> string \<Rightarrow> string" where
  "trim_runes ws s =
     (case find (\<lambda>w. w \<noteq> [] \<and> length w \<le> length s \<and> take (length w) s = w) ws of
        None \<Rightarrow> s
      | Some w \<Rightarrow> trim_runes ws (drop (length w) s))"
  by pat_completeness auto
termination
proof (relation "measure (\<lambda>(ws, s). length s)", goal_cases)
  case (2 ws s w)
  then have "w \<noteq> []" "length w \<le> length s" by (auto simp: find_Some_iff)
  then show ?case by (cases w) auto
qed simp

declare trim_runes.simps [simp del]

definition TrimSpace :: "string \<Rightarrow> string" where
  "TrimSpace s = rev (trim_runes (map rev space_runes) (rev (trim_runes space_runes s)))"

lemma trim_runes_id:
  assumes "\<And>w. w \<in> set ws \<Longrightarrow> w \<noteq> [] \<Longrightarrow> s \<noteq> [] \<Longrightarrow> hd w \<noteq> hd s"
  shows "trim_runes ws s = s"
proof -
  have "\<not> (w \<noteq> [] \<and> length w \<le> length s \<and> take (length w) s = w)" if "w \<in> set ws" for w
    using assms [OF that] by (cases w; cases s) auto
  then have "find (\<lambda>w. w \<noteq> [] \<and> length w \<le> length s \<and> take (length w) s = w) ws = None"
    by (auto simp: find_None_iff)
  then show ?thesis by (simp add: trim_runes.simps [of ws s])
qed

text \<open>A text that begins and ends with a digit or a sign is not changed.\<close>

definition number_char :: "char \<Rightarrow> bool" where
  "number_char c \<longleftrightarrow> is_dec_digit c \<or> c = CHR ''+'' \<or> c = CHR ''-''"

lemma rune_heads:
  assumes "w \<in> set space_runes" "number_char c"
  shows "hd w \<noteq> c" "hd (rev w) \<noteq> c"
proof -
  have "list_all (\<lambda>w. \<not> number_char (hd w) \<and> \<not> number_char (hd (rev w))) space_runes"
    by (simp add: space_runes_def number_char_def is_dec_digit_def)
  then show "hd w \<noteq> c" "hd (rev w) \<noteq> c"
    using assms by (auto simp: list_all_iff)
qed

lemma TrimSpace_number:
  assumes "s = [] \<or> number_char (hd s) \<and> number_char (last s)"
  shows "TrimSpace s = s"
proof -
  have "trim_runes space_runes s = s"
    by (rule trim_runes_id) (use assms rune_heads(1) in blast)
  moreover have "trim_runes (map rev space_runes) (rev s) = rev s"
    by (rule trim_runes_id) (use assms rune_heads(2) in \<open>auto simp: hd_rev\<close>)
  ultimately show ?thesis by (simp add: TrimSpace_def)
qed

lemma number_char_digit: "is_dec_digit c \<Longrightarrow> number_char c"
  by (simp add: number_char_def)

lemma last_dec_digit: "is_dec_digit (last (dec n))"
  using dec_digits [of n] last_in_set [of "dec n"] by (simp add: list_all_iff)

lemma TrimSpace_dec [simp]: "TrimSpace (dec n) = dec n"
  by (rule TrimSpace_number) (simp add: number_char_digit hd_dec_digit last_dec_digit)

lemma TrimSpace_dec_int [simp]: "TrimSpace (dec_int i) = dec_int i"
proof (rule TrimSpace_number)
  show "dec_int i = [] \<or> number_char (hd (dec_int i)) \<and> number_char (last (dec_int i))"
    by (auto simp: dec_int_def number_char_digit hd_dec_digit last_dec_digit number_char_def)
qed

lemma dec_int_not_Nil [simp]: "dec_int i \<noteq> []"
  by (simp add: dec_int_def)

section \<open>The errors\<close>

fun num_err_text :: "num_err \<Rightarrow> string" where
  "num_err_text ErrSyntax = ''invalid syntax''"
| "num_err_text ErrRange = ''value out of range''"

text \<open>The text of a \<^verbatim>\<open>NumError\<close>, with the argument in quotes (escaping is not repeated here).\<close>

definition NumError :: "string \<Rightarrow> string \<Rightarrow> num_err \<Rightarrow> goerr" where
  "NumError fn num e =
     ForeignErr 0 (''strconv.'' @ fn @ '': parsing '' @ [CHR 0x22] @ num @ [CHR 0x22] @ '': '' @ num_err_text e)"

end
