(* ===== verification/JsonDecode.thy ===== *)
theory JsonDecode
  imports GoFloat Strconv "HOL-Library.AList"
begin

text \<open>
  \<^verbatim>\<open>json.Unmarshal\<close> of the standard library, as far as the description of the host uses it: decoding a JSON
  value into a struct by its tags. The input is the syntax tree of the document. A key matches a field
  exactly or, failing that, without regard to case; a value of the wrong type is an error that does
  not stop the decoding but is returned at the end, the first one only; \<^verbatim>\<open>null\<close> leaves a scalar alone and
  clears a slice or an interface.
\<close>

section \<open>Values\<close>

text \<open>A document: numbers are kept as written.\<close>

datatype json = JsonNull | JsonBool bool | JsonNumber string | JsonString string
  | JsonArray "json list" | JsonObject "(string \<times> json) list"

text \<open>What is stored in a field of type \<^verbatim>\<open>any\<close>.\<close>

datatype any_json = JNull | JBool bool | JNumber float64 | JString string
  | JArray "any_json list" | JObject "(string \<times> any_json) list"

text \<open>
  \<^verbatim>\<open>strconv.ParseFloat\<close> on a JSON number (sign, digits, fraction, exponent): the exact value, correctly
  rounded; an overflow to infinity is an error.
\<close>

definition exponent_of :: "string \<Rightarrow> int" where
  "exponent_of s = (case s of [] \<Rightarrow> 0
     | c # cs \<Rightarrow> if c = CHR ''-'' then - int (undec cs) else if c = CHR ''+'' then int (undec cs) else int (undec s))"

definition parse_float :: "string \<Rightarrow> float64" where
  "parse_float s =
     (let neg = (s \<noteq> [] \<and> hd s = CHR ''-'');
          s = (if neg then tl s else s);
          whole = takeWhile is_dec_digit s;
          rest = dropWhile is_dec_digit s;
          frac = (if rest \<noteq> [] \<and> hd rest = CHR ''.'' then takeWhile is_dec_digit (tl rest) else []);
          rest = (if rest \<noteq> [] \<and> hd rest = CHR ''.'' then dropWhile is_dec_digit (tl rest) else rest);
          exp = (case rest of [] \<Rightarrow> 0 | c # cs \<Rightarrow> exponent_of cs);
          m = (if neg then - 1 else 1) * int (undec (whole @ frac));
          e = exp - int (length frac)
      in if 0 \<le> e then round64 (m * 10 ^ nat e) 0 else fdiv (Finite m 0) (Finite (10 ^ nat (- e)) 0))"

fun is_finite :: "float64 \<Rightarrow> bool" where
  "is_finite (Finite m e) = True"
| "is_finite x = False"

text \<open>An \<^verbatim>\<open>UnmarshalTypeError\<close>: what was found, the field and its type.\<close>

definition type_error :: "string \<Rightarrow> string \<Rightarrow> string \<Rightarrow> goerr" where
  "type_error found field ty =
     ForeignErr 1 (''json: cannot unmarshal '' @ found @ '' into Go struct field '' @ field @ '' of type '' @ ty)"

fun found_text :: "json \<Rightarrow> string" where
  "found_text JsonNull = ''null''"
| "found_text (JsonBool b) = ''bool''"
| "found_text (JsonNumber s) = ''number''"
| "found_text (JsonString s) = ''string''"
| "found_text (JsonArray xs) = ''array''"
| "found_text (JsonObject ms) = ''object''"

section \<open>Decoding\<close>

text \<open>The first error is the one that is returned.\<close>

definition first_error :: "goerr option \<Rightarrow> goerr option \<Rightarrow> goerr option" where
  "first_error e e' = (case e of None \<Rightarrow> e' | Some x \<Rightarrow> Some x)"

lemma first_error_None [simp]: "first_error e e' = None \<longleftrightarrow> e = None \<and> e' = None" "first_error None e = e"
  by (auto simp: first_error_def split: option.splits)

text \<open>A decoder takes the name of the field (for the error), the value and what the field holds.\<close>

type_synonym 'a json_decoder = "string \<Rightarrow> json \<Rightarrow> 'a \<Rightarrow> 'a \<times> goerr option"

definition into_string :: "string json_decoder" where
  "into_string field v old =
     (case v of JsonNull \<Rightarrow> (old, None) | JsonString s \<Rightarrow> (s, None)
      | _ \<Rightarrow> (old, Some (type_error (found_text v) field ''string'')))"

definition into_int64 :: "int64 json_decoder" where
  "into_int64 field v old =
     (case v of JsonNull \<Rightarrow> (old, None)
      | JsonNumber s \<Rightarrow>
          (case ParseInt s of
             Inl e \<Rightarrow> (old, Some (type_error (''number '' @ s) field ''int64''))
           | Inr i \<Rightarrow> (word_of_int i, None))
      | _ \<Rightarrow> (old, Some (type_error (found_text v) field ''int64'')))"

text \<open>The interface value: numbers become \<^verbatim>\<open>float64\<close>, objects maps in which the last of equal keys counts.\<close>

fun any_value :: "string \<Rightarrow> json \<Rightarrow> any_json \<times> goerr option"
  and any_items :: "string \<Rightarrow> json list \<Rightarrow> any_json list \<times> goerr option"
  and any_members :: "string \<Rightarrow> (string \<times> json) list \<Rightarrow> (string \<times> any_json) list \<Rightarrow> (string \<times> any_json) list \<times> goerr option" where
  "any_value field JsonNull = (JNull, None)"
| "any_value field (JsonBool b) = (JBool b, None)"
| "any_value field (JsonNumber s) =
     (if is_finite (parse_float s) then (JNumber (parse_float s), None)
      else (JNull, Some (type_error (''number '' @ s) field ''float64'')))"
| "any_value field (JsonString s) = (JString s, None)"
| "any_value field (JsonArray xs) = (case any_items field xs of (ys, e) \<Rightarrow> (JArray ys, e))"
| "any_value field (JsonObject ms) = (case any_members field ms [] of (ns, e) \<Rightarrow> (JObject ns, e))"
| "any_items field [] = ([], None)"
| "any_items field (x # xs) =
     (case any_value field x of (y, e) \<Rightarrow> (case any_items field xs of (ys, e') \<Rightarrow> (y # ys, first_error e e')))"
| "any_members field [] acc = (acc, None)"
| "any_members field (m # ms) acc =
     (case any_value field (snd m) of (y, e) \<Rightarrow>
        (case any_members field ms (AList.update (fst m) y acc) of (ns, e') \<Rightarrow> (ns, first_error e e')))"

definition into_any :: "any_json json_decoder" where
  "into_any field v old = any_value field v"

text \<open>
  A slice: element \<open>i\<close> is decoded into what was there (a second array for the same key reuses the
  first), a new element starts from its zero value.
\<close>

fun into_elements :: "'a json_decoder \<Rightarrow> 'a \<Rightarrow> string \<Rightarrow> json list \<Rightarrow> 'a list \<Rightarrow> 'a list \<times> goerr option" where
  "into_elements d zero field [] old = ([], None)"
| "into_elements d zero field (v # vs) old =
     (case d field v (case old of [] \<Rightarrow> zero | x # xs \<Rightarrow> x) of
        (y, e) \<Rightarrow> (case into_elements d zero field vs (tl old) of (ys, e') \<Rightarrow> (y # ys, first_error e e')))"

definition into_slice :: "string \<Rightarrow> 'a json_decoder \<Rightarrow> 'a \<Rightarrow> 'a list json_decoder" where
  "into_slice ty d zero field v old =
     (case v of JsonNull \<Rightarrow> ([], None) | JsonArray vs \<Rightarrow> into_elements d zero field vs old
      | _ \<Rightarrow> (old, Some (type_error (found_text v) field ty)))"

section \<open>Structs\<close>

text \<open>The folding of keys: letters without case, with the two other characters that fold to a letter.\<close>

fun fold_key :: "string \<Rightarrow> string" where
  "fold_key [] = []"
| "fold_key (c # cs) =
     (if c = CHR 0xC5 \<and> cs \<noteq> [] \<and> hd cs = CHR 0xBF then CHR ''S'' # fold_key (tl cs)
      else if c = CHR 0xE2 \<and> take 2 cs = [CHR 0x84, CHR 0xAA] then CHR ''K'' # fold_key (drop 2 cs)
      else (if (97::nat) \<le> of_char c \<and> of_char c \<le> (122::nat) then char_of (of_char c - (32::nat)) else c) # fold_key cs)"

text \<open>A field: its key and how a value is put into the struct.\<close>

type_synonym 'a json_field = "string \<times> (string \<Rightarrow> json \<Rightarrow> 'a \<Rightarrow> 'a \<times> goerr option)"

definition json_field :: "string \<Rightarrow> ('a \<Rightarrow> 'f) \<Rightarrow> (('f \<Rightarrow> 'f) \<Rightarrow> 'a \<Rightarrow> 'a) \<Rightarrow> 'f json_decoder \<Rightarrow> 'a json_field" where
  "json_field key get upd d = (key, \<lambda>field v a. case d field v (get a) of (f, e) \<Rightarrow> (upd (\<lambda>_. f) a, e))"

definition find_field :: "'a json_field list \<Rightarrow> string \<Rightarrow> 'a json_field option" where
  "find_field fs k =
     (case List.find (\<lambda>f. fst f = k) fs of
        Some f \<Rightarrow> Some f
      | None \<Rightarrow> List.find (\<lambda>f. fold_key (fst f) = fold_key k) fs)"

fun json_members :: "string \<Rightarrow> 'a json_field list \<Rightarrow> (string \<times> json) list \<Rightarrow> 'a \<Rightarrow> 'a \<times> goerr option" where
  "json_members struct fs [] a = (a, None)"
| "json_members struct fs (m # ms) a =
     (case find_field fs (fst m) of
        None \<Rightarrow> json_members struct fs ms a
      | Some f \<Rightarrow>
          (case snd f (struct @ ''.'' @ fst f) (snd m) a of
             (a, e) \<Rightarrow> (case json_members struct fs ms a of (b, e') \<Rightarrow> (b, first_error e e'))))"

definition json_struct :: "string \<Rightarrow> string \<Rightarrow> 'a json_field list \<Rightarrow> json \<Rightarrow> 'a \<Rightarrow> 'a \<times> goerr option" where
  "json_struct pkg struct fs v a =
     (case v of JsonNull \<Rightarrow> (a, None) | JsonObject ms \<Rightarrow> json_members struct fs ms a
      | _ \<Rightarrow> (a, Some (ForeignErr 1 (''json: cannot unmarshal '' @ found_text v @ '' into Go value of type '' @ pkg @ ''.'' @ struct))))"

text \<open>\<^verbatim>\<open>json.Unmarshal(data, &v)\<close> for a fresh \<^verbatim>\<open>v\<close>; the parser of JSON is an argument.\<close>

type_synonym json_reader = "string \<Rightarrow> goerr + json"

definition json_Unmarshal :: "json_reader \<Rightarrow> (json \<Rightarrow> 'a \<Rightarrow> 'a \<times> goerr option) \<Rightarrow> 'a \<Rightarrow> string \<Rightarrow> goerr + 'a" where
  "json_Unmarshal rd d zero data =
     (case rd data of
        Inl err \<Rightarrow> Inl err
      | Inr v \<Rightarrow> (case d v zero of (a, None) \<Rightarrow> Inr a | (a, Some err) \<Rightarrow> Inl err))"

end
