(* ===== verification/Systemd.thy ===== *)
theory Systemd
  imports World JsonDecode
begin

text \<open>
  \<^verbatim>\<open>internal/systemd\<close>: the connection to systemd and logind. The shutdown inhibitor is a small
  concurrent program: \<^verbatim>\<open>EnableShutdownInhibit\<close> takes an inhibitor lock (a file descriptor) and
  starts a goroutine, the watcher, that waits for the shutdown signal or for a message on the
  unbuffered channel \<^verbatim>\<open>shutdownCh\<close>; \<^verbatim>\<open>DisableShutdownInhibit\<close> sends that message and
  closes the descriptor. A send on an unbuffered channel proceeds only with a receiver: the state counts
  the watchers that wait (and can receive), those that run the callback, and the goroutines blocked
  in the send. The decoder of the JSON document of \<^verbatim>\<open>Describe\<close> is an argument.
\<close>

section \<open>Definitions\<close>

definition ACTIVE :: string where "ACTIVE = ''active''"
definition ACTIVATING :: string where "ACTIVATING = ''activating''"
definition INACTIVE :: string where "INACTIVE = ''inactive''"
definition FAILED :: string where "FAILED = ''failed''"

record Descriptor =
  desc_Hostname :: string
  desc_StaticHostname :: string
  desc_PrettyHostname :: any_json
  desc_DefaultHostname :: string
  desc_HostnameSource :: string
  desc_IconName :: string
  desc_Chassis :: string
  desc_Deployment :: any_json
  desc_Location :: any_json
  desc_KernelName :: string
  desc_KernelRelease :: string
  desc_KernelVersion :: string
  desc_OperatingSystemPrettyName :: string
  desc_OperatingSystemCPEName :: any_json
  desc_OperatingSystemHomeURL :: string
  desc_OperatingSystemReleaseData :: "string list"
  desc_MachineInformationData :: "any_json list"
  desc_HardwareVendor :: string
  desc_HardwareModel :: string
  desc_HardwareSerial :: string
  desc_FirmwareVersion :: string
  desc_FirmwareVendor :: string
  desc_FirmwareDate :: int64
  desc_MachineID :: string
  desc_BootID :: string
  desc_ProductUUID :: string
  desc_VSockCID :: any_json

definition zero_Descriptor :: Descriptor where
  "zero_Descriptor = \<lparr>desc_Hostname = [], desc_StaticHostname = [], desc_PrettyHostname = JNull, desc_DefaultHostname = [],
     desc_HostnameSource = [], desc_IconName = [], desc_Chassis = [], desc_Deployment = JNull, desc_Location =
     JNull, desc_KernelName = [], desc_KernelRelease = [], desc_KernelVersion = [],
     desc_OperatingSystemPrettyName = [], desc_OperatingSystemCPEName = JNull, desc_OperatingSystemHomeURL =
     [], desc_OperatingSystemReleaseData = [], desc_MachineInformationData = [], desc_HardwareVendor = [],
     desc_HardwareModel = [], desc_HardwareSerial = [], desc_FirmwareVersion = [], desc_FirmwareVendor = [],
     desc_FirmwareDate = 0, desc_MachineID = [], desc_BootID = [], desc_ProductUUID = [], desc_VSockCID =
     JNull\<rparr>"

text \<open>The tags. (The field \<^verbatim>\<open>OperatingSystemPrettyName\<close> has the key \<^verbatim>\<open>PrettyName\<close>.)\<close>

definition Descriptor_fields :: "Descriptor json_field list" where
  "Descriptor_fields =
     [json_field ''Hostname'' desc_Hostname desc_Hostname_update into_string,
      json_field ''StaticHostname'' desc_StaticHostname desc_StaticHostname_update into_string,
      json_field ''PrettyHostname'' desc_PrettyHostname desc_PrettyHostname_update into_any,
      json_field ''DefaultHostname'' desc_DefaultHostname desc_DefaultHostname_update into_string,
      json_field ''HostnameSource'' desc_HostnameSource desc_HostnameSource_update into_string,
      json_field ''IconName'' desc_IconName desc_IconName_update into_string,
      json_field ''Chassis'' desc_Chassis desc_Chassis_update into_string,
      json_field ''Deployment'' desc_Deployment desc_Deployment_update into_any,
      json_field ''Location'' desc_Location desc_Location_update into_any,
      json_field ''KernelName'' desc_KernelName desc_KernelName_update into_string,
      json_field ''KernelRelease'' desc_KernelRelease desc_KernelRelease_update into_string,
      json_field ''KernelVersion'' desc_KernelVersion desc_KernelVersion_update into_string,
      json_field ''PrettyName'' desc_OperatingSystemPrettyName desc_OperatingSystemPrettyName_update into_string,
      json_field ''OperatingSystemCPEName'' desc_OperatingSystemCPEName desc_OperatingSystemCPEName_update into_any,
      json_field ''OperatingSystemHomeURL'' desc_OperatingSystemHomeURL desc_OperatingSystemHomeURL_update into_string,
      json_field ''OperatingSystemReleaseData'' desc_OperatingSystemReleaseData desc_OperatingSystemReleaseData_update (into_slice ''[]string'' into_string []),
      json_field ''MachineInformationData'' desc_MachineInformationData desc_MachineInformationData_update (into_slice ''[]interface {}'' into_any JNull),
      json_field ''HardwareVendor'' desc_HardwareVendor desc_HardwareVendor_update into_string,
      json_field ''HardwareModel'' desc_HardwareModel desc_HardwareModel_update into_string,
      json_field ''HardwareSerial'' desc_HardwareSerial desc_HardwareSerial_update into_string,
      json_field ''FirmwareVersion'' desc_FirmwareVersion desc_FirmwareVersion_update into_string,
      json_field ''FirmwareVendor'' desc_FirmwareVendor desc_FirmwareVendor_update into_string,
      json_field ''FirmwareDate'' desc_FirmwareDate desc_FirmwareDate_update into_int64,
      json_field ''MachineID'' desc_MachineID desc_MachineID_update into_string,
      json_field ''BootID'' desc_BootID desc_BootID_update into_string,
      json_field ''ProductUUID'' desc_ProductUUID desc_ProductUUID_update into_string,
      json_field ''VSockCID'' desc_VSockCID desc_VSockCID_update into_any]"

definition unmarshal_Descriptor :: "json \<Rightarrow> Descriptor \<Rightarrow> Descriptor \<times> goerr option" where
  "unmarshal_Descriptor = json_struct ''systemd'' ''Descriptor'' Descriptor_fields"

text \<open>The struct \<^verbatim>\<open>SystemdConn\<close>, with the goroutines that belong to it.\<close>

record SystemdConn =
  sd_fd :: int
  sd_watching :: nat \<comment> \<open>watchers waiting in their select\<close>
  sd_running :: nat \<comment> \<open>watchers running the callback\<close>
  sd_stuck :: nat \<comment> \<open>goroutines blocked in the send on \<^verbatim>\<open>shutdownCh\<close>\<close>
  sd_subscribed :: bool \<comment> \<open>the signal channel is registered\<close>

definition fresh_conn :: SystemdConn where
  "fresh_conn = \<lparr>sd_fd = - 1, sd_watching = 0, sd_running = 0, sd_stuck = 0, sd_subscribed = False\<rparr>"

text \<open>
  \<^verbatim>\<open>dialBus\<close>: the results of \<^verbatim>\<open>SystemBusPrivate\<close>, \<^verbatim>\<open>Auth\<close> and \<^verbatim>\<open>Hello\<close> are arguments; the second
  component of the result says whether the new connection was closed again.
\<close>

definition dialBus :: "goerr + 'c \<Rightarrow> goerr option \<Rightarrow> goerr option \<Rightarrow> (goerr + 'c) \<times> bool" where
  "dialBus bus auth hello =
     (case bus of
        Inl err \<Rightarrow> (Inl err, False)
      | Inr conn \<Rightarrow>
          (case auth of
             Some err \<Rightarrow> (Inl err, True)
           | None \<Rightarrow> (case hello of Some err \<Rightarrow> (Inl err, True) | None \<Rightarrow> (Inr conn, False))))"

text \<open>
  \<^verbatim>\<open>NewSystemd\<close>: the package variable \<^verbatim>\<open>systemdConn\<close> is an argument and a result.
\<close>

definition NewSystemd ::
    "SystemdConn option \<Rightarrow> goerr option \<Rightarrow> goerr option \<Rightarrow> (goerr + SystemdConn) \<times> SystemdConn option" where
  "NewSystemd systemdConn newConnection dial =
     (case systemdConn of
        Some s \<Rightarrow> (Inr s, systemdConn)
      | None \<Rightarrow>
          (case newConnection of
             Some err \<Rightarrow> (Inl err, None)
           | None \<Rightarrow>
               (case dial of
                  Some err \<Rightarrow> (Inl (Wrapped ''failed to connect to dbus: '' err []), None)
                | None \<Rightarrow> (Inr fresh_conn, Some fresh_conn))))"

definition EnableShutdownInhibit ::
    "'q dbus \<Rightarrow> SystemdConn \<Rightarrow> 'q trace \<Rightarrow> goerr option \<times> SystemdConn \<times> 'q trace" where
  "EnableShutdownInhibit D s tr =
     (if sd_fd s \<noteq> - 1 then (Some (ErrorsNew ''shutdown inhibition already enabled''), s, tr)
      else (case ext DListInhibitors (d_ListInhibitors D) tr of
              (Some err, tr) \<Rightarrow> (Some (Wrapped ''failed to list inhibitors: '' err []), s, tr)
            | (None, tr) \<Rightarrow>
                (case ext (DInhibit ''sleep:shutdown'' ''kvm-node-agent'' ''Emergency evacuation of host node.'' ''delay'')
                        (d_Inhibit D) tr of
                   (Inl err, tr) \<Rightarrow> (Some (Wrapped ''error storing file descriptor: '' err []), s, tr)
                 | (Inr fd, tr) \<Rightarrow>
                     (let s = s\<lparr>sd_fd := fd, sd_watching := sd_watching s + 1\<rparr>
                      in case ext DAddMatchSignal (d_AddMatchSignal D) tr of
                           (Some err, tr) \<Rightarrow> (Some (Wrapped ''failed to add match signal: '' err []), s, tr)
                         | (None, tr) \<Rightarrow> (None, s\<lparr>sd_subscribed := True\<rparr>, snd (ext DSignal (\<lambda>_. ()) tr))))))"

text \<open>The end of \<^verbatim>\<open>DisableShutdownInhibit\<close>, after the send.\<close>

definition close_fd :: "'q dbus \<Rightarrow> SystemdConn \<Rightarrow> 'q trace \<Rightarrow> goerr option \<times> SystemdConn \<times> 'q trace" where
  "close_fd D s tr =
     (case ext (DCloseFd (sd_fd s)) (\<lambda>t. d_CloseFd D t (sd_fd s)) tr of
        (Some err, tr) \<Rightarrow> (Some (Wrapped ''failed to close file descriptor: '' err []), s, tr)
      | (None, tr) \<Rightarrow> (None, s\<lparr>sd_fd := - 1\<rparr>, tr))"

definition DisableShutdownInhibit ::
    "'q dbus \<Rightarrow> SystemdConn \<Rightarrow> 'q trace \<Rightarrow> goerr option outcome \<times> SystemdConn \<times> 'q trace" where
  "DisableShutdownInhibit D s tr =
     (if sd_fd s = - 1 then (Ret None, s, tr)
      else (let tr = snd (ext DRemoveSignal (\<lambda>_. ()) tr); s = s\<lparr>sd_subscribed := False\<rparr>
            in if sd_watching s = 0 then (Blocked, s\<lparr>sd_stuck := sd_stuck s + 1\<rparr>, tr)
               else (case close_fd D (s\<lparr>sd_watching := sd_watching s - 1\<rparr>) tr of
                       (r, s, tr) \<Rightarrow> (Ret r, s, tr))))"

definition SystemdConn_Close :: "'q trace \<Rightarrow> 'q trace" where
  "SystemdConn_Close tr = tr @ [DCloseConn, DCloseLogin1]"

definition IsConnected :: "'q dbus \<Rightarrow> 'q trace \<Rightarrow> bool" where
  "IsConnected D tr = (d_Connected D tr \<and> d_login1Connected D tr)"

definition ListUnitsByNames :: "'q dbus \<Rightarrow> string list \<Rightarrow> 'q trace \<Rightarrow> (goerr + UnitStatus list) \<times> 'q trace" where
  "ListUnitsByNames D units tr = ext (DListUnitsByNames units) (\<lambda>t. d_ListUnitsByNames D t units) tr"

definition GetUnitByName :: "'q dbus \<Rightarrow> string \<Rightarrow> 'q trace \<Rightarrow> (goerr + UnitStatus) \<times> 'q trace" where
  "GetUnitByName D unit tr =
     (case ListUnitsByNames D [unit] tr of
        (Inl err, tr) \<Rightarrow> (Inl err, tr)
      | (Inr [], tr) \<Rightarrow> (Inr zero_UnitStatus, tr)
      | (Inr (u # us), tr) \<Rightarrow> (Inr u, tr))"

definition StartUnit :: "'q dbus \<Rightarrow> string \<Rightarrow> 'q trace \<Rightarrow> (goerr + int) \<times> 'q trace" where
  "StartUnit D unit tr = ext (DStartUnit unit ''replace'') (\<lambda>t. d_StartUnit D t unit) tr"

definition ReloadUnit :: "'q dbus \<Rightarrow> string \<Rightarrow> 'q trace \<Rightarrow> (goerr + int) \<times> 'q trace" where
  "ReloadUnit D unit tr = ext (DReloadUnit unit ''replace'') (\<lambda>t. d_ReloadUnit D t unit) tr"

definition update_unit :: "string \<Rightarrow> string" where
  "update_unit version =
     (if version = ''latest'' then ''systemd-sysupdate.service''
      else ''systemd-sysupdate@'' @ version @ ''.service'')"

definition ReconcileSysUpdate ::
    "'q dbus \<Rightarrow> 'q Hypervisor \<Rightarrow> 'q trace \<Rightarrow> (bool \<times> goerr option) \<times> 'q trace" where
  "ReconcileSysUpdate D hv tr =
     (let version = spec_OperatingSystemVersion (hv_Spec hv) in
      if \<not> IsConnected D tr then ((False, Some (ErrorsNew ''not connected to systemd'')), tr)
      else (case GetUnitByName D (update_unit version) tr of
              (Inl err, tr) \<Rightarrow> ((False, Some err), tr)
            | (Inr status, tr) \<Rightarrow>
                if update_InProgress (hv_update hv) then
                  (if unit_ActiveState status = FAILED
                   then ((False, Some (Wrapped (version @ '' '') (Sentinel ErrUpdateFailed) [])), tr)
                   else if unit_ActiveState status = INACTIVE \<and> spec_Reboot (hv_Spec hv)
                   then (case StartUnit D ''systemd-sysupdate-reboot.target'' tr of
                           (Inl err, tr) \<Rightarrow> ((False, Some err), tr)
                         | (Inr n, tr) \<Rightarrow> ((unit_ActiveState status = ACTIVE, None), tr))
                   else ((unit_ActiveState status = ACTIVE, None), tr))
                else if unit_ActiveState status = ACTIVE then ((True, None), tr)
                else (case StartUnit D (update_unit version) tr of
                        (Inl err, tr) \<Rightarrow> ((False, Some err), tr)
                      | (Inr n, tr) \<Rightarrow> ((True, None), tr))))"

definition Describe ::
    "'q dbus \<Rightarrow> json_reader \<Rightarrow> 'q trace \<Rightarrow> (goerr + Descriptor) \<times> 'q trace" where
  "Describe D rd tr =
     (case ext DDescribe (d_Describe D) tr of
        (Inl err, tr) \<Rightarrow> (Inl (Wrapped ''failed to fetch hostname descriptor: '' err []), tr)
      | (Inr res, tr) \<Rightarrow>
          (case json_Unmarshal rd unmarshal_Descriptor zero_Descriptor res of
             Inl err \<Rightarrow> (Inl (Wrapped ''failed to unmarshal hostname descriptor: '' err []), tr)
           | Inr desc \<Rightarrow> (Inr desc, tr)))"

section \<open>The inhibitor as a state machine\<close>

text \<open>
  The steps of the goroutines that touch the inhibitor: the controller calls \<^verbatim>\<open>Enable\<close> or
  \<^verbatim>\<open>Disable\<close>, a watcher receives the shutdown signal or finds the channel of signals closed and ends, a watcher's callback
  returns and the watcher calls \<^verbatim>\<open>Disable\<close>, and a blocked sender meets a waiting watcher. What the callback itself does is
  irrelevant here. A file descriptor is not negative.
\<close>

definition fds_ok :: "'q dbus \<Rightarrow> bool" where
  "fds_ok D \<longleftrightarrow> (\<forall>t fd. d_Inhibit D t = Inr fd \<longrightarrow> 0 \<le> fd)"

inductive inhibit_step :: "'q dbus \<Rightarrow> SystemdConn \<times> 'q trace \<Rightarrow> SystemdConn \<times> 'q trace \<Rightarrow> bool" for D where
  Enable: "EnableShutdownInhibit D s tr = (r, s', tr') \<Longrightarrow> inhibit_step D (s, tr) (s', tr')"
| Disable: "DisableShutdownInhibit D s tr = (r, s', tr') \<Longrightarrow> inhibit_step D (s, tr) (s', tr')"
| Signal: "0 < sd_watching s \<Longrightarrow>
     inhibit_step D (s, tr) (s\<lparr>sd_watching := sd_watching s - 1, sd_running := sd_running s + 1\<rparr>, tr)"
| SignalClosed: "0 < sd_watching s \<Longrightarrow> inhibit_step D (s, tr) (s\<lparr>sd_watching := sd_watching s - 1\<rparr>, tr)"
| CallbackDone: "0 < sd_running s \<Longrightarrow>
     DisableShutdownInhibit D (s\<lparr>sd_running := sd_running s - 1\<rparr>) tr = (r, s', tr') \<Longrightarrow>
     inhibit_step D (s, tr) (s', tr')"
| Meet: "0 < sd_stuck s \<Longrightarrow> 0 < sd_watching s \<Longrightarrow>
     close_fd D (s\<lparr>sd_stuck := sd_stuck s - 1, sd_watching := sd_watching s - 1\<rparr>) tr = (r, s', tr') \<Longrightarrow>
     inhibit_step D (s, tr) (s', tr')"

abbreviation inhibit_steps :: "'q dbus \<Rightarrow> SystemdConn \<times> 'q trace \<Rightarrow> SystemdConn \<times> 'q trace \<Rightarrow> bool" where
  "inhibit_steps D \<equiv> (inhibit_step D)\<^sup>*\<^sup>*"

definition inhibit_inv :: "SystemdConn \<Rightarrow> bool" where
  "inhibit_inv s \<longleftrightarrow>
     (sd_fd s = - 1 \<longrightarrow> sd_watching s = 0 \<and> sd_running s = 0 \<and> sd_stuck s = 0) \<and>
     sd_watching s + sd_running s \<le> 1 \<and> (0 < sd_stuck s \<longrightarrow> sd_watching s = 0)"

lemma inhibit_inv_fresh: "inhibit_inv fresh_conn"
  by (simp add: inhibit_inv_def fresh_conn_def)

lemma fds_okD [simp]: "fds_ok D \<Longrightarrow> d_Inhibit D t \<noteq> Inr (- 1)"
  unfolding fds_ok_def by (metis neg_0_le_iff_le not_one_le_zero)

lemma Enable_inv:
  "fds_ok D \<Longrightarrow> inhibit_inv s \<Longrightarrow> EnableShutdownInhibit D s tr = (r, s', tr') \<Longrightarrow> inhibit_inv s'"
  by (auto simp: EnableShutdownInhibit_def inhibit_inv_def ext_def Let_def
      split: if_splits option.splits sum.splits)

lemma Disable_inv:
  assumes "inhibit_inv s" and "DisableShutdownInhibit D s tr = (r, s', tr')"
  shows "inhibit_inv s'"
  using assms
  by (auto simp: DisableShutdownInhibit_def close_fd_def inhibit_inv_def ext_def Let_def
      split: if_splits option.splits)

text \<open>When a callback returns, no watcher waits, so the send blocks.\<close>

lemma callback_blocks:
  assumes "inhibit_inv s" and "0 < sd_running s"
  shows "DisableShutdownInhibit D (s\<lparr>sd_running := sd_running s - 1\<rparr>) tr
       = (Blocked, s\<lparr>sd_running := sd_running s - 1, sd_subscribed := False, sd_stuck := sd_stuck s + 1\<rparr>,
          tr @ [DRemoveSignal])"
  using assms by (auto simp: DisableShutdownInhibit_def inhibit_inv_def ext_def Let_def)

lemma inhibit_step_inv:
  assumes "fds_ok D" and "inhibit_step D (s, tr) (s', tr')" and "inhibit_inv s"
  shows "inhibit_inv s'"
  using assms(2)
proof (cases rule: inhibit_step.cases)
  case (Enable r)
  then show ?thesis by (rule Enable_inv [OF assms(1,3)])
next
  case (Disable r)
  then show ?thesis by (rule Disable_inv [OF assms(3)])
next
  case (CallbackDone r)
  then have "s' = s\<lparr>sd_running := sd_running s - 1, sd_subscribed := False, sd_stuck := sd_stuck s + 1\<rparr>"
    using callback_blocks [OF assms(3), of D tr] by simp
  with CallbackDone(1) assms(3) show ?thesis by (auto simp: inhibit_inv_def)
qed (use assms(3) in \<open>auto simp: inhibit_inv_def\<close>)

lemma inhibit_steps_inv:
  assumes "fds_ok D" and "inhibit_steps D (s, tr) (s', tr')" and "inhibit_inv s"
  shows "inhibit_inv s'"
  using assms(2) assms(1,3)
  by (induction "(s', tr')" arbitrary: s' tr' rule: rtranclp_induct) (auto intro: inhibit_step_inv)

text \<open>
  Once the lock is held and no watcher waits, nothing can release it: every call to enable fails,
  every call to disable blocks.
\<close>

definition abandoned :: "SystemdConn \<Rightarrow> bool" where
  "abandoned s \<longleftrightarrow> sd_fd s \<noteq> - 1 \<and> sd_watching s = 0"

fun closes_fd :: "'q ext_call \<Rightarrow> bool" where
  "closes_fd (DCloseFd fd) = True"
| "closes_fd c = False"

lemma abandoned_step:
  assumes "inhibit_step D (s, tr) (s', tr')" and "abandoned s"
  shows "abandoned s' \<and> sd_fd s' = sd_fd s \<and> extends_by (\<lambda>c. \<not> closes_fd c) tr tr'"
  using assms(1)
proof (cases rule: inhibit_step.cases)
  case (Enable r)
  then show ?thesis using assms(2) by (auto simp: EnableShutdownInhibit_def abandoned_def)
next
  case (Disable r)
  then show ?thesis using assms(2) by (auto simp: DisableShutdownInhibit_def abandoned_def ext_def Let_def)
next
  case (CallbackDone r)
  then show ?thesis using assms(2) by (auto simp: DisableShutdownInhibit_def abandoned_def ext_def Let_def)
qed (use assms(2) in \<open>simp_all add: abandoned_def\<close>)

lemma abandoned_steps:
  assumes "inhibit_steps D (s, tr) (s', tr')" and "abandoned s"
  shows "abandoned s' \<and> sd_fd s' = sd_fd s \<and> extends_by (\<lambda>c. \<not> closes_fd c) tr tr'"
  using assms
proof (induction "(s', tr')" arbitrary: s' tr' rule: rtranclp_induct)
  case (step y)
  obtain s1 tr1 where y: "y = (s1, tr1)" by (cases y)
  from step.hyps(3) [OF y assms(2)] abandoned_step [OF step.hyps(2) [unfolded y]]
  show ?case by (auto intro: extends_by_trans)
qed simp

lemma abandoned_calls:
  assumes "abandoned s"
  shows "EnableShutdownInhibit D s tr = (Some (ErrorsNew ''shutdown inhibition already enabled''), s, tr)
    \<and> fst (DisableShutdownInhibit D s tr) = Blocked"
  using assms by (simp add: abandoned_def EnableShutdownInhibit_def DisableShutdownInhibit_def Let_def)

lemma update_unit_not_reboot: "update_unit v \<noteq> ''systemd-sysupdate-reboot.target''"
  by (simp add: update_unit_def)

section \<open>Properties\<close>

text \<open>
  C18. From a connection without the inhibitor, when systemd accepts every call, enabling takes the
  lock and starts one watcher, and disabling afterwards stops the watcher, closes exactly the
  descriptor that was obtained and restores the connection.
\<close>

theorem inhibit_roundtrip:
  assumes "sd_fd s = - 1" and "\<And>t. d_ListInhibitors D t = None" and "\<And>t. d_Inhibit D t = Inr fd" and "0 \<le> fd"
    and "\<And>t. d_AddMatchSignal D t = None" and "\<And>t. d_CloseFd D t fd = None"
  shows "\<exists>s1 tr1. EnableShutdownInhibit D s tr = (None, s1, tr1)
     \<and> sd_fd s1 = fd \<and> sd_watching s1 = sd_watching s + 1 \<and> sd_subscribed s1
     \<and> DisableShutdownInhibit D s1 tr1 = (Ret None, s\<lparr>sd_subscribed := False\<rparr>, tr1 @ [DRemoveSignal, DCloseFd fd])"
  using assms by (auto simp: EnableShutdownInhibit_def DisableShutdownInhibit_def close_fd_def ext_def Let_def)

theorem inhibit_roundtrip_witness:
  "\<exists>s1 tr1. EnableShutdownInhibit (idle_dbus :: unit dbus) fresh_conn [] = (None, s1, tr1) \<and> sd_fd s1 = 7
     \<and> DisableShutdownInhibit idle_dbus s1 tr1 = (Ret None, fresh_conn, tr1 @ [DRemoveSignal, DCloseFd 7])"
  using inhibit_roundtrip [of fresh_conn "idle_dbus :: unit dbus" 7 "[]"]
  by (auto simp: fresh_conn_def idle_dbus_def)

text \<open>
  C6. Shutdown deadlock: once a watcher has received the shutdown signal, the inhibitor lock
  is never released, whatever the controller and the other side do. The watcher, after its callback,
  calls \<^verbatim>\<open>DisableShutdownInhibit\<close>, whose send on \<^verbatim>\<open>shutdownCh\<close> waits for a receiver, and the only
  receiver is the watcher itself: it blocks, the descriptor is never closed, every later attempt to
  disable blocks too and every attempt to enable fails.
\<close>

theorem shutdown_never_released:
  assumes "fds_ok D" and "inhibit_steps D (fresh_conn, tr0) (s, tr)" and "0 < sd_watching s"
    and "inhibit_steps D (s\<lparr>sd_watching := sd_watching s - 1, sd_running := sd_running s + 1\<rparr>, tr) (s', tr')"
  shows "sd_fd s' = sd_fd s \<and> sd_fd s' \<noteq> - 1 \<and> extends_by (\<lambda>c. \<not> closes_fd c) tr tr'
    \<and> fst (DisableShutdownInhibit D s' tr') = Blocked
    \<and> (0 < sd_running s' \<longrightarrow> fst (DisableShutdownInhibit D (s'\<lparr>sd_running := sd_running s' - 1\<rparr>) tr') = Blocked)
    \<and> (\<exists>err. EnableShutdownInhibit D s' tr' = (Some err, s', tr'))"
proof -
  have inv: "inhibit_inv s" by (rule inhibit_steps_inv [OF assms(1,2) inhibit_inv_fresh])
  then have "abandoned (s\<lparr>sd_watching := sd_watching s - 1, sd_running := sd_running s + 1\<rparr>)"
    using assms(3) by (auto simp: inhibit_inv_def abandoned_def)
  from abandoned_steps [OF assms(4) this]
  have ab: "abandoned s'" and "sd_fd s' = sd_fd s" "extends_by (\<lambda>c. \<not> closes_fd c) tr tr'" by simp_all
  moreover have "abandoned (s'\<lparr>sd_running := sd_running s' - 1\<rparr>)" using ab by (simp add: abandoned_def)
  moreover have "sd_fd s' \<noteq> - 1" using ab by (simp add: abandoned_def)
  ultimately show ?thesis using abandoned_calls [of s' D tr'] abandoned_calls [of _ D tr'] by blast
qed

definition held_conn :: SystemdConn where
  "held_conn = \<lparr>sd_fd = 7, sd_watching = 1, sd_running = 0, sd_stuck = 0, sd_subscribed = True\<rparr>"

theorem shutdown_never_released_witness:
  "inhibit_steps (idle_dbus :: unit dbus) (fresh_conn, []) (held_conn, snd (snd (EnableShutdownInhibit idle_dbus fresh_conn [])))
   \<and> fst (DisableShutdownInhibit (idle_dbus :: unit dbus) (held_conn\<lparr>sd_watching := 0, sd_running := 1\<rparr>)
        (snd (snd (EnableShutdownInhibit idle_dbus fresh_conn [])))) = Blocked"
proof -
  have ok: "fds_ok (idle_dbus :: unit dbus)" by (simp add: fds_ok_def idle_dbus_def)
  let ?tr = "snd (snd (EnableShutdownInhibit (idle_dbus :: unit dbus) fresh_conn []))"
  have "EnableShutdownInhibit (idle_dbus :: unit dbus) fresh_conn [] = (None, held_conn, ?tr)"
    by (simp add: EnableShutdownInhibit_def fresh_conn_def held_conn_def idle_dbus_def ext_def)
  then have reach: "inhibit_steps (idle_dbus :: unit dbus) (fresh_conn, []) (held_conn, ?tr)"
    by (intro r_into_rtranclp) (rule inhibit_step.Enable)
  show ?thesis
    using shutdown_never_released [OF ok reach, of "held_conn\<lparr>sd_watching := 0, sd_running := 1\<rparr>" ?tr] reach
    by (simp add: held_conn_def)
qed

text \<open>
  C27. \<^verbatim>\<open>ReconcileSysUpdate\<close> starts at most one unit. It starts the reboot target only while an
  update is recorded as in progress, its unit is inactive and the spec asks for a reboot; it
  starts the update unit only when no update is recorded as in progress and the unit is not active.
\<close>

theorem ReconcileSysUpdate_starts:
  assumes "ReconcileSysUpdate D hv tr = (r, tr')"
  shows "\<exists>cs. tr' = tr @ cs \<and> length (filter (\<lambda>c. \<exists>u m. c = DStartUnit u m) cs) \<le> 1 \<and>
     (\<forall>u m. DStartUnit u m \<in> set cs \<longrightarrow>
        (\<exists>st. fst (GetUnitByName D (update_unit (spec_OperatingSystemVersion (hv_Spec hv))) tr) = Inr st \<and>
           (u = ''systemd-sysupdate-reboot.target'' \<and> update_InProgress (hv_update hv) \<and> spec_Reboot (hv_Spec hv)
              \<and> unit_ActiveState st = INACTIVE
            \<or> u = update_unit (spec_OperatingSystemVersion (hv_Spec hv)) \<and> \<not> update_InProgress (hv_update hv)
              \<and> unit_ActiveState st \<noteq> ACTIVE)))"
  using assms
  by (auto simp: ReconcileSysUpdate_def GetUnitByName_def ListUnitsByNames_def StartUnit_def ext_def Let_def
      split: if_splits sum.splits list.splits)

definition rebooting_hv :: "unit Hypervisor" where
  "rebooting_hv = (sample_hv ())\<lparr>hv_Spec := sample_spec\<lparr>spec_OperatingSystemVersion := ''2'', spec_Reboot := True\<rparr>,
     hv_Status := (sample_status ())\<lparr>status_Update := \<lparr>update_InProgress = True, update_Installed = [], update_Retry = 3\<rparr>\<rparr>\<rparr>"

definition one_unit_dbus :: "string \<Rightarrow> 'q dbus" where
  "one_unit_dbus state = idle_dbus\<lparr>d_ListUnitsByNames := \<lambda>t us.
     Inr [\<lparr>unit_Name = concat us, unit_LoadState = ''loaded'', unit_ActiveState = state\<rparr>]\<rparr>"

theorem ReconcileSysUpdate_starts_witness:
  "\<exists>r tr'. ReconcileSysUpdate (one_unit_dbus INACTIVE) rebooting_hv [] = (r, tr')
     \<and> DStartUnit ''systemd-sysupdate-reboot.target'' ''replace'' \<in> set tr'
     \<and> length (filter (\<lambda>c. \<exists>u m. c = DStartUnit u m) tr') \<le> 1"
proof -
  obtain r tr' where eq: "ReconcileSysUpdate (one_unit_dbus INACTIVE) rebooting_hv [] = (r, tr')" by fastforce
  then have "DStartUnit ''systemd-sysupdate-reboot.target'' ''replace'' \<in> set tr'"
    by (auto simp: ReconcileSysUpdate_def GetUnitByName_def ListUnitsByNames_def StartUnit_def ext_def Let_def
        one_unit_dbus_def idle_dbus_def rebooting_hv_def IsConnected_def INACTIVE_def FAILED_def)
  with eq ReconcileSysUpdate_starts [OF eq] show ?thesis by auto
qed

end
