(* ===== verification/XmlDecode.thy ===== *)
theory XmlDecode
  imports Strconv
begin

text \<open>
  \<^verbatim>\<open>xml.Unmarshal\<close> of the standard library, as far as the three schemas use it: decoding an element
  into a value by the tags of its struct. The input is the tree of elements the tokenizer of
  \<^verbatim>\<open>encoding/xml\<close> delivers (names with their name space resolved, comments and processing
  instructions left out). A struct is the list of its fields; a field says which attribute, child
  element or text it takes, and how the value is stored. Elements and attributes no field asks for
  are skipped, a slice grows by one element per match, a pointer is allocated at the first
  match, and a struct or pointer matched twice is decoded twice into the same value.
\<close>

section \<open>Documents\<close>

text \<open>A name is a name space and a local name.\<close>

type_synonym xml_name = "string \<times> string"

datatype xml = Element xml_name "(xml_name \<times> string) list" "xml list" | CharData string

text \<open>The text of an element: its own character data, without that of its children.\<close>

fun char_data :: "xml list \<Rightarrow> string" where
  "char_data [] = []"
| "char_data (CharData s # xs) = s @ char_data xs"
| "char_data (Element n as cs # xs) = char_data xs"

section \<open>Values\<close>

text \<open>\<^verbatim>\<open>copyValue\<close> for the three kinds of scalars of the schemas.\<close>

definition copy_string :: "string \<Rightarrow> goerr + string" where
  "copy_string s = Inr s"

definition copy_int :: "string \<Rightarrow> goerr + int64" where
  "copy_int s =
     (if s = [] then Inr 0
      else case ParseInt (TrimSpace s) of
             Inl e \<Rightarrow> Inl (NumError ''ParseInt'' (TrimSpace s) e)
           | Inr i \<Rightarrow> Inr (word_of_int i))"

definition copy_uint :: "string \<Rightarrow> goerr + uint64" where
  "copy_uint s =
     (if s = [] then Inr 0
      else case ParseUint (TrimSpace s) of
             Inl e \<Rightarrow> Inl (NumError ''ParseUint'' (TrimSpace s) e)
           | Inr n \<Rightarrow> Inr (word_of_nat n))"

text \<open>Decoding an element into a value of a type: the element and the present value.\<close>

type_synonym 'a decoder = "xml \<Rightarrow> 'a \<Rightarrow> goerr + 'a"

fun scalar :: "(string \<Rightarrow> goerr + 'a) \<Rightarrow> 'a decoder" where
  "scalar copy (Element n as cs) a = copy (char_data cs)"
| "scalar copy (CharData s) a = Inr a"

definition pointer :: "'a \<Rightarrow> 'a decoder \<Rightarrow> 'a option decoder" where
  "pointer zero d x p = and_then (d x (case p of None \<Rightarrow> zero | Some a \<Rightarrow> a)) (\<lambda>a. Inr (Some a))"

definition slice :: "'a \<Rightarrow> 'a decoder \<Rightarrow> 'a list decoder" where
  "slice zero d x as = and_then (d x zero) (\<lambda>a. Inr (as @ [a]))"

section \<open>Fields\<close>

text \<open>
  The tags: \<^verbatim>\<open>,attr\<close>, an element with the name space it must have (empty: any), \<^verbatim>\<open>,any\<close>,
  \<^verbatim>\<open>,chardata\<close>, and the field \<^verbatim>\<open>XMLName\<close> with the name it asks for (empty: any).
\<close>

datatype 'a field =
    AttrField string "string \<Rightarrow> 'a \<Rightarrow> goerr + 'a"
  | ElementField string string "'a decoder"
  | AnyField "'a decoder"
  | CharDataField "string \<Rightarrow> 'a \<Rightarrow> goerr + 'a"
  | NameField string string "xml_name \<Rightarrow> 'a \<Rightarrow> 'a"

definition store :: "(('f \<Rightarrow> 'f) \<Rightarrow> 'a \<Rightarrow> 'a) \<Rightarrow> (string \<Rightarrow> goerr + 'f) \<Rightarrow> string \<Rightarrow> 'a \<Rightarrow> goerr + 'a" where
  "store upd copy s a = and_then (copy s) (\<lambda>f. Inr (upd (\<lambda>_. f) a))"

definition inside :: "('a \<Rightarrow> 'f) \<Rightarrow> (('f \<Rightarrow> 'f) \<Rightarrow> 'a \<Rightarrow> 'a) \<Rightarrow> 'f decoder \<Rightarrow> 'a decoder" where
  "inside get upd d x a = and_then (d x (get a)) (\<lambda>f. Inr (upd (\<lambda>_. f) a))"

text \<open>A field without a name space of its own in the tag takes the elements of every name space.\<close>

abbreviation elem :: "string \<Rightarrow> ('a \<Rightarrow> 'f) \<Rightarrow> (('f \<Rightarrow> 'f) \<Rightarrow> 'a \<Rightarrow> 'a) \<Rightarrow> 'f decoder \<Rightarrow> 'a field" where
  "elem n get upd d \<equiv> ElementField [] n (inside get upd d)"

abbreviation attr :: "string \<Rightarrow> (('f \<Rightarrow> 'f) \<Rightarrow> 'a \<Rightarrow> 'a) \<Rightarrow> (string \<Rightarrow> goerr + 'f) \<Rightarrow> 'a field" where
  "attr n upd copy \<equiv> AttrField n (store upd copy)"

section \<open>Structs\<close>

text \<open>The check of \<^verbatim>\<open>XMLName\<close>, which also records the name.\<close>

fun start_name :: "'a field list \<Rightarrow> xml_name \<Rightarrow> 'a \<Rightarrow> goerr + 'a" where
  "start_name [] n a = Inr a"
| "start_name (NameField ns l keep # fs) n a =
     (if l \<noteq> [] \<and> l \<noteq> snd n
      then Inl (ErrorsNew (''expected element type <'' @ l @ ''> but have <'' @ snd n @ ''>''))
      else if ns \<noteq> [] \<and> ns \<noteq> fst n
      then Inl (ErrorsNew (''expected element <'' @ l @ ''> in name space '' @ ns @ '' but have ''
                  @ (if fst n = [] then ''no name space'' else fst n)))
      else Inr (keep n a))"
| "start_name (f # fs) n a = start_name fs n a"

text \<open>Every field that asks for an attribute of this local name takes its value.\<close>

fun set_attr :: "xml_name \<times> string \<Rightarrow> 'a field \<Rightarrow> 'a \<Rightarrow> goerr + 'a" where
  "set_attr (n, s) (AttrField l put) a = (if snd n = l then put s a else Inr a)"
| "set_attr ns f a = Inr a"

definition set_attrs :: "'a field list \<Rightarrow> (xml_name \<times> string) list \<Rightarrow> 'a \<Rightarrow> goerr + 'a" where
  "set_attrs fs = fold_res (\<lambda>at. fold_res (set_attr at) fs)"

text \<open>\<^verbatim>\<open>unmarshalPath\<close>: the first field with the name of the child, otherwise the \<^verbatim>\<open>,any\<close> field.\<close>

fun any_field :: "'a field list \<Rightarrow> 'a decoder option" where
  "any_field [] = None"
| "any_field (AnyField d # fs) = Some d"
| "any_field (f # fs) = any_field fs"

fun child_field :: "'a field list \<Rightarrow> xml_name \<Rightarrow> 'a decoder option" where
  "child_field [] n = None"
| "child_field (ElementField ns l d # fs) n =
     (if (ns = [] \<or> ns = fst n) \<and> l = snd n then Some d else child_field fs n)"
| "child_field (f # fs) n = child_field fs n"

definition field_of :: "'a field list \<Rightarrow> xml_name \<Rightarrow> 'a decoder option" where
  "field_of fs n = (case child_field fs n of Some d \<Rightarrow> Some d | None \<Rightarrow> any_field fs)"

fun set_child :: "'a field list \<Rightarrow> xml \<Rightarrow> 'a \<Rightarrow> goerr + 'a" where
  "set_child fs (CharData s) a = Inr a"
| "set_child fs (Element n as cs) a =
     (case field_of fs n of None \<Rightarrow> Inr a | Some d \<Rightarrow> d (Element n as cs) a)"

text \<open>The text is stored when the end of the element is reached.\<close>

fun set_text :: "'a field list \<Rightarrow> string \<Rightarrow> 'a \<Rightarrow> goerr + 'a" where
  "set_text [] s a = Inr a"
| "set_text (CharDataField put # fs) s a = put s a"
| "set_text (f # fs) s a = set_text fs s a"

fun unmarshal_struct :: "'a field list \<Rightarrow> 'a decoder" where
  "unmarshal_struct fs (CharData s) a = Inr a"
| "unmarshal_struct fs (Element n as cs) a =
     and_then (start_name fs n a) (\<lambda>a.
     and_then (set_attrs fs as a) (\<lambda>a.
     and_then (fold_res (set_child fs) cs a) (\<lambda>a.
     set_text fs (char_data cs) a)))"

text \<open>
  \<^verbatim>\<open>xml.Unmarshal(data, &v)\<close> for a fresh \<^verbatim>\<open>v\<close>: the tokenizer is an argument. The name of the root
  element is not checked, unless its struct has an \<^verbatim>\<open>XMLName\<close>.
\<close>

type_synonym xml_reader = "string \<Rightarrow> goerr + xml"

definition xml_Unmarshal :: "xml_reader \<Rightarrow> 'a decoder \<Rightarrow> 'a \<Rightarrow> string \<Rightarrow> goerr + 'a" where
  "xml_Unmarshal rd d zero data = and_then (rd data) (\<lambda>x. d x zero)"

section \<open>Scalars come back\<close>

lemma copy_string_id [simp]: "copy_string s = Inr s"
  by (simp add: copy_string_def)

lemma copy_int_dec_int [simp]: "copy_int (dec_int (sint w)) = Inr w"
  by (simp add: copy_int_def ParseInt_dec_int sint_int64_range)

lemma copy_uint_dec [simp]: "copy_uint (dec (unat w)) = Inr w"
proof -
  have "unat w < 2 ^ 64" for w :: uint64 using unsigned_less [of w] by simp
  then show ?thesis by (simp add: copy_uint_def ParseUint_dec)
qed

section \<open>What is skipped\<close>

text \<open>A child no field asks for, and an attribute no field asks for.\<close>

definition known_child :: "'a field list \<Rightarrow> xml \<Rightarrow> bool" where
  "known_child fs x = (case x of CharData s \<Rightarrow> True | Element n as cs \<Rightarrow> field_of fs n \<noteq> None)"

fun known_attr :: "'a field list \<Rightarrow> string \<Rightarrow> bool" where
  "known_attr [] l = False"
| "known_attr (AttrField l' put # fs) l = (l = l' \<or> known_attr fs l)"
| "known_attr (f # fs) l = known_attr fs l"

lemma set_child_unknown: "\<not> known_child fs x \<Longrightarrow> set_child fs x a = Inr a"
  by (cases x) (auto simp: known_child_def)

lemma set_attr_unknown: "\<not> known_attr fs (snd (fst at)) \<Longrightarrow> fold_res (set_attr at) fs a = Inr a"
  by (induction fs "snd (fst at)" arbitrary: a rule: known_attr.induct) (cases at; simp)+

lemma char_data_known: "char_data (filter (known_child fs) cs) = char_data cs"
  by (induction cs rule: char_data.induct) (auto simp: known_child_def)

text \<open>Decoding depends only on the attributes and children that some field asks for.\<close>

lemma unmarshal_struct_known:
  "unmarshal_struct fs (Element n (filter (\<lambda>at. known_attr fs (snd (fst at))) as) (filter (known_child fs) cs)) a =
   unmarshal_struct fs (Element n as cs) a"
  by (simp add: char_data_known set_attrs_def fold_res_filter set_attr_unknown set_child_unknown)

section \<open>Parts of a rendering\<close>

text \<open>
  The steps of the round trips below: children that stand for a pointer, for a slice, for a scalar
  or a struct are stored in their field.
\<close>

definition opt_elem :: "('f \<Rightarrow> xml) \<Rightarrow> 'f option \<Rightarrow> xml list" where
  "opt_elem r p = (case p of None \<Rightarrow> [] | Some f \<Rightarrow> [r f])"

definition text_elem :: "xml_name \<Rightarrow> string \<Rightarrow> xml" where
  "text_elem n s = Element n [] [CharData s]"

text \<open>
  A rendering of the values in \<open>P\<close> as elements with a name in \<open>N\<close> that a decoder takes back.
\<close>

definition renders :: "('f \<Rightarrow> bool) \<Rightarrow> xml_name set \<Rightarrow> ('f \<Rightarrow> xml) \<Rightarrow> 'f \<Rightarrow> 'f decoder \<Rightarrow> bool" where
  "renders P N r zero d \<longleftrightarrow> (\<forall>f. P f \<longrightarrow> (\<exists>n\<in>N. \<exists>as cs. r f = Element n as cs) \<and> d (r f) zero = Inr f)"

lemma trivially_all [simp]: "list_all (\<lambda>_. True) xs" "pred_option (\<lambda>_. True) p"
  by (simp_all add: list_all_iff pred_option_def)

lemma rendersE:
  assumes "renders P N r zero d" "P f"
  obtains n as cs where "n \<in> N" "r f = Element n as cs" "d (Element n as cs) zero = Inr f"
  using assms unfolding renders_def by metis

lemma rendersD: "renders P N r zero d \<Longrightarrow> P f \<Longrightarrow> d (r f) zero = Inr f"
  by (simp add: renders_def)

lemma set_children_pointer:
  assumes "renders P {n} r zero d" "field_of fs n = Some (inside get upd (pointer zero d))"
    and "pred_option P p" "get a = None" "upd (\<lambda>_. None) a = a"
  shows "fold_res (set_child fs) (opt_elem r p) a = Inr (upd (\<lambda>_. p) a)"
proof (cases p)
  case None
  then show ?thesis using assms(5) by (simp add: opt_elem_def)
next
  case (Some f)
  then have "P f" using assms(3) by simp
  with assms(1) obtain m as cs where "m \<in> {n}" "r f = Element m as cs" "d (Element m as cs) zero = Inr f"
    by (rule rendersE)
  then show ?thesis using Some assms(2,4) by (simp add: opt_elem_def inside_def pointer_def)
qed

lemma set_children_any:
  assumes "renders P N r zero d" "\<And>n. n \<in> N \<Longrightarrow> field_of fs n = Some (inside get upd (slice zero d))"
    and "list_all P xs" "upd (\<lambda>_. get a) a = a" "\<And>x a. get (upd (\<lambda>_. x) a) = x"
    and "\<And>x y a. upd (\<lambda>_. y) (upd (\<lambda>_. x) a) = upd (\<lambda>_. y) a"
  shows "fold_res (set_child fs) (map r xs) a = Inr (upd (\<lambda>_. get a @ xs) a)"
  using assms(3,4)
proof (induction xs arbitrary: a)
  case (Cons f xs)
  then have "P f" by simp
  with assms(1) obtain n as cs where "n \<in> N" "r f = Element n as cs" "d (Element n as cs) zero = Inr f"
    by (rule rendersE)
  then show ?case using Cons assms(2,5,6) by (simp add: inside_def slice_def)
qed simp

lemma set_children_slice:
  assumes "renders P {n} r zero d" "field_of fs n = Some (inside get upd (slice zero d))"
    and "list_all P xs" "upd (\<lambda>_. get a) a = a" "\<And>x a. get (upd (\<lambda>_. x) a) = x"
    and "\<And>x y a. upd (\<lambda>_. y) (upd (\<lambda>_. x) a) = upd (\<lambda>_. y) a"
  shows "fold_res (set_child fs) (map r xs) a = Inr (upd (\<lambda>_. get a @ xs) a)"
  by (rule set_children_any [OF assms(1)]) (use assms in auto)

lemma set_child_struct:
  assumes "renders P {n} r zero d" "field_of fs n = Some (inside get upd d)" "P f" "get a = zero"
  shows "set_child fs (r f) a = Inr (upd (\<lambda>_. f) a)"
proof -
  from assms(1,3) obtain m as cs where "m \<in> {n}" "r f = Element m as cs" "d (Element m as cs) zero = Inr f"
    by (rule rendersE)
  then show ?thesis using assms(2,4) by (simp add: inside_def)
qed

lemma set_child_text:
  "field_of fs n = Some (inside get upd (scalar copy)) \<Longrightarrow>
   set_child fs (text_elem n s) a = and_then (copy s) (\<lambda>f. Inr (upd (\<lambda>_. f) a))"
  by (simp add: text_elem_def inside_def)

lemma renders_text: "renders (\<lambda>_. True) {n} (text_elem n) z (scalar copy_string)"
  by (simp add: renders_def text_elem_def)

lemmas decode_simps =
  set_attrs_def field_of_def fold_res_append store_def set_child_text

end
