(* ===== verification/Schema.thy ===== *)
theory Schema
  imports Prelude
begin

text \<open>
  The data the agent reads from libvirt, one record per Go struct:
  \<^verbatim>\<open>internal/libvirt/capabilities/schema.go\<close>, \<^verbatim>\<open>internal/libvirt/domcapabilities/schema.go\<close>
  and \<^verbatim>\<open>internal/libvirt/dominfo/schema.go\<close>. A pointer field is an option (\<open>None\<close> is
  \<^verbatim>\<open>nil\<close>). Go's \<^verbatim>\<open>int\<close> is 64 bits wide on the agent's platforms. Field names carry the
  struct's short name in front, since record fields of the logic are global.
\<close>

section \<open>Host capabilities\<close>

record CapabilitiesHostCPU =
  hostcpu_Arch :: string

record CapabilitiesHostIOMMU =
  iommu_Support :: string

record CapabilitiesHostTopologyCellMemory =
  cellmem_Unit :: string
  cellmem_Value :: int64

record CapabilitiesHostTopologyCellPages =
  pages_Unit :: string
  pages_Size :: int64
  pages_Value :: uint64

record CapabilitiesHostTopologyCellSibling =
  sibling_ID :: int64
  sibling_Value :: int64

record CapabilitiesHostTopologyCellDistances =
  distances_Siblings :: "CapabilitiesHostTopologyCellSibling list"

record CapabilitiesHostTopologyCellCPU =
  ccpu_ID :: int64
  ccpu_SocketID :: int64
  ccpu_DieID :: int64
  ccpu_ClusterID :: int64
  ccpu_CoreID :: int64
  ccpu_Siblings :: string

record CapabilitiesHostTopologyCellCPUs =
  cellcpus_Num :: int64
  cellcpus_CPUs :: "CapabilitiesHostTopologyCellCPU list"

record CapabilitiesHostTopologyCell =
  topocell_ID :: uint64
  topocell_Memory :: CapabilitiesHostTopologyCellMemory
  topocell_Pages :: "CapabilitiesHostTopologyCellPages list"
  topocell_Distances :: CapabilitiesHostTopologyCellDistances
  topocell_CPUs :: CapabilitiesHostTopologyCellCPUs

record CapabilitiesHostTopologyCells =
  cells_Num :: int64
  cells_Cells :: "CapabilitiesHostTopologyCell list"

record CapabilitiesHostTopologyLatency =
  latency_Initiator :: int64
  latency_Target :: int64
  latency_Type :: string
  latency_Value :: int64

record CapabilitiesHostTopologyBandwidth =
  bandwidth_Initiator :: int64
  bandwidth_Target :: int64
  bandwidth_Type :: string
  bandwidth_Value :: uint64
  bandwidth_Unit :: string

record CapabilitiesHostTopologyInterconnects =
  interconnects_Latencies :: "CapabilitiesHostTopologyLatency list"
  interconnects_Bandwidths :: "CapabilitiesHostTopologyBandwidth list"

record CapabilitiesHostTopology =
  topology_CellSpec :: CapabilitiesHostTopologyCells
  topology_Interconnects :: CapabilitiesHostTopologyInterconnects

record CapabilitiesHostCacheBank =
  bank_ID :: int64
  bank_Level :: int64
  bank_Type :: string
  bank_Size :: int64
  bank_Unit :: string
  bank_CPUs :: string

record CapabilitiesHostCache =
  cache_Banks :: "CapabilitiesHostCacheBank list"

record CapabilitiesHost =
  host_CPU :: CapabilitiesHostCPU
  host_IOMMU :: CapabilitiesHostIOMMU
  host_Topology :: CapabilitiesHostTopology
  host_Cache :: CapabilitiesHostCache

record CapabilitiesGuestArchDomain =
  garchdom_Type :: string

record CapabilitiesGuestArch =
  garch_Name :: string
  garch_WordSize :: int64
  garch_Domain :: CapabilitiesGuestArchDomain

record CapabilitiesGuest =
  guest_OSType :: string
  guest_Arch :: CapabilitiesGuestArch

record Capabilities =
  caps_Host :: CapabilitiesHost
  caps_Guest :: CapabilitiesGuest

text \<open>The NUMA cells, \<^verbatim>\<open>caps.Host.Topology.CellSpec.Cells\<close>.\<close>

abbreviation caps_cells :: "Capabilities \<Rightarrow> CapabilitiesHostTopologyCell list" where
  "caps_cells caps \<equiv> cells_Cells (topology_CellSpec (host_Topology (caps_Host caps)))"

section \<open>Domain capabilities\<close>

record DomainCapabilitiesEnum =
  enum_Name :: string
  enum_Values :: "string list"

record DomainCapabilitiesOSLoader =
  loader_Supported :: string
  loader_Enums :: "DomainCapabilitiesEnum list"

record DomainCapabilitiesOS =
  dcos_Supported :: string
  dcos_Loader :: DomainCapabilitiesOSLoader

record DomainCapabilitiesCPUMode =
  mode_Name :: string
  mode_Supported :: string
  mode_Enums :: "DomainCapabilitiesEnum list"

record DomainCapabilitiesCPU =
  dccpu_Modes :: "DomainCapabilitiesCPUMode list"

text \<open>\<^verbatim>\<open>XMLName.Local\<close> is the name of the element the struct was read from.\<close>

record DomainCapabilitiesDevice =
  device_XMLName :: string
  device_Supported :: string
  device_Enums :: "DomainCapabilitiesEnum list"

record DomainCapabilitiesDevices =
  devices_Devices :: "DomainCapabilitiesDevice list"

record DomainCapabilitiesFeature =
  feature_XMLName :: string
  feature_Supported :: string

record DomainCapabilitiesFeatures =
  features_Features :: "DomainCapabilitiesFeature list"

record DomainCapabilities =
  dcaps_Domain :: string
  dcaps_Arch :: string
  dcaps_OS :: DomainCapabilitiesOS
  dcaps_CPU :: DomainCapabilitiesCPU
  dcaps_Devices :: DomainCapabilitiesDevices
  dcaps_Features :: DomainCapabilitiesFeatures

end
