(* ===== verification/CapsDecode.thy ===== *)
theory CapsDecode
  imports XmlDecode Schema
begin

text \<open>
  The tags of \<^verbatim>\<open>capabilities/schema.go\<close> and \<^verbatim>\<open>domcapabilities/schema.go\<close>: for every struct its zero
  value, its fields and the decoder they give.
\<close>

section \<open>Decoding\<close>

definition zero_CapabilitiesHostCPU :: CapabilitiesHostCPU where
  "zero_CapabilitiesHostCPU = \<lparr>hostcpu_Arch = []\<rparr>"

definition fields_CapabilitiesHostCPU :: "CapabilitiesHostCPU field list" where
  "fields_CapabilitiesHostCPU =
     [elem ''arch'' hostcpu_Arch hostcpu_Arch_update (scalar copy_string)]"

definition unmarshal_CapabilitiesHostCPU :: "CapabilitiesHostCPU decoder" where
  "unmarshal_CapabilitiesHostCPU = unmarshal_struct fields_CapabilitiesHostCPU"

definition zero_CapabilitiesHostIOMMU :: CapabilitiesHostIOMMU where
  "zero_CapabilitiesHostIOMMU = \<lparr>iommu_Support = []\<rparr>"

definition fields_CapabilitiesHostIOMMU :: "CapabilitiesHostIOMMU field list" where
  "fields_CapabilitiesHostIOMMU =
     [attr ''support'' iommu_Support_update copy_string]"

definition unmarshal_CapabilitiesHostIOMMU :: "CapabilitiesHostIOMMU decoder" where
  "unmarshal_CapabilitiesHostIOMMU = unmarshal_struct fields_CapabilitiesHostIOMMU"

definition zero_CapabilitiesHostTopologyCellMemory :: CapabilitiesHostTopologyCellMemory where
  "zero_CapabilitiesHostTopologyCellMemory = \<lparr>cellmem_Unit = [], cellmem_Value = 0\<rparr>"

definition fields_CapabilitiesHostTopologyCellMemory :: "CapabilitiesHostTopologyCellMemory field list" where
  "fields_CapabilitiesHostTopologyCellMemory =
     [attr ''unit'' cellmem_Unit_update copy_string, CharDataField (store cellmem_Value_update copy_int)]"

definition unmarshal_CapabilitiesHostTopologyCellMemory :: "CapabilitiesHostTopologyCellMemory decoder" where
  "unmarshal_CapabilitiesHostTopologyCellMemory = unmarshal_struct fields_CapabilitiesHostTopologyCellMemory"

definition zero_CapabilitiesHostTopologyCellPages :: CapabilitiesHostTopologyCellPages where
  "zero_CapabilitiesHostTopologyCellPages = \<lparr>pages_Unit = [], pages_Size = 0, pages_Value = 0\<rparr>"

definition fields_CapabilitiesHostTopologyCellPages :: "CapabilitiesHostTopologyCellPages field list" where
  "fields_CapabilitiesHostTopologyCellPages =
     [attr ''unit'' pages_Unit_update copy_string, attr ''size'' pages_Size_update copy_int,
      CharDataField (store pages_Value_update copy_uint)]"

definition unmarshal_CapabilitiesHostTopologyCellPages :: "CapabilitiesHostTopologyCellPages decoder" where
  "unmarshal_CapabilitiesHostTopologyCellPages = unmarshal_struct fields_CapabilitiesHostTopologyCellPages"

definition zero_CapabilitiesHostTopologyCellSibling :: CapabilitiesHostTopologyCellSibling where
  "zero_CapabilitiesHostTopologyCellSibling = \<lparr>sibling_ID = 0, sibling_Value = 0\<rparr>"

definition fields_CapabilitiesHostTopologyCellSibling :: "CapabilitiesHostTopologyCellSibling field list" where
  "fields_CapabilitiesHostTopologyCellSibling =
     [attr ''id'' sibling_ID_update copy_int, attr ''value'' sibling_Value_update copy_int]"

definition unmarshal_CapabilitiesHostTopologyCellSibling :: "CapabilitiesHostTopologyCellSibling decoder" where
  "unmarshal_CapabilitiesHostTopologyCellSibling = unmarshal_struct fields_CapabilitiesHostTopologyCellSibling"

definition zero_CapabilitiesHostTopologyCellDistances :: CapabilitiesHostTopologyCellDistances where
  "zero_CapabilitiesHostTopologyCellDistances = \<lparr>distances_Siblings = []\<rparr>"

definition fields_CapabilitiesHostTopologyCellDistances :: "CapabilitiesHostTopologyCellDistances field list" where
  "fields_CapabilitiesHostTopologyCellDistances =
     [elem ''sibling'' distances_Siblings distances_Siblings_update
        (slice zero_CapabilitiesHostTopologyCellSibling unmarshal_CapabilitiesHostTopologyCellSibling)]"

definition unmarshal_CapabilitiesHostTopologyCellDistances :: "CapabilitiesHostTopologyCellDistances decoder" where
  "unmarshal_CapabilitiesHostTopologyCellDistances = unmarshal_struct fields_CapabilitiesHostTopologyCellDistances"

definition zero_CapabilitiesHostTopologyCellCPU :: CapabilitiesHostTopologyCellCPU where
  "zero_CapabilitiesHostTopologyCellCPU = \<lparr>ccpu_ID = 0, ccpu_SocketID = 0, ccpu_DieID = 0, ccpu_ClusterID = 0, ccpu_CoreID = 0, ccpu_Siblings = []\<rparr>"

definition fields_CapabilitiesHostTopologyCellCPU :: "CapabilitiesHostTopologyCellCPU field list" where
  "fields_CapabilitiesHostTopologyCellCPU =
     [attr ''id'' ccpu_ID_update copy_int, attr ''socket_id'' ccpu_SocketID_update copy_int,
      attr ''die_id'' ccpu_DieID_update copy_int, attr ''cluster_id'' ccpu_ClusterID_update copy_int,
      attr ''core_id'' ccpu_CoreID_update copy_int, attr ''siblings'' ccpu_Siblings_update copy_string]"

definition unmarshal_CapabilitiesHostTopologyCellCPU :: "CapabilitiesHostTopologyCellCPU decoder" where
  "unmarshal_CapabilitiesHostTopologyCellCPU = unmarshal_struct fields_CapabilitiesHostTopologyCellCPU"

definition zero_CapabilitiesHostTopologyCellCPUs :: CapabilitiesHostTopologyCellCPUs where
  "zero_CapabilitiesHostTopologyCellCPUs = \<lparr>cellcpus_Num = 0, cellcpus_CPUs = []\<rparr>"

definition fields_CapabilitiesHostTopologyCellCPUs :: "CapabilitiesHostTopologyCellCPUs field list" where
  "fields_CapabilitiesHostTopologyCellCPUs =
     [attr ''num'' cellcpus_Num_update copy_int, elem ''cpu'' cellcpus_CPUs cellcpus_CPUs_update
        (slice zero_CapabilitiesHostTopologyCellCPU unmarshal_CapabilitiesHostTopologyCellCPU)]"

definition unmarshal_CapabilitiesHostTopologyCellCPUs :: "CapabilitiesHostTopologyCellCPUs decoder" where
  "unmarshal_CapabilitiesHostTopologyCellCPUs = unmarshal_struct fields_CapabilitiesHostTopologyCellCPUs"

definition zero_CapabilitiesHostTopologyCell :: CapabilitiesHostTopologyCell where
  "zero_CapabilitiesHostTopologyCell = \<lparr>topocell_ID = 0, topocell_Memory = zero_CapabilitiesHostTopologyCellMemory, topocell_Pages = [],
     topocell_Distances = zero_CapabilitiesHostTopologyCellDistances,
     topocell_CPUs = zero_CapabilitiesHostTopologyCellCPUs\<rparr>"

definition fields_CapabilitiesHostTopologyCell :: "CapabilitiesHostTopologyCell field list" where
  "fields_CapabilitiesHostTopologyCell =
     [attr ''id'' topocell_ID_update copy_uint,
      elem ''memory'' topocell_Memory topocell_Memory_update unmarshal_CapabilitiesHostTopologyCellMemory,
      elem ''pages'' topocell_Pages topocell_Pages_update
        (slice zero_CapabilitiesHostTopologyCellPages unmarshal_CapabilitiesHostTopologyCellPages),
      elem ''distances'' topocell_Distances topocell_Distances_update
        unmarshal_CapabilitiesHostTopologyCellDistances,
      elem ''cpus'' topocell_CPUs topocell_CPUs_update unmarshal_CapabilitiesHostTopologyCellCPUs]"

definition unmarshal_CapabilitiesHostTopologyCell :: "CapabilitiesHostTopologyCell decoder" where
  "unmarshal_CapabilitiesHostTopologyCell = unmarshal_struct fields_CapabilitiesHostTopologyCell"

definition zero_CapabilitiesHostTopologyCells :: CapabilitiesHostTopologyCells where
  "zero_CapabilitiesHostTopologyCells = \<lparr>cells_Num = 0, cells_Cells = []\<rparr>"

definition fields_CapabilitiesHostTopologyCells :: "CapabilitiesHostTopologyCells field list" where
  "fields_CapabilitiesHostTopologyCells =
     [attr ''num'' cells_Num_update copy_int, elem ''cell'' cells_Cells cells_Cells_update
        (slice zero_CapabilitiesHostTopologyCell unmarshal_CapabilitiesHostTopologyCell)]"

definition unmarshal_CapabilitiesHostTopologyCells :: "CapabilitiesHostTopologyCells decoder" where
  "unmarshal_CapabilitiesHostTopologyCells = unmarshal_struct fields_CapabilitiesHostTopologyCells"

definition zero_CapabilitiesHostTopologyLatency :: CapabilitiesHostTopologyLatency where
  "zero_CapabilitiesHostTopologyLatency = \<lparr>latency_Initiator = 0, latency_Target = 0, latency_Type = [], latency_Value = 0\<rparr>"

definition fields_CapabilitiesHostTopologyLatency :: "CapabilitiesHostTopologyLatency field list" where
  "fields_CapabilitiesHostTopologyLatency =
     [attr ''initiator'' latency_Initiator_update copy_int, attr ''target'' latency_Target_update copy_int,
      attr ''type'' latency_Type_update copy_string, attr ''value'' latency_Value_update copy_int]"

definition unmarshal_CapabilitiesHostTopologyLatency :: "CapabilitiesHostTopologyLatency decoder" where
  "unmarshal_CapabilitiesHostTopologyLatency = unmarshal_struct fields_CapabilitiesHostTopologyLatency"

definition zero_CapabilitiesHostTopologyBandwidth :: CapabilitiesHostTopologyBandwidth where
  "zero_CapabilitiesHostTopologyBandwidth = \<lparr>bandwidth_Initiator = 0, bandwidth_Target = 0, bandwidth_Type = [], bandwidth_Value = 0,
     bandwidth_Unit = []\<rparr>"

definition fields_CapabilitiesHostTopologyBandwidth :: "CapabilitiesHostTopologyBandwidth field list" where
  "fields_CapabilitiesHostTopologyBandwidth =
     [attr ''initiator'' bandwidth_Initiator_update copy_int, attr ''target'' bandwidth_Target_update copy_int,
      attr ''type'' bandwidth_Type_update copy_string, attr ''value'' bandwidth_Value_update copy_uint,
      attr ''unit'' bandwidth_Unit_update copy_string]"

definition unmarshal_CapabilitiesHostTopologyBandwidth :: "CapabilitiesHostTopologyBandwidth decoder" where
  "unmarshal_CapabilitiesHostTopologyBandwidth = unmarshal_struct fields_CapabilitiesHostTopologyBandwidth"

definition zero_CapabilitiesHostTopologyInterconnects :: CapabilitiesHostTopologyInterconnects where
  "zero_CapabilitiesHostTopologyInterconnects = \<lparr>interconnects_Latencies = [], interconnects_Bandwidths = []\<rparr>"

definition fields_CapabilitiesHostTopologyInterconnects :: "CapabilitiesHostTopologyInterconnects field list" where
  "fields_CapabilitiesHostTopologyInterconnects =
     [elem ''latency'' interconnects_Latencies interconnects_Latencies_update
        (slice zero_CapabilitiesHostTopologyLatency unmarshal_CapabilitiesHostTopologyLatency),
      elem ''bandwidth'' interconnects_Bandwidths interconnects_Bandwidths_update
        (slice zero_CapabilitiesHostTopologyBandwidth unmarshal_CapabilitiesHostTopologyBandwidth)]"

definition unmarshal_CapabilitiesHostTopologyInterconnects :: "CapabilitiesHostTopologyInterconnects decoder" where
  "unmarshal_CapabilitiesHostTopologyInterconnects = unmarshal_struct fields_CapabilitiesHostTopologyInterconnects"

definition zero_CapabilitiesHostTopology :: CapabilitiesHostTopology where
  "zero_CapabilitiesHostTopology = \<lparr>topology_CellSpec = zero_CapabilitiesHostTopologyCells,
     topology_Interconnects = zero_CapabilitiesHostTopologyInterconnects\<rparr>"

definition fields_CapabilitiesHostTopology :: "CapabilitiesHostTopology field list" where
  "fields_CapabilitiesHostTopology =
     [elem ''cells'' topology_CellSpec topology_CellSpec_update unmarshal_CapabilitiesHostTopologyCells,
      elem ''interconnects'' topology_Interconnects topology_Interconnects_update
        unmarshal_CapabilitiesHostTopologyInterconnects]"

definition unmarshal_CapabilitiesHostTopology :: "CapabilitiesHostTopology decoder" where
  "unmarshal_CapabilitiesHostTopology = unmarshal_struct fields_CapabilitiesHostTopology"

definition zero_CapabilitiesHostCacheBank :: CapabilitiesHostCacheBank where
  "zero_CapabilitiesHostCacheBank = \<lparr>bank_ID = 0, bank_Level = 0, bank_Type = [], bank_Size = 0, bank_Unit = [], bank_CPUs = []\<rparr>"

definition fields_CapabilitiesHostCacheBank :: "CapabilitiesHostCacheBank field list" where
  "fields_CapabilitiesHostCacheBank =
     [attr ''id'' bank_ID_update copy_int, attr ''level'' bank_Level_update copy_int,
      attr ''type'' bank_Type_update copy_string, attr ''size'' bank_Size_update copy_int,
      attr ''unit'' bank_Unit_update copy_string, attr ''cpus'' bank_CPUs_update copy_string]"

definition unmarshal_CapabilitiesHostCacheBank :: "CapabilitiesHostCacheBank decoder" where
  "unmarshal_CapabilitiesHostCacheBank = unmarshal_struct fields_CapabilitiesHostCacheBank"

definition zero_CapabilitiesHostCache :: CapabilitiesHostCache where
  "zero_CapabilitiesHostCache = \<lparr>cache_Banks = []\<rparr>"

definition fields_CapabilitiesHostCache :: "CapabilitiesHostCache field list" where
  "fields_CapabilitiesHostCache =
     [elem ''bank'' cache_Banks cache_Banks_update
        (slice zero_CapabilitiesHostCacheBank unmarshal_CapabilitiesHostCacheBank)]"

definition unmarshal_CapabilitiesHostCache :: "CapabilitiesHostCache decoder" where
  "unmarshal_CapabilitiesHostCache = unmarshal_struct fields_CapabilitiesHostCache"

definition zero_CapabilitiesHost :: CapabilitiesHost where
  "zero_CapabilitiesHost = \<lparr>host_CPU = zero_CapabilitiesHostCPU, host_IOMMU = zero_CapabilitiesHostIOMMU,
     host_Topology = zero_CapabilitiesHostTopology, host_Cache = zero_CapabilitiesHostCache\<rparr>"

definition fields_CapabilitiesHost :: "CapabilitiesHost field list" where
  "fields_CapabilitiesHost =
     [elem ''cpu'' host_CPU host_CPU_update unmarshal_CapabilitiesHostCPU,
      elem ''iommu'' host_IOMMU host_IOMMU_update unmarshal_CapabilitiesHostIOMMU,
      elem ''topology'' host_Topology host_Topology_update unmarshal_CapabilitiesHostTopology,
      elem ''cache'' host_Cache host_Cache_update unmarshal_CapabilitiesHostCache]"

definition unmarshal_CapabilitiesHost :: "CapabilitiesHost decoder" where
  "unmarshal_CapabilitiesHost = unmarshal_struct fields_CapabilitiesHost"

definition zero_CapabilitiesGuestArchDomain :: CapabilitiesGuestArchDomain where
  "zero_CapabilitiesGuestArchDomain = \<lparr>garchdom_Type = []\<rparr>"

definition fields_CapabilitiesGuestArchDomain :: "CapabilitiesGuestArchDomain field list" where
  "fields_CapabilitiesGuestArchDomain =
     [attr ''type'' garchdom_Type_update copy_string]"

definition unmarshal_CapabilitiesGuestArchDomain :: "CapabilitiesGuestArchDomain decoder" where
  "unmarshal_CapabilitiesGuestArchDomain = unmarshal_struct fields_CapabilitiesGuestArchDomain"

definition zero_CapabilitiesGuestArch :: CapabilitiesGuestArch where
  "zero_CapabilitiesGuestArch = \<lparr>garch_Name = [], garch_WordSize = 0, garch_Domain = zero_CapabilitiesGuestArchDomain\<rparr>"

definition fields_CapabilitiesGuestArch :: "CapabilitiesGuestArch field list" where
  "fields_CapabilitiesGuestArch =
     [attr ''name'' garch_Name_update copy_string,
      elem ''wordsize'' garch_WordSize garch_WordSize_update (scalar copy_int),
      elem ''domain'' garch_Domain garch_Domain_update unmarshal_CapabilitiesGuestArchDomain]"

definition unmarshal_CapabilitiesGuestArch :: "CapabilitiesGuestArch decoder" where
  "unmarshal_CapabilitiesGuestArch = unmarshal_struct fields_CapabilitiesGuestArch"

definition zero_CapabilitiesGuest :: CapabilitiesGuest where
  "zero_CapabilitiesGuest = \<lparr>guest_OSType = [], guest_Arch = zero_CapabilitiesGuestArch\<rparr>"

definition fields_CapabilitiesGuest :: "CapabilitiesGuest field list" where
  "fields_CapabilitiesGuest =
     [elem ''os_type'' guest_OSType guest_OSType_update (scalar copy_string),
      elem ''arch'' guest_Arch guest_Arch_update unmarshal_CapabilitiesGuestArch]"

definition unmarshal_CapabilitiesGuest :: "CapabilitiesGuest decoder" where
  "unmarshal_CapabilitiesGuest = unmarshal_struct fields_CapabilitiesGuest"

definition zero_Capabilities :: Capabilities where
  "zero_Capabilities = \<lparr>caps_Host = zero_CapabilitiesHost, caps_Guest = zero_CapabilitiesGuest\<rparr>"

definition fields_Capabilities :: "Capabilities field list" where
  "fields_Capabilities =
     [elem ''host'' caps_Host caps_Host_update unmarshal_CapabilitiesHost,
      elem ''guest'' caps_Guest caps_Guest_update unmarshal_CapabilitiesGuest]"

definition unmarshal_Capabilities :: "Capabilities decoder" where
  "unmarshal_Capabilities = unmarshal_struct fields_Capabilities"

definition zero_DomainCapabilitiesEnum :: DomainCapabilitiesEnum where
  "zero_DomainCapabilitiesEnum = \<lparr>enum_Name = [], enum_Values = []\<rparr>"

definition fields_DomainCapabilitiesEnum :: "DomainCapabilitiesEnum field list" where
  "fields_DomainCapabilitiesEnum =
     [attr ''name'' enum_Name_update copy_string,
      elem ''value'' enum_Values enum_Values_update (slice [] (scalar copy_string))]"

definition unmarshal_DomainCapabilitiesEnum :: "DomainCapabilitiesEnum decoder" where
  "unmarshal_DomainCapabilitiesEnum = unmarshal_struct fields_DomainCapabilitiesEnum"

definition zero_DomainCapabilitiesOSLoader :: DomainCapabilitiesOSLoader where
  "zero_DomainCapabilitiesOSLoader = \<lparr>loader_Supported = [], loader_Enums = []\<rparr>"

definition fields_DomainCapabilitiesOSLoader :: "DomainCapabilitiesOSLoader field list" where
  "fields_DomainCapabilitiesOSLoader =
     [attr ''supported'' loader_Supported_update copy_string, elem ''enum'' loader_Enums loader_Enums_update
        (slice zero_DomainCapabilitiesEnum unmarshal_DomainCapabilitiesEnum)]"

definition unmarshal_DomainCapabilitiesOSLoader :: "DomainCapabilitiesOSLoader decoder" where
  "unmarshal_DomainCapabilitiesOSLoader = unmarshal_struct fields_DomainCapabilitiesOSLoader"

definition zero_DomainCapabilitiesOS :: DomainCapabilitiesOS where
  "zero_DomainCapabilitiesOS = \<lparr>dcos_Supported = [], dcos_Loader = zero_DomainCapabilitiesOSLoader\<rparr>"

definition fields_DomainCapabilitiesOS :: "DomainCapabilitiesOS field list" where
  "fields_DomainCapabilitiesOS =
     [attr ''supported'' dcos_Supported_update copy_string,
      elem ''loader'' dcos_Loader dcos_Loader_update unmarshal_DomainCapabilitiesOSLoader]"

definition unmarshal_DomainCapabilitiesOS :: "DomainCapabilitiesOS decoder" where
  "unmarshal_DomainCapabilitiesOS = unmarshal_struct fields_DomainCapabilitiesOS"

definition zero_DomainCapabilitiesCPUMode :: DomainCapabilitiesCPUMode where
  "zero_DomainCapabilitiesCPUMode = \<lparr>mode_Name = [], mode_Supported = [], mode_Enums = []\<rparr>"

definition fields_DomainCapabilitiesCPUMode :: "DomainCapabilitiesCPUMode field list" where
  "fields_DomainCapabilitiesCPUMode =
     [attr ''name'' mode_Name_update copy_string, attr ''supported'' mode_Supported_update copy_string,
      elem ''enum'' mode_Enums mode_Enums_update
        (slice zero_DomainCapabilitiesEnum unmarshal_DomainCapabilitiesEnum)]"

definition unmarshal_DomainCapabilitiesCPUMode :: "DomainCapabilitiesCPUMode decoder" where
  "unmarshal_DomainCapabilitiesCPUMode = unmarshal_struct fields_DomainCapabilitiesCPUMode"

definition zero_DomainCapabilitiesCPU :: DomainCapabilitiesCPU where
  "zero_DomainCapabilitiesCPU = \<lparr>dccpu_Modes = []\<rparr>"

definition fields_DomainCapabilitiesCPU :: "DomainCapabilitiesCPU field list" where
  "fields_DomainCapabilitiesCPU =
     [elem ''mode'' dccpu_Modes dccpu_Modes_update
        (slice zero_DomainCapabilitiesCPUMode unmarshal_DomainCapabilitiesCPUMode)]"

definition unmarshal_DomainCapabilitiesCPU :: "DomainCapabilitiesCPU decoder" where
  "unmarshal_DomainCapabilitiesCPU = unmarshal_struct fields_DomainCapabilitiesCPU"

definition zero_DomainCapabilitiesDevice :: DomainCapabilitiesDevice where
  "zero_DomainCapabilitiesDevice = \<lparr>device_XMLName = [], device_Supported = [], device_Enums = []\<rparr>"

definition fields_DomainCapabilitiesDevice :: "DomainCapabilitiesDevice field list" where
  "fields_DomainCapabilitiesDevice =
     [NameField [] [] (\<lambda>n. device_XMLName_update (\<lambda>_. snd n)),
      attr ''supported'' device_Supported_update copy_string, elem ''enum'' device_Enums device_Enums_update
        (slice zero_DomainCapabilitiesEnum unmarshal_DomainCapabilitiesEnum)]"

definition unmarshal_DomainCapabilitiesDevice :: "DomainCapabilitiesDevice decoder" where
  "unmarshal_DomainCapabilitiesDevice = unmarshal_struct fields_DomainCapabilitiesDevice"

definition zero_DomainCapabilitiesDevices :: DomainCapabilitiesDevices where
  "zero_DomainCapabilitiesDevices = \<lparr>devices_Devices = []\<rparr>"

definition fields_DomainCapabilitiesDevices :: "DomainCapabilitiesDevices field list" where
  "fields_DomainCapabilitiesDevices =
     [AnyField (inside devices_Devices devices_Devices_update
        (slice zero_DomainCapabilitiesDevice unmarshal_DomainCapabilitiesDevice))]"

definition unmarshal_DomainCapabilitiesDevices :: "DomainCapabilitiesDevices decoder" where
  "unmarshal_DomainCapabilitiesDevices = unmarshal_struct fields_DomainCapabilitiesDevices"

definition zero_DomainCapabilitiesFeature :: DomainCapabilitiesFeature where
  "zero_DomainCapabilitiesFeature = \<lparr>feature_XMLName = [], feature_Supported = []\<rparr>"

definition fields_DomainCapabilitiesFeature :: "DomainCapabilitiesFeature field list" where
  "fields_DomainCapabilitiesFeature =
     [NameField [] [] (\<lambda>n. feature_XMLName_update (\<lambda>_. snd n)),
      attr ''supported'' feature_Supported_update copy_string]"

definition unmarshal_DomainCapabilitiesFeature :: "DomainCapabilitiesFeature decoder" where
  "unmarshal_DomainCapabilitiesFeature = unmarshal_struct fields_DomainCapabilitiesFeature"

definition zero_DomainCapabilitiesFeatures :: DomainCapabilitiesFeatures where
  "zero_DomainCapabilitiesFeatures = \<lparr>features_Features = []\<rparr>"

definition fields_DomainCapabilitiesFeatures :: "DomainCapabilitiesFeatures field list" where
  "fields_DomainCapabilitiesFeatures =
     [AnyField (inside features_Features features_Features_update
        (slice zero_DomainCapabilitiesFeature unmarshal_DomainCapabilitiesFeature))]"

definition unmarshal_DomainCapabilitiesFeatures :: "DomainCapabilitiesFeatures decoder" where
  "unmarshal_DomainCapabilitiesFeatures = unmarshal_struct fields_DomainCapabilitiesFeatures"

definition zero_DomainCapabilities :: DomainCapabilities where
  "zero_DomainCapabilities = \<lparr>dcaps_Domain = [], dcaps_Arch = [], dcaps_OS = zero_DomainCapabilitiesOS,
     dcaps_CPU = zero_DomainCapabilitiesCPU, dcaps_Devices = zero_DomainCapabilitiesDevices,
     dcaps_Features = zero_DomainCapabilitiesFeatures\<rparr>"

definition fields_DomainCapabilities :: "DomainCapabilities field list" where
  "fields_DomainCapabilities =
     [elem ''domain'' dcaps_Domain dcaps_Domain_update (scalar copy_string),
      elem ''arch'' dcaps_Arch dcaps_Arch_update (scalar copy_string),
      elem ''os'' dcaps_OS dcaps_OS_update unmarshal_DomainCapabilitiesOS,
      elem ''cpu'' dcaps_CPU dcaps_CPU_update unmarshal_DomainCapabilitiesCPU,
      elem ''devices'' dcaps_Devices dcaps_Devices_update unmarshal_DomainCapabilitiesDevices,
      elem ''features'' dcaps_Features dcaps_Features_update unmarshal_DomainCapabilitiesFeatures]"

definition unmarshal_DomainCapabilities :: "DomainCapabilities decoder" where
  "unmarshal_DomainCapabilities = unmarshal_struct fields_DomainCapabilities"

section \<open>Renderings\<close>

text \<open>A document for every value, and that it decodes to the value.\<close>

definition render_CapabilitiesHostCPU :: "xml_name \<Rightarrow> CapabilitiesHostCPU \<Rightarrow> xml" where
  "render_CapabilitiesHostCPU n v =
     Element n
       []
       ([text_elem ([], ''arch'') (hostcpu_Arch v)])"

lemma renders_CapabilitiesHostCPU:
  "renders (\<lambda>_. True) {n} (render_CapabilitiesHostCPU n) zero_CapabilitiesHostCPU unmarshal_CapabilitiesHostCPU"
  by (simp add: decode_simps renders_def render_CapabilitiesHostCPU_def unmarshal_CapabilitiesHostCPU_def
      fields_CapabilitiesHostCPU_def zero_CapabilitiesHostCPU_def)

definition render_CapabilitiesHostIOMMU :: "xml_name \<Rightarrow> CapabilitiesHostIOMMU \<Rightarrow> xml" where
  "render_CapabilitiesHostIOMMU n v =
     Element n
       [(([], ''support''), iommu_Support v)]
       ([])"

lemma renders_CapabilitiesHostIOMMU:
  "renders (\<lambda>_. True) {n} (render_CapabilitiesHostIOMMU n) zero_CapabilitiesHostIOMMU unmarshal_CapabilitiesHostIOMMU"
  by (simp add: decode_simps renders_def render_CapabilitiesHostIOMMU_def unmarshal_CapabilitiesHostIOMMU_def
      fields_CapabilitiesHostIOMMU_def zero_CapabilitiesHostIOMMU_def)

definition render_CapabilitiesHostTopologyCellMemory :: "xml_name \<Rightarrow> CapabilitiesHostTopologyCellMemory \<Rightarrow> xml" where
  "render_CapabilitiesHostTopologyCellMemory n v =
     Element n
       [(([], ''unit''), cellmem_Unit v)]
       ([CharData (dec_int (sint (cellmem_Value v)))])"

lemma renders_CapabilitiesHostTopologyCellMemory:
  "renders (\<lambda>_. True) {n} (render_CapabilitiesHostTopologyCellMemory n) zero_CapabilitiesHostTopologyCellMemory unmarshal_CapabilitiesHostTopologyCellMemory"
  by (simp add: decode_simps renders_def render_CapabilitiesHostTopologyCellMemory_def
      unmarshal_CapabilitiesHostTopologyCellMemory_def fields_CapabilitiesHostTopologyCellMemory_def
      zero_CapabilitiesHostTopologyCellMemory_def)

definition render_CapabilitiesHostTopologyCellPages :: "xml_name \<Rightarrow> CapabilitiesHostTopologyCellPages \<Rightarrow> xml" where
  "render_CapabilitiesHostTopologyCellPages n v =
     Element n
       [(([], ''unit''), pages_Unit v), (([], ''size''), dec_int (sint (pages_Size v)))]
       ([CharData (dec (unat (pages_Value v)))])"

lemma renders_CapabilitiesHostTopologyCellPages:
  "renders (\<lambda>_. True) {n} (render_CapabilitiesHostTopologyCellPages n) zero_CapabilitiesHostTopologyCellPages unmarshal_CapabilitiesHostTopologyCellPages"
  by (simp add: decode_simps renders_def render_CapabilitiesHostTopologyCellPages_def
      unmarshal_CapabilitiesHostTopologyCellPages_def fields_CapabilitiesHostTopologyCellPages_def
      zero_CapabilitiesHostTopologyCellPages_def)

definition render_CapabilitiesHostTopologyCellSibling :: "xml_name \<Rightarrow> CapabilitiesHostTopologyCellSibling \<Rightarrow> xml" where
  "render_CapabilitiesHostTopologyCellSibling n v =
     Element n
       [(([], ''id''), dec_int (sint (sibling_ID v))), (([], ''value''), dec_int (sint (sibling_Value v)))]
       ([])"

lemma renders_CapabilitiesHostTopologyCellSibling:
  "renders (\<lambda>_. True) {n} (render_CapabilitiesHostTopologyCellSibling n) zero_CapabilitiesHostTopologyCellSibling unmarshal_CapabilitiesHostTopologyCellSibling"
  by (simp add: decode_simps renders_def render_CapabilitiesHostTopologyCellSibling_def
      unmarshal_CapabilitiesHostTopologyCellSibling_def fields_CapabilitiesHostTopologyCellSibling_def
      zero_CapabilitiesHostTopologyCellSibling_def)

definition render_CapabilitiesHostTopologyCellDistances :: "xml_name \<Rightarrow> CapabilitiesHostTopologyCellDistances \<Rightarrow> xml" where
  "render_CapabilitiesHostTopologyCellDistances n v =
     Element n
       []
       (map (render_CapabilitiesHostTopologyCellSibling ([], ''sibling'')) (distances_Siblings v))"

lemma renders_CapabilitiesHostTopologyCellDistances:
  "renders (\<lambda>_. True) {n} (render_CapabilitiesHostTopologyCellDistances n) zero_CapabilitiesHostTopologyCellDistances unmarshal_CapabilitiesHostTopologyCellDistances"
  by (simp add: decode_simps renders_def render_CapabilitiesHostTopologyCellDistances_def
      unmarshal_CapabilitiesHostTopologyCellDistances_def fields_CapabilitiesHostTopologyCellDistances_def
      zero_CapabilitiesHostTopologyCellDistances_def
      set_children_slice [OF renders_CapabilitiesHostTopologyCellSibling,
        where get = distances_Siblings and upd = distances_Siblings_update])

definition render_CapabilitiesHostTopologyCellCPU :: "xml_name \<Rightarrow> CapabilitiesHostTopologyCellCPU \<Rightarrow> xml" where
  "render_CapabilitiesHostTopologyCellCPU n v =
     Element n
       [(([], ''id''), dec_int (sint (ccpu_ID v))), (([], ''socket_id''), dec_int (sint (ccpu_SocketID v))),
        (([], ''die_id''), dec_int (sint (ccpu_DieID v))),
        (([], ''cluster_id''), dec_int (sint (ccpu_ClusterID v))),
        (([], ''core_id''), dec_int (sint (ccpu_CoreID v))), (([], ''siblings''), ccpu_Siblings v)]
       ([])"

lemma renders_CapabilitiesHostTopologyCellCPU:
  "renders (\<lambda>_. True) {n} (render_CapabilitiesHostTopologyCellCPU n) zero_CapabilitiesHostTopologyCellCPU unmarshal_CapabilitiesHostTopologyCellCPU"
  by (simp add: decode_simps renders_def render_CapabilitiesHostTopologyCellCPU_def
      unmarshal_CapabilitiesHostTopologyCellCPU_def fields_CapabilitiesHostTopologyCellCPU_def
      zero_CapabilitiesHostTopologyCellCPU_def)

definition render_CapabilitiesHostTopologyCellCPUs :: "xml_name \<Rightarrow> CapabilitiesHostTopologyCellCPUs \<Rightarrow> xml" where
  "render_CapabilitiesHostTopologyCellCPUs n v =
     Element n
       [(([], ''num''), dec_int (sint (cellcpus_Num v)))]
       (map (render_CapabilitiesHostTopologyCellCPU ([], ''cpu'')) (cellcpus_CPUs v))"

lemma renders_CapabilitiesHostTopologyCellCPUs:
  "renders (\<lambda>_. True) {n} (render_CapabilitiesHostTopologyCellCPUs n) zero_CapabilitiesHostTopologyCellCPUs unmarshal_CapabilitiesHostTopologyCellCPUs"
  by (simp add: decode_simps renders_def render_CapabilitiesHostTopologyCellCPUs_def
      unmarshal_CapabilitiesHostTopologyCellCPUs_def fields_CapabilitiesHostTopologyCellCPUs_def
      zero_CapabilitiesHostTopologyCellCPUs_def
      set_children_slice [OF renders_CapabilitiesHostTopologyCellCPU,
        where get = cellcpus_CPUs and upd = cellcpus_CPUs_update])

definition render_CapabilitiesHostTopologyCell :: "xml_name \<Rightarrow> CapabilitiesHostTopologyCell \<Rightarrow> xml" where
  "render_CapabilitiesHostTopologyCell n v =
     Element n
       [(([], ''id''), dec (unat (topocell_ID v)))]
       ([render_CapabilitiesHostTopologyCellMemory ([], ''memory'') (topocell_Memory v)] @
        map (render_CapabilitiesHostTopologyCellPages ([], ''pages'')) (topocell_Pages v) @
        [render_CapabilitiesHostTopologyCellDistances ([], ''distances'') (topocell_Distances v), render_CapabilitiesHostTopologyCellCPUs ([], ''cpus'') (topocell_CPUs v)])"

lemma renders_CapabilitiesHostTopologyCell:
  "renders (\<lambda>_. True) {n} (render_CapabilitiesHostTopologyCell n) zero_CapabilitiesHostTopologyCell unmarshal_CapabilitiesHostTopologyCell"
  by (simp add: decode_simps renders_def render_CapabilitiesHostTopologyCell_def
      unmarshal_CapabilitiesHostTopologyCell_def fields_CapabilitiesHostTopologyCell_def
      zero_CapabilitiesHostTopologyCell_def
      set_child_struct [OF renders_CapabilitiesHostTopologyCellMemory,
        where get = topocell_Memory and upd = topocell_Memory_update]
      set_children_slice [OF renders_CapabilitiesHostTopologyCellPages,
        where get = topocell_Pages and upd = topocell_Pages_update]
      set_child_struct [OF renders_CapabilitiesHostTopologyCellDistances,
        where get = topocell_Distances and upd = topocell_Distances_update]
      set_child_struct [OF renders_CapabilitiesHostTopologyCellCPUs,
        where get = topocell_CPUs and upd = topocell_CPUs_update])

definition render_CapabilitiesHostTopologyCells :: "xml_name \<Rightarrow> CapabilitiesHostTopologyCells \<Rightarrow> xml" where
  "render_CapabilitiesHostTopologyCells n v =
     Element n
       [(([], ''num''), dec_int (sint (cells_Num v)))]
       (map (render_CapabilitiesHostTopologyCell ([], ''cell'')) (cells_Cells v))"

lemma renders_CapabilitiesHostTopologyCells:
  "renders (\<lambda>_. True) {n} (render_CapabilitiesHostTopologyCells n) zero_CapabilitiesHostTopologyCells unmarshal_CapabilitiesHostTopologyCells"
  by (simp add: decode_simps renders_def render_CapabilitiesHostTopologyCells_def
      unmarshal_CapabilitiesHostTopologyCells_def fields_CapabilitiesHostTopologyCells_def
      zero_CapabilitiesHostTopologyCells_def
      set_children_slice [OF renders_CapabilitiesHostTopologyCell,
        where get = cells_Cells and upd = cells_Cells_update])

definition render_CapabilitiesHostTopologyLatency :: "xml_name \<Rightarrow> CapabilitiesHostTopologyLatency \<Rightarrow> xml" where
  "render_CapabilitiesHostTopologyLatency n v =
     Element n
       [(([], ''initiator''), dec_int (sint (latency_Initiator v))),
        (([], ''target''), dec_int (sint (latency_Target v))), (([], ''type''), latency_Type v),
        (([], ''value''), dec_int (sint (latency_Value v)))]
       ([])"

lemma renders_CapabilitiesHostTopologyLatency:
  "renders (\<lambda>_. True) {n} (render_CapabilitiesHostTopologyLatency n) zero_CapabilitiesHostTopologyLatency unmarshal_CapabilitiesHostTopologyLatency"
  by (simp add: decode_simps renders_def render_CapabilitiesHostTopologyLatency_def
      unmarshal_CapabilitiesHostTopologyLatency_def fields_CapabilitiesHostTopologyLatency_def
      zero_CapabilitiesHostTopologyLatency_def)

definition render_CapabilitiesHostTopologyBandwidth :: "xml_name \<Rightarrow> CapabilitiesHostTopologyBandwidth \<Rightarrow> xml" where
  "render_CapabilitiesHostTopologyBandwidth n v =
     Element n
       [(([], ''initiator''), dec_int (sint (bandwidth_Initiator v))),
        (([], ''target''), dec_int (sint (bandwidth_Target v))), (([], ''type''), bandwidth_Type v),
        (([], ''value''), dec (unat (bandwidth_Value v))), (([], ''unit''), bandwidth_Unit v)]
       ([])"

lemma renders_CapabilitiesHostTopologyBandwidth:
  "renders (\<lambda>_. True) {n} (render_CapabilitiesHostTopologyBandwidth n) zero_CapabilitiesHostTopologyBandwidth unmarshal_CapabilitiesHostTopologyBandwidth"
  by (simp add: decode_simps renders_def render_CapabilitiesHostTopologyBandwidth_def
      unmarshal_CapabilitiesHostTopologyBandwidth_def fields_CapabilitiesHostTopologyBandwidth_def
      zero_CapabilitiesHostTopologyBandwidth_def)

definition render_CapabilitiesHostTopologyInterconnects :: "xml_name \<Rightarrow> CapabilitiesHostTopologyInterconnects \<Rightarrow> xml" where
  "render_CapabilitiesHostTopologyInterconnects n v =
     Element n
       []
       (map (render_CapabilitiesHostTopologyLatency ([], ''latency'')) (interconnects_Latencies v) @
        map (render_CapabilitiesHostTopologyBandwidth ([], ''bandwidth'')) (interconnects_Bandwidths v))"

lemma renders_CapabilitiesHostTopologyInterconnects:
  "renders (\<lambda>_. True) {n} (render_CapabilitiesHostTopologyInterconnects n) zero_CapabilitiesHostTopologyInterconnects unmarshal_CapabilitiesHostTopologyInterconnects"
  by (simp add: decode_simps renders_def render_CapabilitiesHostTopologyInterconnects_def
      unmarshal_CapabilitiesHostTopologyInterconnects_def fields_CapabilitiesHostTopologyInterconnects_def
      zero_CapabilitiesHostTopologyInterconnects_def
      set_children_slice [OF renders_CapabilitiesHostTopologyLatency,
        where get = interconnects_Latencies and upd = interconnects_Latencies_update]
      set_children_slice [OF renders_CapabilitiesHostTopologyBandwidth,
        where get = interconnects_Bandwidths and upd = interconnects_Bandwidths_update])

definition render_CapabilitiesHostTopology :: "xml_name \<Rightarrow> CapabilitiesHostTopology \<Rightarrow> xml" where
  "render_CapabilitiesHostTopology n v =
     Element n
       []
       ([render_CapabilitiesHostTopologyCells ([], ''cells'') (topology_CellSpec v), render_CapabilitiesHostTopologyInterconnects ([], ''interconnects'') (topology_Interconnects v)])"

lemma renders_CapabilitiesHostTopology:
  "renders (\<lambda>_. True) {n} (render_CapabilitiesHostTopology n) zero_CapabilitiesHostTopology unmarshal_CapabilitiesHostTopology"
  by (simp add: decode_simps renders_def render_CapabilitiesHostTopology_def unmarshal_CapabilitiesHostTopology_def
      fields_CapabilitiesHostTopology_def zero_CapabilitiesHostTopology_def
      set_child_struct [OF renders_CapabilitiesHostTopologyCells,
        where get = topology_CellSpec and upd = topology_CellSpec_update]
      set_child_struct [OF renders_CapabilitiesHostTopologyInterconnects,
        where get = topology_Interconnects and upd = topology_Interconnects_update])

definition render_CapabilitiesHostCacheBank :: "xml_name \<Rightarrow> CapabilitiesHostCacheBank \<Rightarrow> xml" where
  "render_CapabilitiesHostCacheBank n v =
     Element n
       [(([], ''id''), dec_int (sint (bank_ID v))), (([], ''level''), dec_int (sint (bank_Level v))),
        (([], ''type''), bank_Type v), (([], ''size''), dec_int (sint (bank_Size v))),
        (([], ''unit''), bank_Unit v), (([], ''cpus''), bank_CPUs v)]
       ([])"

lemma renders_CapabilitiesHostCacheBank:
  "renders (\<lambda>_. True) {n} (render_CapabilitiesHostCacheBank n) zero_CapabilitiesHostCacheBank unmarshal_CapabilitiesHostCacheBank"
  by (simp add: decode_simps renders_def render_CapabilitiesHostCacheBank_def unmarshal_CapabilitiesHostCacheBank_def
      fields_CapabilitiesHostCacheBank_def zero_CapabilitiesHostCacheBank_def)

definition render_CapabilitiesHostCache :: "xml_name \<Rightarrow> CapabilitiesHostCache \<Rightarrow> xml" where
  "render_CapabilitiesHostCache n v =
     Element n
       []
       (map (render_CapabilitiesHostCacheBank ([], ''bank'')) (cache_Banks v))"

lemma renders_CapabilitiesHostCache:
  "renders (\<lambda>_. True) {n} (render_CapabilitiesHostCache n) zero_CapabilitiesHostCache unmarshal_CapabilitiesHostCache"
  by (simp add: decode_simps renders_def render_CapabilitiesHostCache_def unmarshal_CapabilitiesHostCache_def
      fields_CapabilitiesHostCache_def zero_CapabilitiesHostCache_def
      set_children_slice [OF renders_CapabilitiesHostCacheBank,
        where get = cache_Banks and upd = cache_Banks_update])

definition render_CapabilitiesHost :: "xml_name \<Rightarrow> CapabilitiesHost \<Rightarrow> xml" where
  "render_CapabilitiesHost n v =
     Element n
       []
       ([render_CapabilitiesHostCPU ([], ''cpu'') (host_CPU v), render_CapabilitiesHostIOMMU ([], ''iommu'') (host_IOMMU v), render_CapabilitiesHostTopology ([], ''topology'') (host_Topology v), render_CapabilitiesHostCache ([], ''cache'') (host_Cache v)])"

lemma renders_CapabilitiesHost:
  "renders (\<lambda>_. True) {n} (render_CapabilitiesHost n) zero_CapabilitiesHost unmarshal_CapabilitiesHost"
  by (simp add: decode_simps renders_def render_CapabilitiesHost_def unmarshal_CapabilitiesHost_def
      fields_CapabilitiesHost_def zero_CapabilitiesHost_def
      set_child_struct [OF renders_CapabilitiesHostCPU, where get = host_CPU and upd = host_CPU_update]
      set_child_struct [OF renders_CapabilitiesHostIOMMU, where get = host_IOMMU and upd = host_IOMMU_update]
      set_child_struct [OF renders_CapabilitiesHostTopology,
        where get = host_Topology and upd = host_Topology_update]
      set_child_struct [OF renders_CapabilitiesHostCache, where get = host_Cache and upd = host_Cache_update])

definition render_CapabilitiesGuestArchDomain :: "xml_name \<Rightarrow> CapabilitiesGuestArchDomain \<Rightarrow> xml" where
  "render_CapabilitiesGuestArchDomain n v =
     Element n
       [(([], ''type''), garchdom_Type v)]
       ([])"

lemma renders_CapabilitiesGuestArchDomain:
  "renders (\<lambda>_. True) {n} (render_CapabilitiesGuestArchDomain n) zero_CapabilitiesGuestArchDomain unmarshal_CapabilitiesGuestArchDomain"
  by (simp add: decode_simps renders_def render_CapabilitiesGuestArchDomain_def unmarshal_CapabilitiesGuestArchDomain_def
      fields_CapabilitiesGuestArchDomain_def zero_CapabilitiesGuestArchDomain_def)

definition render_CapabilitiesGuestArch :: "xml_name \<Rightarrow> CapabilitiesGuestArch \<Rightarrow> xml" where
  "render_CapabilitiesGuestArch n v =
     Element n
       [(([], ''name''), garch_Name v)]
       ([text_elem ([], ''wordsize'') (dec_int (sint (garch_WordSize v))), render_CapabilitiesGuestArchDomain ([], ''domain'') (garch_Domain v)])"

lemma renders_CapabilitiesGuestArch:
  "renders (\<lambda>_. True) {n} (render_CapabilitiesGuestArch n) zero_CapabilitiesGuestArch unmarshal_CapabilitiesGuestArch"
  by (simp add: decode_simps renders_def render_CapabilitiesGuestArch_def unmarshal_CapabilitiesGuestArch_def
      fields_CapabilitiesGuestArch_def zero_CapabilitiesGuestArch_def
      set_child_struct [OF renders_CapabilitiesGuestArchDomain,
        where get = garch_Domain and upd = garch_Domain_update])

definition render_CapabilitiesGuest :: "xml_name \<Rightarrow> CapabilitiesGuest \<Rightarrow> xml" where
  "render_CapabilitiesGuest n v =
     Element n
       []
       ([text_elem ([], ''os_type'') (guest_OSType v), render_CapabilitiesGuestArch ([], ''arch'') (guest_Arch v)])"

lemma renders_CapabilitiesGuest:
  "renders (\<lambda>_. True) {n} (render_CapabilitiesGuest n) zero_CapabilitiesGuest unmarshal_CapabilitiesGuest"
  by (simp add: decode_simps renders_def render_CapabilitiesGuest_def unmarshal_CapabilitiesGuest_def
      fields_CapabilitiesGuest_def zero_CapabilitiesGuest_def
      set_child_struct [OF renders_CapabilitiesGuestArch, where get = guest_Arch and upd = guest_Arch_update])

definition render_Capabilities :: "xml_name \<Rightarrow> Capabilities \<Rightarrow> xml" where
  "render_Capabilities n v =
     Element n
       []
       ([render_CapabilitiesHost ([], ''host'') (caps_Host v), render_CapabilitiesGuest ([], ''guest'') (caps_Guest v)])"

lemma renders_Capabilities:
  "renders (\<lambda>_. True) {n} (render_Capabilities n) zero_Capabilities unmarshal_Capabilities"
  by (simp add: decode_simps renders_def render_Capabilities_def unmarshal_Capabilities_def fields_Capabilities_def
      zero_Capabilities_def
      set_child_struct [OF renders_CapabilitiesHost, where get = caps_Host and upd = caps_Host_update]
      set_child_struct [OF renders_CapabilitiesGuest, where get = caps_Guest and upd = caps_Guest_update])

definition render_DomainCapabilitiesEnum :: "xml_name \<Rightarrow> DomainCapabilitiesEnum \<Rightarrow> xml" where
  "render_DomainCapabilitiesEnum n v =
     Element n
       [(([], ''name''), enum_Name v)]
       (map (text_elem ([], ''value'')) (enum_Values v))"

lemma renders_DomainCapabilitiesEnum:
  "renders (\<lambda>_. True) {n} (render_DomainCapabilitiesEnum n) zero_DomainCapabilitiesEnum unmarshal_DomainCapabilitiesEnum"
  by (simp add: decode_simps renders_def render_DomainCapabilitiesEnum_def unmarshal_DomainCapabilitiesEnum_def
      fields_DomainCapabilitiesEnum_def zero_DomainCapabilitiesEnum_def
      set_children_slice [OF renders_text, where get = enum_Values and upd = enum_Values_update])

definition render_DomainCapabilitiesOSLoader :: "xml_name \<Rightarrow> DomainCapabilitiesOSLoader \<Rightarrow> xml" where
  "render_DomainCapabilitiesOSLoader n v =
     Element n
       [(([], ''supported''), loader_Supported v)]
       (map (render_DomainCapabilitiesEnum ([], ''enum'')) (loader_Enums v))"

lemma renders_DomainCapabilitiesOSLoader:
  "renders (\<lambda>_. True) {n} (render_DomainCapabilitiesOSLoader n) zero_DomainCapabilitiesOSLoader unmarshal_DomainCapabilitiesOSLoader"
  by (simp add: decode_simps renders_def render_DomainCapabilitiesOSLoader_def unmarshal_DomainCapabilitiesOSLoader_def
      fields_DomainCapabilitiesOSLoader_def zero_DomainCapabilitiesOSLoader_def
      set_children_slice [OF renders_DomainCapabilitiesEnum,
        where get = loader_Enums and upd = loader_Enums_update])

definition render_DomainCapabilitiesOS :: "xml_name \<Rightarrow> DomainCapabilitiesOS \<Rightarrow> xml" where
  "render_DomainCapabilitiesOS n v =
     Element n
       [(([], ''supported''), dcos_Supported v)]
       ([render_DomainCapabilitiesOSLoader ([], ''loader'') (dcos_Loader v)])"

lemma renders_DomainCapabilitiesOS:
  "renders (\<lambda>_. True) {n} (render_DomainCapabilitiesOS n) zero_DomainCapabilitiesOS unmarshal_DomainCapabilitiesOS"
  by (simp add: decode_simps renders_def render_DomainCapabilitiesOS_def unmarshal_DomainCapabilitiesOS_def
      fields_DomainCapabilitiesOS_def zero_DomainCapabilitiesOS_def
      set_child_struct [OF renders_DomainCapabilitiesOSLoader,
        where get = dcos_Loader and upd = dcos_Loader_update])

definition render_DomainCapabilitiesCPUMode :: "xml_name \<Rightarrow> DomainCapabilitiesCPUMode \<Rightarrow> xml" where
  "render_DomainCapabilitiesCPUMode n v =
     Element n
       [(([], ''name''), mode_Name v), (([], ''supported''), mode_Supported v)]
       (map (render_DomainCapabilitiesEnum ([], ''enum'')) (mode_Enums v))"

lemma renders_DomainCapabilitiesCPUMode:
  "renders (\<lambda>_. True) {n} (render_DomainCapabilitiesCPUMode n) zero_DomainCapabilitiesCPUMode unmarshal_DomainCapabilitiesCPUMode"
  by (simp add: decode_simps renders_def render_DomainCapabilitiesCPUMode_def unmarshal_DomainCapabilitiesCPUMode_def
      fields_DomainCapabilitiesCPUMode_def zero_DomainCapabilitiesCPUMode_def
      set_children_slice [OF renders_DomainCapabilitiesEnum, where get = mode_Enums and upd = mode_Enums_update])

definition render_DomainCapabilitiesCPU :: "xml_name \<Rightarrow> DomainCapabilitiesCPU \<Rightarrow> xml" where
  "render_DomainCapabilitiesCPU n v =
     Element n
       []
       (map (render_DomainCapabilitiesCPUMode ([], ''mode'')) (dccpu_Modes v))"

lemma renders_DomainCapabilitiesCPU:
  "renders (\<lambda>_. True) {n} (render_DomainCapabilitiesCPU n) zero_DomainCapabilitiesCPU unmarshal_DomainCapabilitiesCPU"
  by (simp add: decode_simps renders_def render_DomainCapabilitiesCPU_def unmarshal_DomainCapabilitiesCPU_def
      fields_DomainCapabilitiesCPU_def zero_DomainCapabilitiesCPU_def
      set_children_slice [OF renders_DomainCapabilitiesCPUMode,
        where get = dccpu_Modes and upd = dccpu_Modes_update])

definition render_DomainCapabilitiesDevice :: "DomainCapabilitiesDevice \<Rightarrow> xml" where
  "render_DomainCapabilitiesDevice v =
     Element ([], device_XMLName v)
       [(([], ''supported''), device_Supported v)]
       (map (render_DomainCapabilitiesEnum ([], ''enum'')) (device_Enums v))"

lemma renders_DomainCapabilitiesDevice:
  "renders (\<lambda>_. True) UNIV render_DomainCapabilitiesDevice zero_DomainCapabilitiesDevice unmarshal_DomainCapabilitiesDevice"
  by (simp add: decode_simps renders_def render_DomainCapabilitiesDevice_def unmarshal_DomainCapabilitiesDevice_def
      fields_DomainCapabilitiesDevice_def zero_DomainCapabilitiesDevice_def
      set_children_slice [OF renders_DomainCapabilitiesEnum,
        where get = device_Enums and upd = device_Enums_update])

definition render_DomainCapabilitiesDevices :: "xml_name \<Rightarrow> DomainCapabilitiesDevices \<Rightarrow> xml" where
  "render_DomainCapabilitiesDevices n v =
     Element n
       []
       (map render_DomainCapabilitiesDevice (devices_Devices v))"

lemma renders_DomainCapabilitiesDevices:
  "renders (\<lambda>_. True) {n} (render_DomainCapabilitiesDevices n) zero_DomainCapabilitiesDevices unmarshal_DomainCapabilitiesDevices"
  by (simp add: decode_simps renders_def render_DomainCapabilitiesDevices_def unmarshal_DomainCapabilitiesDevices_def
      fields_DomainCapabilitiesDevices_def zero_DomainCapabilitiesDevices_def
      set_children_any [OF renders_DomainCapabilitiesDevice,
        where get = devices_Devices and upd = devices_Devices_update])

definition render_DomainCapabilitiesFeature :: "DomainCapabilitiesFeature \<Rightarrow> xml" where
  "render_DomainCapabilitiesFeature v =
     Element ([], feature_XMLName v)
       [(([], ''supported''), feature_Supported v)]
       ([])"

lemma renders_DomainCapabilitiesFeature:
  "renders (\<lambda>_. True) UNIV render_DomainCapabilitiesFeature zero_DomainCapabilitiesFeature unmarshal_DomainCapabilitiesFeature"
  by (simp add: decode_simps renders_def render_DomainCapabilitiesFeature_def unmarshal_DomainCapabilitiesFeature_def
      fields_DomainCapabilitiesFeature_def zero_DomainCapabilitiesFeature_def)

definition render_DomainCapabilitiesFeatures :: "xml_name \<Rightarrow> DomainCapabilitiesFeatures \<Rightarrow> xml" where
  "render_DomainCapabilitiesFeatures n v =
     Element n
       []
       (map render_DomainCapabilitiesFeature (features_Features v))"

lemma renders_DomainCapabilitiesFeatures:
  "renders (\<lambda>_. True) {n} (render_DomainCapabilitiesFeatures n) zero_DomainCapabilitiesFeatures unmarshal_DomainCapabilitiesFeatures"
  by (simp add: decode_simps renders_def render_DomainCapabilitiesFeatures_def unmarshal_DomainCapabilitiesFeatures_def
      fields_DomainCapabilitiesFeatures_def zero_DomainCapabilitiesFeatures_def
      set_children_any [OF renders_DomainCapabilitiesFeature,
        where get = features_Features and upd = features_Features_update])

definition render_DomainCapabilities :: "xml_name \<Rightarrow> DomainCapabilities \<Rightarrow> xml" where
  "render_DomainCapabilities n v =
     Element n
       []
       ([text_elem ([], ''domain'') (dcaps_Domain v), text_elem ([], ''arch'') (dcaps_Arch v), render_DomainCapabilitiesOS ([], ''os'') (dcaps_OS v), render_DomainCapabilitiesCPU ([], ''cpu'') (dcaps_CPU v), render_DomainCapabilitiesDevices ([], ''devices'') (dcaps_Devices v), render_DomainCapabilitiesFeatures ([], ''features'') (dcaps_Features v)])"

lemma renders_DomainCapabilities:
  "renders (\<lambda>_. True) {n} (render_DomainCapabilities n) zero_DomainCapabilities unmarshal_DomainCapabilities"
  by (simp add: decode_simps renders_def render_DomainCapabilities_def unmarshal_DomainCapabilities_def
      fields_DomainCapabilities_def zero_DomainCapabilities_def
      set_child_struct [OF renders_DomainCapabilitiesOS, where get = dcaps_OS and upd = dcaps_OS_update]
      set_child_struct [OF renders_DomainCapabilitiesCPU, where get = dcaps_CPU and upd = dcaps_CPU_update]
      set_child_struct [OF renders_DomainCapabilitiesDevices,
        where get = dcaps_Devices and upd = dcaps_Devices_update]
      set_child_struct [OF renders_DomainCapabilitiesFeatures,
        where get = dcaps_Features and upd = dcaps_Features_update])

end
