(* ===== verification/DomSchema.thy ===== *)
theory DomSchema
  imports Prelude
begin

text \<open>
  \<^verbatim>\<open>internal/libvirt/dominfo/schema.go\<close>: the description of a domain, one record per Go
  struct, innermost first. A pointer field is an option (\<open>None\<close> is \<^verbatim>\<open>nil\<close>), an
  \<^verbatim>\<open>xml.Name\<close> is the pair of name space and local name.
\<close>

record NovaPackage =
  novaPackage_Version :: string

record NovaFlavor =
  novaFlavor_Name :: string
  novaFlavor_Memory :: int64
  novaFlavor_Disk :: int64
  novaFlavor_Swap :: int64
  novaFlavor_Ephemeral :: int64
  novaFlavor_VCPUs :: int64

record NovaUser =
  novaUser_UUID :: string
  novaUser_Value :: string

record NovaProject =
  novaProject_UUID :: string
  novaProject_Value :: string

record NovaOwner =
  novaOwner_User :: "NovaUser option"
  novaOwner_Project :: "NovaProject option"

record NovaRoot =
  novaRoot_Type :: string
  novaRoot_UUID :: string

record NovaIP =
  novaIP_Type :: string
  novaIP_Address :: string
  novaIP_IPVersion :: string

record NovaPort =
  novaPort_UUID :: string
  novaPort_IPs :: "NovaIP list"

record NovaPorts =
  novaPorts_Ports :: "NovaPort list"

record NovaInstance =
  novaInstance_XMLName :: "string \<times> string"
  novaInstance_Package :: "NovaPackage option"
  novaInstance_Name :: string
  novaInstance_CreationTime :: string
  novaInstance_Flavor :: "NovaFlavor option"
  novaInstance_Owner :: "NovaOwner option"
  novaInstance_Root :: "NovaRoot option"
  novaInstance_Ports :: "NovaPorts option"

record DomainMetadata =
  metadata_NovaInstance :: "NovaInstance option"

record DomainMemory =
  memory_Unit :: string
  memory_Value :: int64

record DomainPage =
  page_Size :: string
  page_Unit :: string
  page_Nodeset :: string

record DomainHugePages =
  hugePages_Pages :: "DomainPage list"

record DomainMemoryBacking =
  memoryBacking_HugePages :: "DomainHugePages option"

record DomainVCPU =
  vcpu_Placement :: string
  vcpu_Value :: int64

record DomainVCPUPin =
  vcpuPin_VCPU :: int64
  vcpuPin_CPUSet :: string

record DomainCPUPin =
  cpuPin_CPUSet :: string

record DomainCPUTune =
  cpuTune_VCPUPins :: "DomainVCPUPin list"
  cpuTune_EmulatorPin :: "DomainCPUPin option"

record DomainNumaMemory =
  numaMemory_Mode :: string
  numaMemory_Nodeset :: string

record DomainNumaMemNode =
  numaMemNode_CellID :: uint64
  numaMemNode_Mode :: string
  numaMemNode_Nodeset :: string

record DomainNumaTune =
  numaTune_Memory :: "DomainNumaMemory option"
  numaTune_MemNodes :: "DomainNumaMemNode list"

record DomainResource =
  resource_Partition :: string

record DomainOSType =
  osType_Arch :: string
  osType_Value :: string

record DomainBoot =
  boot_Dev :: string

record DomainOS =
  os_Type :: "DomainOSType option"
  os_Kernel :: string
  os_Boot :: "DomainBoot option"

record DomainCPUTopology =
  cpuTopology_Sockets :: int64
  cpuTopology_Dies :: int64
  cpuTopology_Clusters :: int64
  cpuTopology_Cores :: int64
  cpuTopology_Threads :: int64

record DomainCPUNumaCell =
  cpuNumaCell_ID :: uint64
  cpuNumaCell_CPUs :: string
  cpuNumaCell_Memory :: uint64
  cpuNumaCell_Unit :: string
  cpuNumaCell_MemAccess :: string

record DomainCPUNuma =
  cpuNuma_Cells :: "DomainCPUNumaCell list"

record DomainCPU =
  cpu_Mode :: string
  cpu_Topology :: "DomainCPUTopology option"
  cpu_Numa :: "DomainCPUNuma option"

record DomainClock =
  clock_Offset :: string

record DomainDiskDriver =
  diskDriver_Type :: string
  diskDriver_Cache :: string
  diskDriver_Discard :: string

record DomainDiskSource =
  diskSource_File :: string

record DomainDiskTarget =
  diskTarget_Dev :: string
  diskTarget_Bus :: string

record DomainAlias =
  alias_Name :: string

record DomainDisk =
  disk_Type :: string
  disk_Device :: string
  disk_Driver :: "DomainDiskDriver option"
  disk_Source :: "DomainDiskSource option"
  disk_Target :: "DomainDiskTarget option"
  disk_Alias :: "DomainAlias option"

record DomainInterfaceMAC =
  ifMAC_Address :: string

record DomainInterfaceSource =
  ifSource_Bridge :: string

record DomainInterfaceTarget =
  ifTarget_Dev :: string

record DomainInterfaceModel =
  ifModel_Type :: string

record DomainInterfaceDriver =
  ifDriver_Queues :: string
  ifDriver_Packed :: string

record DomainInterfaceMTU =
  ifMTU_Size :: int64

record DomainAddress =
  address_Type :: string
  address_Domain :: string
  address_Bus :: string
  address_Slot :: string
  address_Function :: string

record DomainInterface =
  if_Type :: string
  if_MAC :: "DomainInterfaceMAC option"
  if_Source :: "DomainInterfaceSource option"
  if_Target :: "DomainInterfaceTarget option"
  if_Model :: "DomainInterfaceModel option"
  if_Driver :: "DomainInterfaceDriver option"
  if_MTU :: "DomainInterfaceMTU option"
  if_Alias :: "DomainAlias option"
  if_Address :: "DomainAddress option"

record DomainSerialSource =
  serialSource_Mode :: string
  serialSource_Host :: string
  serialSource_Service :: string

record DomainSerialProtocol =
  serialProtocol_Type :: string

record DomainSerialLog =
  serialLog_File :: string
  serialLog_Append :: string

record DomainSerialTarget =
  serialTarget_Port :: int64

record DomainSerial =
  serial_Type :: string
  serial_Source :: "DomainSerialSource option"
  serial_Protocol :: "DomainSerialProtocol option"
  serial_Log :: "DomainSerialLog option"
  serial_Target :: "DomainSerialTarget option"

record DomainDevices =
  devices_Emulator :: string
  devices_Disks :: "DomainDisk list"
  devices_Interfaces :: "DomainInterface list"
  devices_Serials :: "DomainSerial list"

record DomainInfo =
  dom_Type :: string
  dom_ID :: string
  dom_Name :: string
  dom_UUID :: string
  dom_Metadata :: "DomainMetadata option"
  dom_Memory :: "DomainMemory option"
  dom_CurrentMemory :: "DomainMemory option"
  dom_MemoryBacking :: "DomainMemoryBacking option"
  dom_VCPU :: "DomainVCPU option"
  dom_CPUTune :: "DomainCPUTune option"
  dom_NumaTune :: "DomainNumaTune option"
  dom_Resource :: "DomainResource option"
  dom_OS :: "DomainOS option"
  dom_CPU :: "DomainCPU option"
  dom_Clock :: "DomainClock option"
  dom_OnPoweroff :: string
  dom_OnReboot :: string
  dom_OnCrash :: string
  dom_Devices :: "DomainDevices option"

end
