(* ===== verification/DomDecode.thy ===== *)
theory DomDecode
  imports XmlDecode DomSchema
begin

text \<open>
  The tags of \<^verbatim>\<open>dominfo/schema.go\<close>: for every struct its zero value, its fields and the decoder they
  give. The struct of the Nova metadata names its name space, which its own element fields inherit.
\<close>

section \<open>Decoding\<close>

definition nova_ns :: string where
  "nova_ns = ''http://openstack.org/xmlns/libvirt/nova/1.1''"

definition zero_NovaPackage :: NovaPackage where
  "zero_NovaPackage = \<lparr>novaPackage_Version = []\<rparr>"

definition fields_NovaPackage :: "NovaPackage field list" where
  "fields_NovaPackage =
     [attr ''version'' novaPackage_Version_update copy_string]"

definition unmarshal_NovaPackage :: "NovaPackage decoder" where
  "unmarshal_NovaPackage = unmarshal_struct fields_NovaPackage"

definition zero_NovaFlavor :: NovaFlavor where
  "zero_NovaFlavor = \<lparr>novaFlavor_Name = [], novaFlavor_Memory = 0, novaFlavor_Disk = 0, novaFlavor_Swap = 0,
     novaFlavor_Ephemeral = 0, novaFlavor_VCPUs = 0\<rparr>"

definition fields_NovaFlavor :: "NovaFlavor field list" where
  "fields_NovaFlavor =
     [attr ''name'' novaFlavor_Name_update copy_string,
      elem ''memory'' novaFlavor_Memory novaFlavor_Memory_update (scalar copy_int),
      elem ''disk'' novaFlavor_Disk novaFlavor_Disk_update (scalar copy_int),
      elem ''swap'' novaFlavor_Swap novaFlavor_Swap_update (scalar copy_int),
      elem ''ephemeral'' novaFlavor_Ephemeral novaFlavor_Ephemeral_update (scalar copy_int),
      elem ''vcpus'' novaFlavor_VCPUs novaFlavor_VCPUs_update (scalar copy_int)]"

definition unmarshal_NovaFlavor :: "NovaFlavor decoder" where
  "unmarshal_NovaFlavor = unmarshal_struct fields_NovaFlavor"

definition zero_NovaUser :: NovaUser where
  "zero_NovaUser = \<lparr>novaUser_UUID = [], novaUser_Value = []\<rparr>"

definition fields_NovaUser :: "NovaUser field list" where
  "fields_NovaUser =
     [attr ''uuid'' novaUser_UUID_update copy_string, CharDataField (store novaUser_Value_update copy_string)]"

definition unmarshal_NovaUser :: "NovaUser decoder" where
  "unmarshal_NovaUser = unmarshal_struct fields_NovaUser"

definition zero_NovaProject :: NovaProject where
  "zero_NovaProject = \<lparr>novaProject_UUID = [], novaProject_Value = []\<rparr>"

definition fields_NovaProject :: "NovaProject field list" where
  "fields_NovaProject =
     [attr ''uuid'' novaProject_UUID_update copy_string,
      CharDataField (store novaProject_Value_update copy_string)]"

definition unmarshal_NovaProject :: "NovaProject decoder" where
  "unmarshal_NovaProject = unmarshal_struct fields_NovaProject"

definition zero_NovaOwner :: NovaOwner where
  "zero_NovaOwner = \<lparr>novaOwner_User = None, novaOwner_Project = None\<rparr>"

definition fields_NovaOwner :: "NovaOwner field list" where
  "fields_NovaOwner =
     [elem ''user'' novaOwner_User novaOwner_User_update (pointer zero_NovaUser unmarshal_NovaUser),
      elem ''project'' novaOwner_Project novaOwner_Project_update
        (pointer zero_NovaProject unmarshal_NovaProject)]"

definition unmarshal_NovaOwner :: "NovaOwner decoder" where
  "unmarshal_NovaOwner = unmarshal_struct fields_NovaOwner"

definition zero_NovaRoot :: NovaRoot where
  "zero_NovaRoot = \<lparr>novaRoot_Type = [], novaRoot_UUID = []\<rparr>"

definition fields_NovaRoot :: "NovaRoot field list" where
  "fields_NovaRoot =
     [attr ''type'' novaRoot_Type_update copy_string, attr ''uuid'' novaRoot_UUID_update copy_string]"

definition unmarshal_NovaRoot :: "NovaRoot decoder" where
  "unmarshal_NovaRoot = unmarshal_struct fields_NovaRoot"

definition zero_NovaIP :: NovaIP where
  "zero_NovaIP = \<lparr>novaIP_Type = [], novaIP_Address = [], novaIP_IPVersion = []\<rparr>"

definition fields_NovaIP :: "NovaIP field list" where
  "fields_NovaIP =
     [attr ''type'' novaIP_Type_update copy_string, attr ''address'' novaIP_Address_update copy_string,
      attr ''ipVersion'' novaIP_IPVersion_update copy_string]"

definition unmarshal_NovaIP :: "NovaIP decoder" where
  "unmarshal_NovaIP = unmarshal_struct fields_NovaIP"

definition zero_NovaPort :: NovaPort where
  "zero_NovaPort = \<lparr>novaPort_UUID = [], novaPort_IPs = []\<rparr>"

definition fields_NovaPort :: "NovaPort field list" where
  "fields_NovaPort =
     [attr ''uuid'' novaPort_UUID_update copy_string,
      elem ''ip'' novaPort_IPs novaPort_IPs_update (slice zero_NovaIP unmarshal_NovaIP)]"

definition unmarshal_NovaPort :: "NovaPort decoder" where
  "unmarshal_NovaPort = unmarshal_struct fields_NovaPort"

definition zero_NovaPorts :: NovaPorts where
  "zero_NovaPorts = \<lparr>novaPorts_Ports = []\<rparr>"

definition fields_NovaPorts :: "NovaPorts field list" where
  "fields_NovaPorts =
     [elem ''port'' novaPorts_Ports novaPorts_Ports_update (slice zero_NovaPort unmarshal_NovaPort)]"

definition unmarshal_NovaPorts :: "NovaPorts decoder" where
  "unmarshal_NovaPorts = unmarshal_struct fields_NovaPorts"

definition zero_NovaInstance :: NovaInstance where
  "zero_NovaInstance = \<lparr>novaInstance_XMLName = ([], []), novaInstance_Package = None, novaInstance_Name = [],
     novaInstance_CreationTime = [], novaInstance_Flavor = None, novaInstance_Owner = None,
     novaInstance_Root = None, novaInstance_Ports = None\<rparr>"

definition fields_NovaInstance :: "NovaInstance field list" where
  "fields_NovaInstance =
     [NameField nova_ns ''instance'' (\<lambda>n. novaInstance_XMLName_update (\<lambda>_. n)),
      ElementField nova_ns ''package'' (inside novaInstance_Package novaInstance_Package_update
        (pointer zero_NovaPackage unmarshal_NovaPackage)),
      ElementField nova_ns ''name'' (inside novaInstance_Name novaInstance_Name_update (scalar copy_string)),
      ElementField nova_ns ''creationTime'' (inside novaInstance_CreationTime novaInstance_CreationTime_update (scalar copy_string)),
      ElementField nova_ns ''flavor'' (inside novaInstance_Flavor novaInstance_Flavor_update
        (pointer zero_NovaFlavor unmarshal_NovaFlavor)),
      ElementField nova_ns ''owner'' (inside novaInstance_Owner novaInstance_Owner_update
        (pointer zero_NovaOwner unmarshal_NovaOwner)),
      ElementField nova_ns ''root'' (inside novaInstance_Root novaInstance_Root_update
        (pointer zero_NovaRoot unmarshal_NovaRoot)),
      ElementField nova_ns ''ports'' (inside novaInstance_Ports novaInstance_Ports_update
        (pointer zero_NovaPorts unmarshal_NovaPorts))]"

definition unmarshal_NovaInstance :: "NovaInstance decoder" where
  "unmarshal_NovaInstance = unmarshal_struct fields_NovaInstance"

definition zero_DomainMetadata :: DomainMetadata where
  "zero_DomainMetadata = \<lparr>metadata_NovaInstance = None\<rparr>"

definition fields_DomainMetadata :: "DomainMetadata field list" where
  "fields_DomainMetadata =
     [elem ''instance'' metadata_NovaInstance metadata_NovaInstance_update
        (pointer zero_NovaInstance unmarshal_NovaInstance)]"

definition unmarshal_DomainMetadata :: "DomainMetadata decoder" where
  "unmarshal_DomainMetadata = unmarshal_struct fields_DomainMetadata"

definition zero_DomainMemory :: DomainMemory where
  "zero_DomainMemory = \<lparr>memory_Unit = [], memory_Value = 0\<rparr>"

definition fields_DomainMemory :: "DomainMemory field list" where
  "fields_DomainMemory =
     [attr ''unit'' memory_Unit_update copy_string, CharDataField (store memory_Value_update copy_int)]"

definition unmarshal_DomainMemory :: "DomainMemory decoder" where
  "unmarshal_DomainMemory = unmarshal_struct fields_DomainMemory"

definition zero_DomainPage :: DomainPage where
  "zero_DomainPage = \<lparr>page_Size = [], page_Unit = [], page_Nodeset = []\<rparr>"

definition fields_DomainPage :: "DomainPage field list" where
  "fields_DomainPage =
     [attr ''size'' page_Size_update copy_string, attr ''unit'' page_Unit_update copy_string,
      attr ''nodeset'' page_Nodeset_update copy_string]"

definition unmarshal_DomainPage :: "DomainPage decoder" where
  "unmarshal_DomainPage = unmarshal_struct fields_DomainPage"

definition zero_DomainHugePages :: DomainHugePages where
  "zero_DomainHugePages = \<lparr>hugePages_Pages = []\<rparr>"

definition fields_DomainHugePages :: "DomainHugePages field list" where
  "fields_DomainHugePages =
     [elem ''page'' hugePages_Pages hugePages_Pages_update (slice zero_DomainPage unmarshal_DomainPage)]"

definition unmarshal_DomainHugePages :: "DomainHugePages decoder" where
  "unmarshal_DomainHugePages = unmarshal_struct fields_DomainHugePages"

definition zero_DomainMemoryBacking :: DomainMemoryBacking where
  "zero_DomainMemoryBacking = \<lparr>memoryBacking_HugePages = None\<rparr>"

definition fields_DomainMemoryBacking :: "DomainMemoryBacking field list" where
  "fields_DomainMemoryBacking =
     [elem ''hugepages'' memoryBacking_HugePages memoryBacking_HugePages_update
        (pointer zero_DomainHugePages unmarshal_DomainHugePages)]"

definition unmarshal_DomainMemoryBacking :: "DomainMemoryBacking decoder" where
  "unmarshal_DomainMemoryBacking = unmarshal_struct fields_DomainMemoryBacking"

definition zero_DomainVCPU :: DomainVCPU where
  "zero_DomainVCPU = \<lparr>vcpu_Placement = [], vcpu_Value = 0\<rparr>"

definition fields_DomainVCPU :: "DomainVCPU field list" where
  "fields_DomainVCPU =
     [attr ''placement'' vcpu_Placement_update copy_string, CharDataField (store vcpu_Value_update copy_int)]"

definition unmarshal_DomainVCPU :: "DomainVCPU decoder" where
  "unmarshal_DomainVCPU = unmarshal_struct fields_DomainVCPU"

definition zero_DomainVCPUPin :: DomainVCPUPin where
  "zero_DomainVCPUPin = \<lparr>vcpuPin_VCPU = 0, vcpuPin_CPUSet = []\<rparr>"

definition fields_DomainVCPUPin :: "DomainVCPUPin field list" where
  "fields_DomainVCPUPin =
     [attr ''vcpu'' vcpuPin_VCPU_update copy_int, attr ''cpuset'' vcpuPin_CPUSet_update copy_string]"

definition unmarshal_DomainVCPUPin :: "DomainVCPUPin decoder" where
  "unmarshal_DomainVCPUPin = unmarshal_struct fields_DomainVCPUPin"

definition zero_DomainCPUPin :: DomainCPUPin where
  "zero_DomainCPUPin = \<lparr>cpuPin_CPUSet = []\<rparr>"

definition fields_DomainCPUPin :: "DomainCPUPin field list" where
  "fields_DomainCPUPin =
     [attr ''cpuset'' cpuPin_CPUSet_update copy_string]"

definition unmarshal_DomainCPUPin :: "DomainCPUPin decoder" where
  "unmarshal_DomainCPUPin = unmarshal_struct fields_DomainCPUPin"

definition zero_DomainCPUTune :: DomainCPUTune where
  "zero_DomainCPUTune = \<lparr>cpuTune_VCPUPins = [], cpuTune_EmulatorPin = None\<rparr>"

definition fields_DomainCPUTune :: "DomainCPUTune field list" where
  "fields_DomainCPUTune =
     [elem ''vcpupin'' cpuTune_VCPUPins cpuTune_VCPUPins_update
        (slice zero_DomainVCPUPin unmarshal_DomainVCPUPin),
      elem ''emulatorpin'' cpuTune_EmulatorPin cpuTune_EmulatorPin_update
        (pointer zero_DomainCPUPin unmarshal_DomainCPUPin)]"

definition unmarshal_DomainCPUTune :: "DomainCPUTune decoder" where
  "unmarshal_DomainCPUTune = unmarshal_struct fields_DomainCPUTune"

definition zero_DomainNumaMemory :: DomainNumaMemory where
  "zero_DomainNumaMemory = \<lparr>numaMemory_Mode = [], numaMemory_Nodeset = []\<rparr>"

definition fields_DomainNumaMemory :: "DomainNumaMemory field list" where
  "fields_DomainNumaMemory =
     [attr ''mode'' numaMemory_Mode_update copy_string, attr ''nodeset'' numaMemory_Nodeset_update copy_string]"

definition unmarshal_DomainNumaMemory :: "DomainNumaMemory decoder" where
  "unmarshal_DomainNumaMemory = unmarshal_struct fields_DomainNumaMemory"

definition zero_DomainNumaMemNode :: DomainNumaMemNode where
  "zero_DomainNumaMemNode = \<lparr>numaMemNode_CellID = 0, numaMemNode_Mode = [], numaMemNode_Nodeset = []\<rparr>"

definition fields_DomainNumaMemNode :: "DomainNumaMemNode field list" where
  "fields_DomainNumaMemNode =
     [attr ''cellid'' numaMemNode_CellID_update copy_uint, attr ''mode'' numaMemNode_Mode_update copy_string,
      attr ''nodeset'' numaMemNode_Nodeset_update copy_string]"

definition unmarshal_DomainNumaMemNode :: "DomainNumaMemNode decoder" where
  "unmarshal_DomainNumaMemNode = unmarshal_struct fields_DomainNumaMemNode"

definition zero_DomainNumaTune :: DomainNumaTune where
  "zero_DomainNumaTune = \<lparr>numaTune_Memory = None, numaTune_MemNodes = []\<rparr>"

definition fields_DomainNumaTune :: "DomainNumaTune field list" where
  "fields_DomainNumaTune =
     [elem ''memory'' numaTune_Memory numaTune_Memory_update
        (pointer zero_DomainNumaMemory unmarshal_DomainNumaMemory),
      elem ''memnode'' numaTune_MemNodes numaTune_MemNodes_update
        (slice zero_DomainNumaMemNode unmarshal_DomainNumaMemNode)]"

definition unmarshal_DomainNumaTune :: "DomainNumaTune decoder" where
  "unmarshal_DomainNumaTune = unmarshal_struct fields_DomainNumaTune"

definition zero_DomainResource :: DomainResource where
  "zero_DomainResource = \<lparr>resource_Partition = []\<rparr>"

definition fields_DomainResource :: "DomainResource field list" where
  "fields_DomainResource =
     [elem ''partition'' resource_Partition resource_Partition_update (scalar copy_string)]"

definition unmarshal_DomainResource :: "DomainResource decoder" where
  "unmarshal_DomainResource = unmarshal_struct fields_DomainResource"

definition zero_DomainOSType :: DomainOSType where
  "zero_DomainOSType = \<lparr>osType_Arch = [], osType_Value = []\<rparr>"

definition fields_DomainOSType :: "DomainOSType field list" where
  "fields_DomainOSType =
     [attr ''arch'' osType_Arch_update copy_string, CharDataField (store osType_Value_update copy_string)]"

definition unmarshal_DomainOSType :: "DomainOSType decoder" where
  "unmarshal_DomainOSType = unmarshal_struct fields_DomainOSType"

definition zero_DomainBoot :: DomainBoot where
  "zero_DomainBoot = \<lparr>boot_Dev = []\<rparr>"

definition fields_DomainBoot :: "DomainBoot field list" where
  "fields_DomainBoot =
     [attr ''dev'' boot_Dev_update copy_string]"

definition unmarshal_DomainBoot :: "DomainBoot decoder" where
  "unmarshal_DomainBoot = unmarshal_struct fields_DomainBoot"

definition zero_DomainOS :: DomainOS where
  "zero_DomainOS = \<lparr>os_Type = None, os_Kernel = [], os_Boot = None\<rparr>"

definition fields_DomainOS :: "DomainOS field list" where
  "fields_DomainOS =
     [elem ''type'' os_Type os_Type_update (pointer zero_DomainOSType unmarshal_DomainOSType),
      elem ''kernel'' os_Kernel os_Kernel_update (scalar copy_string),
      elem ''boot'' os_Boot os_Boot_update (pointer zero_DomainBoot unmarshal_DomainBoot)]"

definition unmarshal_DomainOS :: "DomainOS decoder" where
  "unmarshal_DomainOS = unmarshal_struct fields_DomainOS"

definition zero_DomainCPUTopology :: DomainCPUTopology where
  "zero_DomainCPUTopology = \<lparr>cpuTopology_Sockets = 0, cpuTopology_Dies = 0, cpuTopology_Clusters = 0, cpuTopology_Cores = 0,
     cpuTopology_Threads = 0\<rparr>"

definition fields_DomainCPUTopology :: "DomainCPUTopology field list" where
  "fields_DomainCPUTopology =
     [attr ''sockets'' cpuTopology_Sockets_update copy_int, attr ''dies'' cpuTopology_Dies_update copy_int,
      attr ''clusters'' cpuTopology_Clusters_update copy_int, attr ''cores'' cpuTopology_Cores_update copy_int,
      attr ''threads'' cpuTopology_Threads_update copy_int]"

definition unmarshal_DomainCPUTopology :: "DomainCPUTopology decoder" where
  "unmarshal_DomainCPUTopology = unmarshal_struct fields_DomainCPUTopology"

definition zero_DomainCPUNumaCell :: DomainCPUNumaCell where
  "zero_DomainCPUNumaCell = \<lparr>cpuNumaCell_ID = 0, cpuNumaCell_CPUs = [], cpuNumaCell_Memory = 0, cpuNumaCell_Unit = [],
     cpuNumaCell_MemAccess = []\<rparr>"

definition fields_DomainCPUNumaCell :: "DomainCPUNumaCell field list" where
  "fields_DomainCPUNumaCell =
     [attr ''id'' cpuNumaCell_ID_update copy_uint, attr ''cpus'' cpuNumaCell_CPUs_update copy_string,
      attr ''memory'' cpuNumaCell_Memory_update copy_uint, attr ''unit'' cpuNumaCell_Unit_update copy_string,
      attr ''memAccess'' cpuNumaCell_MemAccess_update copy_string]"

definition unmarshal_DomainCPUNumaCell :: "DomainCPUNumaCell decoder" where
  "unmarshal_DomainCPUNumaCell = unmarshal_struct fields_DomainCPUNumaCell"

definition zero_DomainCPUNuma :: DomainCPUNuma where
  "zero_DomainCPUNuma = \<lparr>cpuNuma_Cells = []\<rparr>"

definition fields_DomainCPUNuma :: "DomainCPUNuma field list" where
  "fields_DomainCPUNuma =
     [elem ''cell'' cpuNuma_Cells cpuNuma_Cells_update
        (slice zero_DomainCPUNumaCell unmarshal_DomainCPUNumaCell)]"

definition unmarshal_DomainCPUNuma :: "DomainCPUNuma decoder" where
  "unmarshal_DomainCPUNuma = unmarshal_struct fields_DomainCPUNuma"

definition zero_DomainCPU :: DomainCPU where
  "zero_DomainCPU = \<lparr>cpu_Mode = [], cpu_Topology = None, cpu_Numa = None\<rparr>"

definition fields_DomainCPU :: "DomainCPU field list" where
  "fields_DomainCPU =
     [attr ''mode'' cpu_Mode_update copy_string, elem ''topology'' cpu_Topology cpu_Topology_update
        (pointer zero_DomainCPUTopology unmarshal_DomainCPUTopology),
      elem ''numa'' cpu_Numa cpu_Numa_update (pointer zero_DomainCPUNuma unmarshal_DomainCPUNuma)]"

definition unmarshal_DomainCPU :: "DomainCPU decoder" where
  "unmarshal_DomainCPU = unmarshal_struct fields_DomainCPU"

definition zero_DomainClock :: DomainClock where
  "zero_DomainClock = \<lparr>clock_Offset = []\<rparr>"

definition fields_DomainClock :: "DomainClock field list" where
  "fields_DomainClock =
     [attr ''offset'' clock_Offset_update copy_string]"

definition unmarshal_DomainClock :: "DomainClock decoder" where
  "unmarshal_DomainClock = unmarshal_struct fields_DomainClock"

definition zero_DomainDiskDriver :: DomainDiskDriver where
  "zero_DomainDiskDriver = \<lparr>diskDriver_Type = [], diskDriver_Cache = [], diskDriver_Discard = []\<rparr>"

definition fields_DomainDiskDriver :: "DomainDiskDriver field list" where
  "fields_DomainDiskDriver =
     [attr ''type'' diskDriver_Type_update copy_string, attr ''cache'' diskDriver_Cache_update copy_string,
      attr ''discard'' diskDriver_Discard_update copy_string]"

definition unmarshal_DomainDiskDriver :: "DomainDiskDriver decoder" where
  "unmarshal_DomainDiskDriver = unmarshal_struct fields_DomainDiskDriver"

definition zero_DomainDiskSource :: DomainDiskSource where
  "zero_DomainDiskSource = \<lparr>diskSource_File = []\<rparr>"

definition fields_DomainDiskSource :: "DomainDiskSource field list" where
  "fields_DomainDiskSource =
     [attr ''file'' diskSource_File_update copy_string]"

definition unmarshal_DomainDiskSource :: "DomainDiskSource decoder" where
  "unmarshal_DomainDiskSource = unmarshal_struct fields_DomainDiskSource"

definition zero_DomainDiskTarget :: DomainDiskTarget where
  "zero_DomainDiskTarget = \<lparr>diskTarget_Dev = [], diskTarget_Bus = []\<rparr>"

definition fields_DomainDiskTarget :: "DomainDiskTarget field list" where
  "fields_DomainDiskTarget =
     [attr ''dev'' diskTarget_Dev_update copy_string, attr ''bus'' diskTarget_Bus_update copy_string]"

definition unmarshal_DomainDiskTarget :: "DomainDiskTarget decoder" where
  "unmarshal_DomainDiskTarget = unmarshal_struct fields_DomainDiskTarget"

definition zero_DomainAlias :: DomainAlias where
  "zero_DomainAlias = \<lparr>alias_Name = []\<rparr>"

definition fields_DomainAlias :: "DomainAlias field list" where
  "fields_DomainAlias =
     [attr ''name'' alias_Name_update copy_string]"

definition unmarshal_DomainAlias :: "DomainAlias decoder" where
  "unmarshal_DomainAlias = unmarshal_struct fields_DomainAlias"

definition zero_DomainDisk :: DomainDisk where
  "zero_DomainDisk = \<lparr>disk_Type = [], disk_Device = [], disk_Driver = None, disk_Source = None, disk_Target = None,
     disk_Alias = None\<rparr>"

definition fields_DomainDisk :: "DomainDisk field list" where
  "fields_DomainDisk =
     [attr ''type'' disk_Type_update copy_string, attr ''device'' disk_Device_update copy_string,
      elem ''driver'' disk_Driver disk_Driver_update
        (pointer zero_DomainDiskDriver unmarshal_DomainDiskDriver),
      elem ''source'' disk_Source disk_Source_update
        (pointer zero_DomainDiskSource unmarshal_DomainDiskSource),
      elem ''target'' disk_Target disk_Target_update
        (pointer zero_DomainDiskTarget unmarshal_DomainDiskTarget),
      elem ''alias'' disk_Alias disk_Alias_update (pointer zero_DomainAlias unmarshal_DomainAlias)]"

definition unmarshal_DomainDisk :: "DomainDisk decoder" where
  "unmarshal_DomainDisk = unmarshal_struct fields_DomainDisk"

definition zero_DomainInterfaceMAC :: DomainInterfaceMAC where
  "zero_DomainInterfaceMAC = \<lparr>ifMAC_Address = []\<rparr>"

definition fields_DomainInterfaceMAC :: "DomainInterfaceMAC field list" where
  "fields_DomainInterfaceMAC =
     [attr ''address'' ifMAC_Address_update copy_string]"

definition unmarshal_DomainInterfaceMAC :: "DomainInterfaceMAC decoder" where
  "unmarshal_DomainInterfaceMAC = unmarshal_struct fields_DomainInterfaceMAC"

definition zero_DomainInterfaceSource :: DomainInterfaceSource where
  "zero_DomainInterfaceSource = \<lparr>ifSource_Bridge = []\<rparr>"

definition fields_DomainInterfaceSource :: "DomainInterfaceSource field list" where
  "fields_DomainInterfaceSource =
     [attr ''bridge'' ifSource_Bridge_update copy_string]"

definition unmarshal_DomainInterfaceSource :: "DomainInterfaceSource decoder" where
  "unmarshal_DomainInterfaceSource = unmarshal_struct fields_DomainInterfaceSource"

definition zero_DomainInterfaceTarget :: DomainInterfaceTarget where
  "zero_DomainInterfaceTarget = \<lparr>ifTarget_Dev = []\<rparr>"

definition fields_DomainInterfaceTarget :: "DomainInterfaceTarget field list" where
  "fields_DomainInterfaceTarget =
     [attr ''dev'' ifTarget_Dev_update copy_string]"

definition unmarshal_DomainInterfaceTarget :: "DomainInterfaceTarget decoder" where
  "unmarshal_DomainInterfaceTarget = unmarshal_struct fields_DomainInterfaceTarget"

definition zero_DomainInterfaceModel :: DomainInterfaceModel where
  "zero_DomainInterfaceModel = \<lparr>ifModel_Type = []\<rparr>"

definition fields_DomainInterfaceModel :: "DomainInterfaceModel field list" where
  "fields_DomainInterfaceModel =
     [attr ''type'' ifModel_Type_update copy_string]"

definition unmarshal_DomainInterfaceModel :: "DomainInterfaceModel decoder" where
  "unmarshal_DomainInterfaceModel = unmarshal_struct fields_DomainInterfaceModel"

definition zero_DomainInterfaceDriver :: DomainInterfaceDriver where
  "zero_DomainInterfaceDriver = \<lparr>ifDriver_Queues = [], ifDriver_Packed = []\<rparr>"

definition fields_DomainInterfaceDriver :: "DomainInterfaceDriver field list" where
  "fields_DomainInterfaceDriver =
     [attr ''queues'' ifDriver_Queues_update copy_string, attr ''packed'' ifDriver_Packed_update copy_string]"

definition unmarshal_DomainInterfaceDriver :: "DomainInterfaceDriver decoder" where
  "unmarshal_DomainInterfaceDriver = unmarshal_struct fields_DomainInterfaceDriver"

definition zero_DomainInterfaceMTU :: DomainInterfaceMTU where
  "zero_DomainInterfaceMTU = \<lparr>ifMTU_Size = 0\<rparr>"

definition fields_DomainInterfaceMTU :: "DomainInterfaceMTU field list" where
  "fields_DomainInterfaceMTU =
     [attr ''size'' ifMTU_Size_update copy_int]"

definition unmarshal_DomainInterfaceMTU :: "DomainInterfaceMTU decoder" where
  "unmarshal_DomainInterfaceMTU = unmarshal_struct fields_DomainInterfaceMTU"

definition zero_DomainAddress :: DomainAddress where
  "zero_DomainAddress = \<lparr>address_Type = [], address_Domain = [], address_Bus = [], address_Slot = [], address_Function = []\<rparr>"

definition fields_DomainAddress :: "DomainAddress field list" where
  "fields_DomainAddress =
     [attr ''type'' address_Type_update copy_string, attr ''domain'' address_Domain_update copy_string,
      attr ''bus'' address_Bus_update copy_string, attr ''slot'' address_Slot_update copy_string,
      attr ''function'' address_Function_update copy_string]"

definition unmarshal_DomainAddress :: "DomainAddress decoder" where
  "unmarshal_DomainAddress = unmarshal_struct fields_DomainAddress"

definition zero_DomainInterface :: DomainInterface where
  "zero_DomainInterface = \<lparr>if_Type = [], if_MAC = None, if_Source = None, if_Target = None, if_Model = None, if_Driver = None,
     if_MTU = None, if_Alias = None, if_Address = None\<rparr>"

definition fields_DomainInterface :: "DomainInterface field list" where
  "fields_DomainInterface =
     [attr ''type'' if_Type_update copy_string,
      elem ''mac'' if_MAC if_MAC_update (pointer zero_DomainInterfaceMAC unmarshal_DomainInterfaceMAC),
      elem ''source'' if_Source if_Source_update
        (pointer zero_DomainInterfaceSource unmarshal_DomainInterfaceSource),
      elem ''target'' if_Target if_Target_update
        (pointer zero_DomainInterfaceTarget unmarshal_DomainInterfaceTarget),
      elem ''model'' if_Model if_Model_update
        (pointer zero_DomainInterfaceModel unmarshal_DomainInterfaceModel),
      elem ''driver'' if_Driver if_Driver_update
        (pointer zero_DomainInterfaceDriver unmarshal_DomainInterfaceDriver),
      elem ''mtu'' if_MTU if_MTU_update (pointer zero_DomainInterfaceMTU unmarshal_DomainInterfaceMTU),
      elem ''alias'' if_Alias if_Alias_update (pointer zero_DomainAlias unmarshal_DomainAlias),
      elem ''address'' if_Address if_Address_update (pointer zero_DomainAddress unmarshal_DomainAddress)]"

definition unmarshal_DomainInterface :: "DomainInterface decoder" where
  "unmarshal_DomainInterface = unmarshal_struct fields_DomainInterface"

definition zero_DomainSerialSource :: DomainSerialSource where
  "zero_DomainSerialSource = \<lparr>serialSource_Mode = [], serialSource_Host = [], serialSource_Service = []\<rparr>"

definition fields_DomainSerialSource :: "DomainSerialSource field list" where
  "fields_DomainSerialSource =
     [attr ''mode'' serialSource_Mode_update copy_string, attr ''host'' serialSource_Host_update copy_string,
      attr ''service'' serialSource_Service_update copy_string]"

definition unmarshal_DomainSerialSource :: "DomainSerialSource decoder" where
  "unmarshal_DomainSerialSource = unmarshal_struct fields_DomainSerialSource"

definition zero_DomainSerialProtocol :: DomainSerialProtocol where
  "zero_DomainSerialProtocol = \<lparr>serialProtocol_Type = []\<rparr>"

definition fields_DomainSerialProtocol :: "DomainSerialProtocol field list" where
  "fields_DomainSerialProtocol =
     [attr ''type'' serialProtocol_Type_update copy_string]"

definition unmarshal_DomainSerialProtocol :: "DomainSerialProtocol decoder" where
  "unmarshal_DomainSerialProtocol = unmarshal_struct fields_DomainSerialProtocol"

definition zero_DomainSerialLog :: DomainSerialLog where
  "zero_DomainSerialLog = \<lparr>serialLog_File = [], serialLog_Append = []\<rparr>"

definition fields_DomainSerialLog :: "DomainSerialLog field list" where
  "fields_DomainSerialLog =
     [attr ''file'' serialLog_File_update copy_string, attr ''append'' serialLog_Append_update copy_string]"

definition unmarshal_DomainSerialLog :: "DomainSerialLog decoder" where
  "unmarshal_DomainSerialLog = unmarshal_struct fields_DomainSerialLog"

definition zero_DomainSerialTarget :: DomainSerialTarget where
  "zero_DomainSerialTarget = \<lparr>serialTarget_Port = 0\<rparr>"

definition fields_DomainSerialTarget :: "DomainSerialTarget field list" where
  "fields_DomainSerialTarget =
     [attr ''port'' serialTarget_Port_update copy_int]"

definition unmarshal_DomainSerialTarget :: "DomainSerialTarget decoder" where
  "unmarshal_DomainSerialTarget = unmarshal_struct fields_DomainSerialTarget"

definition zero_DomainSerial :: DomainSerial where
  "zero_DomainSerial = \<lparr>serial_Type = [], serial_Source = None, serial_Protocol = None, serial_Log = None, serial_Target = None\<rparr>"

definition fields_DomainSerial :: "DomainSerial field list" where
  "fields_DomainSerial =
     [attr ''type'' serial_Type_update copy_string, elem ''source'' serial_Source serial_Source_update
        (pointer zero_DomainSerialSource unmarshal_DomainSerialSource),
      elem ''protocol'' serial_Protocol serial_Protocol_update
        (pointer zero_DomainSerialProtocol unmarshal_DomainSerialProtocol),
      elem ''log'' serial_Log serial_Log_update (pointer zero_DomainSerialLog unmarshal_DomainSerialLog),
      elem ''target'' serial_Target serial_Target_update
        (pointer zero_DomainSerialTarget unmarshal_DomainSerialTarget)]"

definition unmarshal_DomainSerial :: "DomainSerial decoder" where
  "unmarshal_DomainSerial = unmarshal_struct fields_DomainSerial"

definition zero_DomainDevices :: DomainDevices where
  "zero_DomainDevices = \<lparr>devices_Emulator = [], devices_Disks = [], devices_Interfaces = [], devices_Serials = []\<rparr>"

definition fields_DomainDevices :: "DomainDevices field list" where
  "fields_DomainDevices =
     [elem ''emulator'' devices_Emulator devices_Emulator_update (scalar copy_string),
      elem ''disk'' devices_Disks devices_Disks_update (slice zero_DomainDisk unmarshal_DomainDisk),
      elem ''interface'' devices_Interfaces devices_Interfaces_update
        (slice zero_DomainInterface unmarshal_DomainInterface),
      elem ''serial'' devices_Serials devices_Serials_update (slice zero_DomainSerial unmarshal_DomainSerial)]"

definition unmarshal_DomainDevices :: "DomainDevices decoder" where
  "unmarshal_DomainDevices = unmarshal_struct fields_DomainDevices"

definition zero_DomainInfo :: DomainInfo where
  "zero_DomainInfo = \<lparr>dom_Type = [], dom_ID = [], dom_Name = [], dom_UUID = [], dom_Metadata = None, dom_Memory = None,
     dom_CurrentMemory = None, dom_MemoryBacking = None, dom_VCPU = None, dom_CPUTune = None,
     dom_NumaTune = None, dom_Resource = None, dom_OS = None, dom_CPU = None, dom_Clock = None,
     dom_OnPoweroff = [], dom_OnReboot = [], dom_OnCrash = [], dom_Devices = None\<rparr>"

definition fields_DomainInfo :: "DomainInfo field list" where
  "fields_DomainInfo =
     [attr ''type'' dom_Type_update copy_string, attr ''id'' dom_ID_update copy_string,
      elem ''name'' dom_Name dom_Name_update (scalar copy_string),
      elem ''uuid'' dom_UUID dom_UUID_update (scalar copy_string),
      elem ''metadata'' dom_Metadata dom_Metadata_update
        (pointer zero_DomainMetadata unmarshal_DomainMetadata),
      elem ''memory'' dom_Memory dom_Memory_update (pointer zero_DomainMemory unmarshal_DomainMemory),
      elem ''currentMemory'' dom_CurrentMemory dom_CurrentMemory_update
        (pointer zero_DomainMemory unmarshal_DomainMemory),
      elem ''memoryBacking'' dom_MemoryBacking dom_MemoryBacking_update
        (pointer zero_DomainMemoryBacking unmarshal_DomainMemoryBacking),
      elem ''vcpu'' dom_VCPU dom_VCPU_update (pointer zero_DomainVCPU unmarshal_DomainVCPU),
      elem ''cputune'' dom_CPUTune dom_CPUTune_update (pointer zero_DomainCPUTune unmarshal_DomainCPUTune),
      elem ''numatune'' dom_NumaTune dom_NumaTune_update
        (pointer zero_DomainNumaTune unmarshal_DomainNumaTune),
      elem ''resource'' dom_Resource dom_Resource_update
        (pointer zero_DomainResource unmarshal_DomainResource),
      elem ''os'' dom_OS dom_OS_update (pointer zero_DomainOS unmarshal_DomainOS),
      elem ''cpu'' dom_CPU dom_CPU_update (pointer zero_DomainCPU unmarshal_DomainCPU),
      elem ''clock'' dom_Clock dom_Clock_update (pointer zero_DomainClock unmarshal_DomainClock),
      elem ''on_poweroff'' dom_OnPoweroff dom_OnPoweroff_update (scalar copy_string),
      elem ''on_reboot'' dom_OnReboot dom_OnReboot_update (scalar copy_string),
      elem ''on_crash'' dom_OnCrash dom_OnCrash_update (scalar copy_string),
      elem ''devices'' dom_Devices dom_Devices_update (pointer zero_DomainDevices unmarshal_DomainDevices)]"

definition unmarshal_DomainInfo :: "DomainInfo decoder" where
  "unmarshal_DomainInfo = unmarshal_struct fields_DomainInfo"

section \<open>Renderings\<close>

text \<open>A document for every value, and that it decodes to the value.\<close>

definition render_NovaPackage :: "xml_name \<Rightarrow> NovaPackage \<Rightarrow> xml" where
  "render_NovaPackage n v =
     Element n
       [(([], ''version''), novaPackage_Version v)]
       ([])"

lemma renders_NovaPackage:
  "renders (\<lambda>_. True) {n} (render_NovaPackage n) zero_NovaPackage unmarshal_NovaPackage"
  by (simp add: decode_simps renders_def render_NovaPackage_def unmarshal_NovaPackage_def fields_NovaPackage_def
      zero_NovaPackage_def)

definition render_NovaFlavor :: "xml_name \<Rightarrow> NovaFlavor \<Rightarrow> xml" where
  "render_NovaFlavor n v =
     Element n
       [(([], ''name''), novaFlavor_Name v)]
       ([text_elem ([], ''memory'') (dec_int (sint (novaFlavor_Memory v))), text_elem ([], ''disk'') (dec_int (sint (novaFlavor_Disk v))), text_elem ([], ''swap'') (dec_int (sint (novaFlavor_Swap v))), text_elem ([], ''ephemeral'') (dec_int (sint (novaFlavor_Ephemeral v))), text_elem ([], ''vcpus'') (dec_int (sint (novaFlavor_VCPUs v)))])"

lemma renders_NovaFlavor:
  "renders (\<lambda>_. True) {n} (render_NovaFlavor n) zero_NovaFlavor unmarshal_NovaFlavor"
  by (simp add: decode_simps renders_def render_NovaFlavor_def unmarshal_NovaFlavor_def fields_NovaFlavor_def
      zero_NovaFlavor_def)

definition render_NovaUser :: "xml_name \<Rightarrow> NovaUser \<Rightarrow> xml" where
  "render_NovaUser n v =
     Element n
       [(([], ''uuid''), novaUser_UUID v)]
       ([CharData (novaUser_Value v)])"

lemma renders_NovaUser:
  "renders (\<lambda>_. True) {n} (render_NovaUser n) zero_NovaUser unmarshal_NovaUser"
  by (simp add: decode_simps renders_def render_NovaUser_def unmarshal_NovaUser_def fields_NovaUser_def zero_NovaUser_def)

definition render_NovaProject :: "xml_name \<Rightarrow> NovaProject \<Rightarrow> xml" where
  "render_NovaProject n v =
     Element n
       [(([], ''uuid''), novaProject_UUID v)]
       ([CharData (novaProject_Value v)])"

lemma renders_NovaProject:
  "renders (\<lambda>_. True) {n} (render_NovaProject n) zero_NovaProject unmarshal_NovaProject"
  by (simp add: decode_simps renders_def render_NovaProject_def unmarshal_NovaProject_def fields_NovaProject_def
      zero_NovaProject_def)

definition render_NovaOwner :: "xml_name \<Rightarrow> NovaOwner \<Rightarrow> xml" where
  "render_NovaOwner n v =
     Element n
       []
       (opt_elem (render_NovaUser ([], ''user'')) (novaOwner_User v) @
        opt_elem (render_NovaProject ([], ''project'')) (novaOwner_Project v))"

lemma renders_NovaOwner:
  "renders (\<lambda>_. True) {n} (render_NovaOwner n) zero_NovaOwner unmarshal_NovaOwner"
  by (simp add: decode_simps renders_def render_NovaOwner_def unmarshal_NovaOwner_def fields_NovaOwner_def
      zero_NovaOwner_def
      set_children_pointer [OF renders_NovaUser, where get = novaOwner_User and upd = novaOwner_User_update]
      set_children_pointer [OF renders_NovaProject,
        where get = novaOwner_Project and upd = novaOwner_Project_update])

definition render_NovaRoot :: "xml_name \<Rightarrow> NovaRoot \<Rightarrow> xml" where
  "render_NovaRoot n v =
     Element n
       [(([], ''type''), novaRoot_Type v), (([], ''uuid''), novaRoot_UUID v)]
       ([])"

lemma renders_NovaRoot:
  "renders (\<lambda>_. True) {n} (render_NovaRoot n) zero_NovaRoot unmarshal_NovaRoot"
  by (simp add: decode_simps renders_def render_NovaRoot_def unmarshal_NovaRoot_def fields_NovaRoot_def zero_NovaRoot_def)

definition render_NovaIP :: "xml_name \<Rightarrow> NovaIP \<Rightarrow> xml" where
  "render_NovaIP n v =
     Element n
       [(([], ''type''), novaIP_Type v), (([], ''address''), novaIP_Address v),
        (([], ''ipVersion''), novaIP_IPVersion v)]
       ([])"

lemma renders_NovaIP:
  "renders (\<lambda>_. True) {n} (render_NovaIP n) zero_NovaIP unmarshal_NovaIP"
  by (simp add: decode_simps renders_def render_NovaIP_def unmarshal_NovaIP_def fields_NovaIP_def zero_NovaIP_def)

definition render_NovaPort :: "xml_name \<Rightarrow> NovaPort \<Rightarrow> xml" where
  "render_NovaPort n v =
     Element n
       [(([], ''uuid''), novaPort_UUID v)]
       (map (render_NovaIP ([], ''ip'')) (novaPort_IPs v))"

lemma renders_NovaPort:
  "renders (\<lambda>_. True) {n} (render_NovaPort n) zero_NovaPort unmarshal_NovaPort"
  by (simp add: decode_simps renders_def render_NovaPort_def unmarshal_NovaPort_def fields_NovaPort_def zero_NovaPort_def
      set_children_slice [OF renders_NovaIP, where get = novaPort_IPs and upd = novaPort_IPs_update])

definition render_NovaPorts :: "xml_name \<Rightarrow> NovaPorts \<Rightarrow> xml" where
  "render_NovaPorts n v =
     Element n
       []
       (map (render_NovaPort ([], ''port'')) (novaPorts_Ports v))"

lemma renders_NovaPorts:
  "renders (\<lambda>_. True) {n} (render_NovaPorts n) zero_NovaPorts unmarshal_NovaPorts"
  by (simp add: decode_simps renders_def render_NovaPorts_def unmarshal_NovaPorts_def fields_NovaPorts_def
      zero_NovaPorts_def
      set_children_slice [OF renders_NovaPort, where get = novaPorts_Ports and upd = novaPorts_Ports_update])

definition render_NovaInstance :: "NovaInstance \<Rightarrow> xml" where
  "render_NovaInstance v =
     Element (novaInstance_XMLName v)
       []
       (opt_elem (render_NovaPackage (nova_ns, ''package'')) (novaInstance_Package v) @
        [text_elem (nova_ns, ''name'') (novaInstance_Name v), text_elem (nova_ns, ''creationTime'') (novaInstance_CreationTime v)] @
        opt_elem (render_NovaFlavor (nova_ns, ''flavor'')) (novaInstance_Flavor v) @
        opt_elem (render_NovaOwner (nova_ns, ''owner'')) (novaInstance_Owner v) @
        opt_elem (render_NovaRoot (nova_ns, ''root'')) (novaInstance_Root v) @
        opt_elem (render_NovaPorts (nova_ns, ''ports'')) (novaInstance_Ports v))"

definition nova_named :: "NovaInstance \<Rightarrow> bool" where
  "nova_named v \<longleftrightarrow> novaInstance_XMLName v = (nova_ns, ''instance'')"

lemma renders_NovaInstance:
  "renders nova_named {(nova_ns, ''instance'')} render_NovaInstance zero_NovaInstance unmarshal_NovaInstance"
  by (simp add: decode_simps renders_def render_NovaInstance_def unmarshal_NovaInstance_def fields_NovaInstance_def
      zero_NovaInstance_def nova_named_def
      set_children_pointer [OF renders_NovaPackage,
        where get = novaInstance_Package and upd = novaInstance_Package_update]
      set_children_pointer [OF renders_NovaFlavor,
        where get = novaInstance_Flavor and upd = novaInstance_Flavor_update]
      set_children_pointer [OF renders_NovaOwner,
        where get = novaInstance_Owner and upd = novaInstance_Owner_update]
      set_children_pointer [OF renders_NovaRoot, where get = novaInstance_Root and upd = novaInstance_Root_update]
      set_children_pointer [OF renders_NovaPorts,
        where get = novaInstance_Ports and upd = novaInstance_Ports_update])

definition render_DomainMetadata :: "xml_name \<Rightarrow> DomainMetadata \<Rightarrow> xml" where
  "render_DomainMetadata n v =
     Element n
       []
       (opt_elem render_NovaInstance (metadata_NovaInstance v))"

definition nova_metadata :: "DomainMetadata \<Rightarrow> bool" where
  "nova_metadata v \<longleftrightarrow> pred_option nova_named (metadata_NovaInstance v)"

lemma renders_DomainMetadata:
  "renders nova_metadata {n} (render_DomainMetadata n) zero_DomainMetadata unmarshal_DomainMetadata"
  by (simp add: decode_simps renders_def render_DomainMetadata_def unmarshal_DomainMetadata_def fields_DomainMetadata_def
      zero_DomainMetadata_def nova_metadata_def
      set_children_pointer [OF renders_NovaInstance,
        where get = metadata_NovaInstance and upd = metadata_NovaInstance_update])

definition render_DomainMemory :: "xml_name \<Rightarrow> DomainMemory \<Rightarrow> xml" where
  "render_DomainMemory n v =
     Element n
       [(([], ''unit''), memory_Unit v)]
       ([CharData (dec_int (sint (memory_Value v)))])"

lemma renders_DomainMemory:
  "renders (\<lambda>_. True) {n} (render_DomainMemory n) zero_DomainMemory unmarshal_DomainMemory"
  by (simp add: decode_simps renders_def render_DomainMemory_def unmarshal_DomainMemory_def fields_DomainMemory_def
      zero_DomainMemory_def)

definition render_DomainPage :: "xml_name \<Rightarrow> DomainPage \<Rightarrow> xml" where
  "render_DomainPage n v =
     Element n
       [(([], ''size''), page_Size v), (([], ''unit''), page_Unit v), (([], ''nodeset''), page_Nodeset v)]
       ([])"

lemma renders_DomainPage:
  "renders (\<lambda>_. True) {n} (render_DomainPage n) zero_DomainPage unmarshal_DomainPage"
  by (simp add: decode_simps renders_def render_DomainPage_def unmarshal_DomainPage_def fields_DomainPage_def
      zero_DomainPage_def)

definition render_DomainHugePages :: "xml_name \<Rightarrow> DomainHugePages \<Rightarrow> xml" where
  "render_DomainHugePages n v =
     Element n
       []
       (map (render_DomainPage ([], ''page'')) (hugePages_Pages v))"

lemma renders_DomainHugePages:
  "renders (\<lambda>_. True) {n} (render_DomainHugePages n) zero_DomainHugePages unmarshal_DomainHugePages"
  by (simp add: decode_simps renders_def render_DomainHugePages_def unmarshal_DomainHugePages_def
      fields_DomainHugePages_def zero_DomainHugePages_def
      set_children_slice [OF renders_DomainPage, where get = hugePages_Pages and upd = hugePages_Pages_update])

definition render_DomainMemoryBacking :: "xml_name \<Rightarrow> DomainMemoryBacking \<Rightarrow> xml" where
  "render_DomainMemoryBacking n v =
     Element n
       []
       (opt_elem (render_DomainHugePages ([], ''hugepages'')) (memoryBacking_HugePages v))"

lemma renders_DomainMemoryBacking:
  "renders (\<lambda>_. True) {n} (render_DomainMemoryBacking n) zero_DomainMemoryBacking unmarshal_DomainMemoryBacking"
  by (simp add: decode_simps renders_def render_DomainMemoryBacking_def unmarshal_DomainMemoryBacking_def
      fields_DomainMemoryBacking_def zero_DomainMemoryBacking_def
      set_children_pointer [OF renders_DomainHugePages,
        where get = memoryBacking_HugePages and upd = memoryBacking_HugePages_update])

definition render_DomainVCPU :: "xml_name \<Rightarrow> DomainVCPU \<Rightarrow> xml" where
  "render_DomainVCPU n v =
     Element n
       [(([], ''placement''), vcpu_Placement v)]
       ([CharData (dec_int (sint (vcpu_Value v)))])"

lemma renders_DomainVCPU:
  "renders (\<lambda>_. True) {n} (render_DomainVCPU n) zero_DomainVCPU unmarshal_DomainVCPU"
  by (simp add: decode_simps renders_def render_DomainVCPU_def unmarshal_DomainVCPU_def fields_DomainVCPU_def
      zero_DomainVCPU_def)

definition render_DomainVCPUPin :: "xml_name \<Rightarrow> DomainVCPUPin \<Rightarrow> xml" where
  "render_DomainVCPUPin n v =
     Element n
       [(([], ''vcpu''), dec_int (sint (vcpuPin_VCPU v))), (([], ''cpuset''), vcpuPin_CPUSet v)]
       ([])"

lemma renders_DomainVCPUPin:
  "renders (\<lambda>_. True) {n} (render_DomainVCPUPin n) zero_DomainVCPUPin unmarshal_DomainVCPUPin"
  by (simp add: decode_simps renders_def render_DomainVCPUPin_def unmarshal_DomainVCPUPin_def fields_DomainVCPUPin_def
      zero_DomainVCPUPin_def)

definition render_DomainCPUPin :: "xml_name \<Rightarrow> DomainCPUPin \<Rightarrow> xml" where
  "render_DomainCPUPin n v =
     Element n
       [(([], ''cpuset''), cpuPin_CPUSet v)]
       ([])"

lemma renders_DomainCPUPin:
  "renders (\<lambda>_. True) {n} (render_DomainCPUPin n) zero_DomainCPUPin unmarshal_DomainCPUPin"
  by (simp add: decode_simps renders_def render_DomainCPUPin_def unmarshal_DomainCPUPin_def fields_DomainCPUPin_def
      zero_DomainCPUPin_def)

definition render_DomainCPUTune :: "xml_name \<Rightarrow> DomainCPUTune \<Rightarrow> xml" where
  "render_DomainCPUTune n v =
     Element n
       []
       (map (render_DomainVCPUPin ([], ''vcpupin'')) (cpuTune_VCPUPins v) @
        opt_elem (render_DomainCPUPin ([], ''emulatorpin'')) (cpuTune_EmulatorPin v))"

lemma renders_DomainCPUTune:
  "renders (\<lambda>_. True) {n} (render_DomainCPUTune n) zero_DomainCPUTune unmarshal_DomainCPUTune"
  by (simp add: decode_simps renders_def render_DomainCPUTune_def unmarshal_DomainCPUTune_def fields_DomainCPUTune_def
      zero_DomainCPUTune_def
      set_children_slice [OF renders_DomainVCPUPin, where get = cpuTune_VCPUPins and upd = cpuTune_VCPUPins_update]
      set_children_pointer [OF renders_DomainCPUPin,
        where get = cpuTune_EmulatorPin and upd = cpuTune_EmulatorPin_update])

definition render_DomainNumaMemory :: "xml_name \<Rightarrow> DomainNumaMemory \<Rightarrow> xml" where
  "render_DomainNumaMemory n v =
     Element n
       [(([], ''mode''), numaMemory_Mode v), (([], ''nodeset''), numaMemory_Nodeset v)]
       ([])"

lemma renders_DomainNumaMemory:
  "renders (\<lambda>_. True) {n} (render_DomainNumaMemory n) zero_DomainNumaMemory unmarshal_DomainNumaMemory"
  by (simp add: decode_simps renders_def render_DomainNumaMemory_def unmarshal_DomainNumaMemory_def
      fields_DomainNumaMemory_def zero_DomainNumaMemory_def)

definition render_DomainNumaMemNode :: "xml_name \<Rightarrow> DomainNumaMemNode \<Rightarrow> xml" where
  "render_DomainNumaMemNode n v =
     Element n
       [(([], ''cellid''), dec (unat (numaMemNode_CellID v))), (([], ''mode''), numaMemNode_Mode v),
        (([], ''nodeset''), numaMemNode_Nodeset v)]
       ([])"

lemma renders_DomainNumaMemNode:
  "renders (\<lambda>_. True) {n} (render_DomainNumaMemNode n) zero_DomainNumaMemNode unmarshal_DomainNumaMemNode"
  by (simp add: decode_simps renders_def render_DomainNumaMemNode_def unmarshal_DomainNumaMemNode_def
      fields_DomainNumaMemNode_def zero_DomainNumaMemNode_def)

definition render_DomainNumaTune :: "xml_name \<Rightarrow> DomainNumaTune \<Rightarrow> xml" where
  "render_DomainNumaTune n v =
     Element n
       []
       (opt_elem (render_DomainNumaMemory ([], ''memory'')) (numaTune_Memory v) @
        map (render_DomainNumaMemNode ([], ''memnode'')) (numaTune_MemNodes v))"

lemma renders_DomainNumaTune:
  "renders (\<lambda>_. True) {n} (render_DomainNumaTune n) zero_DomainNumaTune unmarshal_DomainNumaTune"
  by (simp add: decode_simps renders_def render_DomainNumaTune_def unmarshal_DomainNumaTune_def fields_DomainNumaTune_def
      zero_DomainNumaTune_def
      set_children_pointer [OF renders_DomainNumaMemory,
        where get = numaTune_Memory and upd = numaTune_Memory_update]
      set_children_slice [OF renders_DomainNumaMemNode,
        where get = numaTune_MemNodes and upd = numaTune_MemNodes_update])

definition render_DomainResource :: "xml_name \<Rightarrow> DomainResource \<Rightarrow> xml" where
  "render_DomainResource n v =
     Element n
       []
       ([text_elem ([], ''partition'') (resource_Partition v)])"

lemma renders_DomainResource:
  "renders (\<lambda>_. True) {n} (render_DomainResource n) zero_DomainResource unmarshal_DomainResource"
  by (simp add: decode_simps renders_def render_DomainResource_def unmarshal_DomainResource_def fields_DomainResource_def
      zero_DomainResource_def)

definition render_DomainOSType :: "xml_name \<Rightarrow> DomainOSType \<Rightarrow> xml" where
  "render_DomainOSType n v =
     Element n
       [(([], ''arch''), osType_Arch v)]
       ([CharData (osType_Value v)])"

lemma renders_DomainOSType:
  "renders (\<lambda>_. True) {n} (render_DomainOSType n) zero_DomainOSType unmarshal_DomainOSType"
  by (simp add: decode_simps renders_def render_DomainOSType_def unmarshal_DomainOSType_def fields_DomainOSType_def
      zero_DomainOSType_def)

definition render_DomainBoot :: "xml_name \<Rightarrow> DomainBoot \<Rightarrow> xml" where
  "render_DomainBoot n v =
     Element n
       [(([], ''dev''), boot_Dev v)]
       ([])"

lemma renders_DomainBoot:
  "renders (\<lambda>_. True) {n} (render_DomainBoot n) zero_DomainBoot unmarshal_DomainBoot"
  by (simp add: decode_simps renders_def render_DomainBoot_def unmarshal_DomainBoot_def fields_DomainBoot_def
      zero_DomainBoot_def)

definition render_DomainOS :: "xml_name \<Rightarrow> DomainOS \<Rightarrow> xml" where
  "render_DomainOS n v =
     Element n
       []
       (opt_elem (render_DomainOSType ([], ''type'')) (os_Type v) @ [text_elem ([], ''kernel'') (os_Kernel v)] @
        opt_elem (render_DomainBoot ([], ''boot'')) (os_Boot v))"

lemma renders_DomainOS:
  "renders (\<lambda>_. True) {n} (render_DomainOS n) zero_DomainOS unmarshal_DomainOS"
  by (simp add: decode_simps renders_def render_DomainOS_def unmarshal_DomainOS_def fields_DomainOS_def zero_DomainOS_def
      set_children_pointer [OF renders_DomainOSType, where get = os_Type and upd = os_Type_update]
      set_children_pointer [OF renders_DomainBoot, where get = os_Boot and upd = os_Boot_update])

definition render_DomainCPUTopology :: "xml_name \<Rightarrow> DomainCPUTopology \<Rightarrow> xml" where
  "render_DomainCPUTopology n v =
     Element n
       [(([], ''sockets''), dec_int (sint (cpuTopology_Sockets v))),
        (([], ''dies''), dec_int (sint (cpuTopology_Dies v))),
        (([], ''clusters''), dec_int (sint (cpuTopology_Clusters v))),
        (([], ''cores''), dec_int (sint (cpuTopology_Cores v))),
        (([], ''threads''), dec_int (sint (cpuTopology_Threads v)))]
       ([])"

lemma renders_DomainCPUTopology:
  "renders (\<lambda>_. True) {n} (render_DomainCPUTopology n) zero_DomainCPUTopology unmarshal_DomainCPUTopology"
  by (simp add: decode_simps renders_def render_DomainCPUTopology_def unmarshal_DomainCPUTopology_def
      fields_DomainCPUTopology_def zero_DomainCPUTopology_def)

definition render_DomainCPUNumaCell :: "xml_name \<Rightarrow> DomainCPUNumaCell \<Rightarrow> xml" where
  "render_DomainCPUNumaCell n v =
     Element n
       [(([], ''id''), dec (unat (cpuNumaCell_ID v))), (([], ''cpus''), cpuNumaCell_CPUs v),
        (([], ''memory''), dec (unat (cpuNumaCell_Memory v))), (([], ''unit''), cpuNumaCell_Unit v),
        (([], ''memAccess''), cpuNumaCell_MemAccess v)]
       ([])"

lemma renders_DomainCPUNumaCell:
  "renders (\<lambda>_. True) {n} (render_DomainCPUNumaCell n) zero_DomainCPUNumaCell unmarshal_DomainCPUNumaCell"
  by (simp add: decode_simps renders_def render_DomainCPUNumaCell_def unmarshal_DomainCPUNumaCell_def
      fields_DomainCPUNumaCell_def zero_DomainCPUNumaCell_def)

definition render_DomainCPUNuma :: "xml_name \<Rightarrow> DomainCPUNuma \<Rightarrow> xml" where
  "render_DomainCPUNuma n v =
     Element n
       []
       (map (render_DomainCPUNumaCell ([], ''cell'')) (cpuNuma_Cells v))"

lemma renders_DomainCPUNuma:
  "renders (\<lambda>_. True) {n} (render_DomainCPUNuma n) zero_DomainCPUNuma unmarshal_DomainCPUNuma"
  by (simp add: decode_simps renders_def render_DomainCPUNuma_def unmarshal_DomainCPUNuma_def fields_DomainCPUNuma_def
      zero_DomainCPUNuma_def
      set_children_slice [OF renders_DomainCPUNumaCell, where get = cpuNuma_Cells and upd = cpuNuma_Cells_update])

definition render_DomainCPU :: "xml_name \<Rightarrow> DomainCPU \<Rightarrow> xml" where
  "render_DomainCPU n v =
     Element n
       [(([], ''mode''), cpu_Mode v)]
       (opt_elem (render_DomainCPUTopology ([], ''topology'')) (cpu_Topology v) @
        opt_elem (render_DomainCPUNuma ([], ''numa'')) (cpu_Numa v))"

lemma renders_DomainCPU:
  "renders (\<lambda>_. True) {n} (render_DomainCPU n) zero_DomainCPU unmarshal_DomainCPU"
  by (simp add: decode_simps renders_def render_DomainCPU_def unmarshal_DomainCPU_def fields_DomainCPU_def
      zero_DomainCPU_def
      set_children_pointer [OF renders_DomainCPUTopology, where get = cpu_Topology and upd = cpu_Topology_update]
      set_children_pointer [OF renders_DomainCPUNuma, where get = cpu_Numa and upd = cpu_Numa_update])

definition render_DomainClock :: "xml_name \<Rightarrow> DomainClock \<Rightarrow> xml" where
  "render_DomainClock n v =
     Element n
       [(([], ''offset''), clock_Offset v)]
       ([])"

lemma renders_DomainClock:
  "renders (\<lambda>_. True) {n} (render_DomainClock n) zero_DomainClock unmarshal_DomainClock"
  by (simp add: decode_simps renders_def render_DomainClock_def unmarshal_DomainClock_def fields_DomainClock_def
      zero_DomainClock_def)

definition render_DomainDiskDriver :: "xml_name \<Rightarrow> DomainDiskDriver \<Rightarrow> xml" where
  "render_DomainDiskDriver n v =
     Element n
       [(([], ''type''), diskDriver_Type v), (([], ''cache''), diskDriver_Cache v),
        (([], ''discard''), diskDriver_Discard v)]
       ([])"

lemma renders_DomainDiskDriver:
  "renders (\<lambda>_. True) {n} (render_DomainDiskDriver n) zero_DomainDiskDriver unmarshal_DomainDiskDriver"
  by (simp add: decode_simps renders_def render_DomainDiskDriver_def unmarshal_DomainDiskDriver_def
      fields_DomainDiskDriver_def zero_DomainDiskDriver_def)

definition render_DomainDiskSource :: "xml_name \<Rightarrow> DomainDiskSource \<Rightarrow> xml" where
  "render_DomainDiskSource n v =
     Element n
       [(([], ''file''), diskSource_File v)]
       ([])"

lemma renders_DomainDiskSource:
  "renders (\<lambda>_. True) {n} (render_DomainDiskSource n) zero_DomainDiskSource unmarshal_DomainDiskSource"
  by (simp add: decode_simps renders_def render_DomainDiskSource_def unmarshal_DomainDiskSource_def
      fields_DomainDiskSource_def zero_DomainDiskSource_def)

definition render_DomainDiskTarget :: "xml_name \<Rightarrow> DomainDiskTarget \<Rightarrow> xml" where
  "render_DomainDiskTarget n v =
     Element n
       [(([], ''dev''), diskTarget_Dev v), (([], ''bus''), diskTarget_Bus v)]
       ([])"

lemma renders_DomainDiskTarget:
  "renders (\<lambda>_. True) {n} (render_DomainDiskTarget n) zero_DomainDiskTarget unmarshal_DomainDiskTarget"
  by (simp add: decode_simps renders_def render_DomainDiskTarget_def unmarshal_DomainDiskTarget_def
      fields_DomainDiskTarget_def zero_DomainDiskTarget_def)

definition render_DomainAlias :: "xml_name \<Rightarrow> DomainAlias \<Rightarrow> xml" where
  "render_DomainAlias n v =
     Element n
       [(([], ''name''), alias_Name v)]
       ([])"

lemma renders_DomainAlias:
  "renders (\<lambda>_. True) {n} (render_DomainAlias n) zero_DomainAlias unmarshal_DomainAlias"
  by (simp add: decode_simps renders_def render_DomainAlias_def unmarshal_DomainAlias_def fields_DomainAlias_def
      zero_DomainAlias_def)

definition render_DomainDisk :: "xml_name \<Rightarrow> DomainDisk \<Rightarrow> xml" where
  "render_DomainDisk n v =
     Element n
       [(([], ''type''), disk_Type v), (([], ''device''), disk_Device v)]
       (opt_elem (render_DomainDiskDriver ([], ''driver'')) (disk_Driver v) @
        opt_elem (render_DomainDiskSource ([], ''source'')) (disk_Source v) @
        opt_elem (render_DomainDiskTarget ([], ''target'')) (disk_Target v) @
        opt_elem (render_DomainAlias ([], ''alias'')) (disk_Alias v))"

lemma renders_DomainDisk:
  "renders (\<lambda>_. True) {n} (render_DomainDisk n) zero_DomainDisk unmarshal_DomainDisk"
  by (simp add: decode_simps renders_def render_DomainDisk_def unmarshal_DomainDisk_def fields_DomainDisk_def
      zero_DomainDisk_def
      set_children_pointer [OF renders_DomainDiskDriver, where get = disk_Driver and upd = disk_Driver_update]
      set_children_pointer [OF renders_DomainDiskSource, where get = disk_Source and upd = disk_Source_update]
      set_children_pointer [OF renders_DomainDiskTarget, where get = disk_Target and upd = disk_Target_update]
      set_children_pointer [OF renders_DomainAlias, where get = disk_Alias and upd = disk_Alias_update])

definition render_DomainInterfaceMAC :: "xml_name \<Rightarrow> DomainInterfaceMAC \<Rightarrow> xml" where
  "render_DomainInterfaceMAC n v =
     Element n
       [(([], ''address''), ifMAC_Address v)]
       ([])"

lemma renders_DomainInterfaceMAC:
  "renders (\<lambda>_. True) {n} (render_DomainInterfaceMAC n) zero_DomainInterfaceMAC unmarshal_DomainInterfaceMAC"
  by (simp add: decode_simps renders_def render_DomainInterfaceMAC_def unmarshal_DomainInterfaceMAC_def
      fields_DomainInterfaceMAC_def zero_DomainInterfaceMAC_def)

definition render_DomainInterfaceSource :: "xml_name \<Rightarrow> DomainInterfaceSource \<Rightarrow> xml" where
  "render_DomainInterfaceSource n v =
     Element n
       [(([], ''bridge''), ifSource_Bridge v)]
       ([])"

lemma renders_DomainInterfaceSource:
  "renders (\<lambda>_. True) {n} (render_DomainInterfaceSource n) zero_DomainInterfaceSource unmarshal_DomainInterfaceSource"
  by (simp add: decode_simps renders_def render_DomainInterfaceSource_def unmarshal_DomainInterfaceSource_def
      fields_DomainInterfaceSource_def zero_DomainInterfaceSource_def)

definition render_DomainInterfaceTarget :: "xml_name \<Rightarrow> DomainInterfaceTarget \<Rightarrow> xml" where
  "render_DomainInterfaceTarget n v =
     Element n
       [(([], ''dev''), ifTarget_Dev v)]
       ([])"

lemma renders_DomainInterfaceTarget:
  "renders (\<lambda>_. True) {n} (render_DomainInterfaceTarget n) zero_DomainInterfaceTarget unmarshal_DomainInterfaceTarget"
  by (simp add: decode_simps renders_def render_DomainInterfaceTarget_def unmarshal_DomainInterfaceTarget_def
      fields_DomainInterfaceTarget_def zero_DomainInterfaceTarget_def)

definition render_DomainInterfaceModel :: "xml_name \<Rightarrow> DomainInterfaceModel \<Rightarrow> xml" where
  "render_DomainInterfaceModel n v =
     Element n
       [(([], ''type''), ifModel_Type v)]
       ([])"

lemma renders_DomainInterfaceModel:
  "renders (\<lambda>_. True) {n} (render_DomainInterfaceModel n) zero_DomainInterfaceModel unmarshal_DomainInterfaceModel"
  by (simp add: decode_simps renders_def render_DomainInterfaceModel_def unmarshal_DomainInterfaceModel_def
      fields_DomainInterfaceModel_def zero_DomainInterfaceModel_def)

definition render_DomainInterfaceDriver :: "xml_name \<Rightarrow> DomainInterfaceDriver \<Rightarrow> xml" where
  "render_DomainInterfaceDriver n v =
     Element n
       [(([], ''queues''), ifDriver_Queues v), (([], ''packed''), ifDriver_Packed v)]
       ([])"

lemma renders_DomainInterfaceDriver:
  "renders (\<lambda>_. True) {n} (render_DomainInterfaceDriver n) zero_DomainInterfaceDriver unmarshal_DomainInterfaceDriver"
  by (simp add: decode_simps renders_def render_DomainInterfaceDriver_def unmarshal_DomainInterfaceDriver_def
      fields_DomainInterfaceDriver_def zero_DomainInterfaceDriver_def)

definition render_DomainInterfaceMTU :: "xml_name \<Rightarrow> DomainInterfaceMTU \<Rightarrow> xml" where
  "render_DomainInterfaceMTU n v =
     Element n
       [(([], ''size''), dec_int (sint (ifMTU_Size v)))]
       ([])"

lemma renders_DomainInterfaceMTU:
  "renders (\<lambda>_. True) {n} (render_DomainInterfaceMTU n) zero_DomainInterfaceMTU unmarshal_DomainInterfaceMTU"
  by (simp add: decode_simps renders_def render_DomainInterfaceMTU_def unmarshal_DomainInterfaceMTU_def
      fields_DomainInterfaceMTU_def zero_DomainInterfaceMTU_def)

definition render_DomainAddress :: "xml_name \<Rightarrow> DomainAddress \<Rightarrow> xml" where
  "render_DomainAddress n v =
     Element n
       [(([], ''type''), address_Type v), (([], ''domain''), address_Domain v), (([], ''bus''), address_Bus v),
        (([], ''slot''), address_Slot v), (([], ''function''), address_Function v)]
       ([])"

lemma renders_DomainAddress:
  "renders (\<lambda>_. True) {n} (render_DomainAddress n) zero_DomainAddress unmarshal_DomainAddress"
  by (simp add: decode_simps renders_def render_DomainAddress_def unmarshal_DomainAddress_def fields_DomainAddress_def
      zero_DomainAddress_def)

definition render_DomainInterface :: "xml_name \<Rightarrow> DomainInterface \<Rightarrow> xml" where
  "render_DomainInterface n v =
     Element n
       [(([], ''type''), if_Type v)]
       (opt_elem (render_DomainInterfaceMAC ([], ''mac'')) (if_MAC v) @
        opt_elem (render_DomainInterfaceSource ([], ''source'')) (if_Source v) @
        opt_elem (render_DomainInterfaceTarget ([], ''target'')) (if_Target v) @
        opt_elem (render_DomainInterfaceModel ([], ''model'')) (if_Model v) @
        opt_elem (render_DomainInterfaceDriver ([], ''driver'')) (if_Driver v) @
        opt_elem (render_DomainInterfaceMTU ([], ''mtu'')) (if_MTU v) @
        opt_elem (render_DomainAlias ([], ''alias'')) (if_Alias v) @
        opt_elem (render_DomainAddress ([], ''address'')) (if_Address v))"

lemma renders_DomainInterface:
  "renders (\<lambda>_. True) {n} (render_DomainInterface n) zero_DomainInterface unmarshal_DomainInterface"
  by (simp add: decode_simps renders_def render_DomainInterface_def unmarshal_DomainInterface_def
      fields_DomainInterface_def zero_DomainInterface_def
      set_children_pointer [OF renders_DomainInterfaceMAC, where get = if_MAC and upd = if_MAC_update]
      set_children_pointer [OF renders_DomainInterfaceSource, where get = if_Source and upd = if_Source_update]
      set_children_pointer [OF renders_DomainInterfaceTarget, where get = if_Target and upd = if_Target_update]
      set_children_pointer [OF renders_DomainInterfaceModel, where get = if_Model and upd = if_Model_update]
      set_children_pointer [OF renders_DomainInterfaceDriver, where get = if_Driver and upd = if_Driver_update]
      set_children_pointer [OF renders_DomainInterfaceMTU, where get = if_MTU and upd = if_MTU_update]
      set_children_pointer [OF renders_DomainAlias, where get = if_Alias and upd = if_Alias_update]
      set_children_pointer [OF renders_DomainAddress, where get = if_Address and upd = if_Address_update])

definition render_DomainSerialSource :: "xml_name \<Rightarrow> DomainSerialSource \<Rightarrow> xml" where
  "render_DomainSerialSource n v =
     Element n
       [(([], ''mode''), serialSource_Mode v), (([], ''host''), serialSource_Host v),
        (([], ''service''), serialSource_Service v)]
       ([])"

lemma renders_DomainSerialSource:
  "renders (\<lambda>_. True) {n} (render_DomainSerialSource n) zero_DomainSerialSource unmarshal_DomainSerialSource"
  by (simp add: decode_simps renders_def render_DomainSerialSource_def unmarshal_DomainSerialSource_def
      fields_DomainSerialSource_def zero_DomainSerialSource_def)

definition render_DomainSerialProtocol :: "xml_name \<Rightarrow> DomainSerialProtocol \<Rightarrow> xml" where
  "render_DomainSerialProtocol n v =
     Element n
       [(([], ''type''), serialProtocol_Type v)]
       ([])"

lemma renders_DomainSerialProtocol:
  "renders (\<lambda>_. True) {n} (render_DomainSerialProtocol n) zero_DomainSerialProtocol unmarshal_DomainSerialProtocol"
  by (simp add: decode_simps renders_def render_DomainSerialProtocol_def unmarshal_DomainSerialProtocol_def
      fields_DomainSerialProtocol_def zero_DomainSerialProtocol_def)

definition render_DomainSerialLog :: "xml_name \<Rightarrow> DomainSerialLog \<Rightarrow> xml" where
  "render_DomainSerialLog n v =
     Element n
       [(([], ''file''), serialLog_File v), (([], ''append''), serialLog_Append v)]
       ([])"

lemma renders_DomainSerialLog:
  "renders (\<lambda>_. True) {n} (render_DomainSerialLog n) zero_DomainSerialLog unmarshal_DomainSerialLog"
  by (simp add: decode_simps renders_def render_DomainSerialLog_def unmarshal_DomainSerialLog_def
      fields_DomainSerialLog_def zero_DomainSerialLog_def)

definition render_DomainSerialTarget :: "xml_name \<Rightarrow> DomainSerialTarget \<Rightarrow> xml" where
  "render_DomainSerialTarget n v =
     Element n
       [(([], ''port''), dec_int (sint (serialTarget_Port v)))]
       ([])"

lemma renders_DomainSerialTarget:
  "renders (\<lambda>_. True) {n} (render_DomainSerialTarget n) zero_DomainSerialTarget unmarshal_DomainSerialTarget"
  by (simp add: decode_simps renders_def render_DomainSerialTarget_def unmarshal_DomainSerialTarget_def
      fields_DomainSerialTarget_def zero_DomainSerialTarget_def)

definition render_DomainSerial :: "xml_name \<Rightarrow> DomainSerial \<Rightarrow> xml" where
  "render_DomainSerial n v =
     Element n
       [(([], ''type''), serial_Type v)]
       (opt_elem (render_DomainSerialSource ([], ''source'')) (serial_Source v) @
        opt_elem (render_DomainSerialProtocol ([], ''protocol'')) (serial_Protocol v) @
        opt_elem (render_DomainSerialLog ([], ''log'')) (serial_Log v) @
        opt_elem (render_DomainSerialTarget ([], ''target'')) (serial_Target v))"

lemma renders_DomainSerial:
  "renders (\<lambda>_. True) {n} (render_DomainSerial n) zero_DomainSerial unmarshal_DomainSerial"
  by (simp add: decode_simps renders_def render_DomainSerial_def unmarshal_DomainSerial_def fields_DomainSerial_def
      zero_DomainSerial_def
      set_children_pointer [OF renders_DomainSerialSource,
        where get = serial_Source and upd = serial_Source_update]
      set_children_pointer [OF renders_DomainSerialProtocol,
        where get = serial_Protocol and upd = serial_Protocol_update]
      set_children_pointer [OF renders_DomainSerialLog, where get = serial_Log and upd = serial_Log_update]
      set_children_pointer [OF renders_DomainSerialTarget,
        where get = serial_Target and upd = serial_Target_update])

definition render_DomainDevices :: "xml_name \<Rightarrow> DomainDevices \<Rightarrow> xml" where
  "render_DomainDevices n v =
     Element n
       []
       ([text_elem ([], ''emulator'') (devices_Emulator v)] @
        map (render_DomainDisk ([], ''disk'')) (devices_Disks v) @
        map (render_DomainInterface ([], ''interface'')) (devices_Interfaces v) @
        map (render_DomainSerial ([], ''serial'')) (devices_Serials v))"

lemma renders_DomainDevices:
  "renders (\<lambda>_. True) {n} (render_DomainDevices n) zero_DomainDevices unmarshal_DomainDevices"
  by (simp add: decode_simps renders_def render_DomainDevices_def unmarshal_DomainDevices_def fields_DomainDevices_def
      zero_DomainDevices_def
      set_children_slice [OF renders_DomainDisk, where get = devices_Disks and upd = devices_Disks_update]
      set_children_slice [OF renders_DomainInterface,
        where get = devices_Interfaces and upd = devices_Interfaces_update]
      set_children_slice [OF renders_DomainSerial, where get = devices_Serials and upd = devices_Serials_update])

definition render_DomainInfo :: "xml_name \<Rightarrow> DomainInfo \<Rightarrow> xml" where
  "render_DomainInfo n v =
     Element n
       [(([], ''type''), dom_Type v), (([], ''id''), dom_ID v)]
       ([text_elem ([], ''name'') (dom_Name v), text_elem ([], ''uuid'') (dom_UUID v)] @
        opt_elem (render_DomainMetadata ([], ''metadata'')) (dom_Metadata v) @
        opt_elem (render_DomainMemory ([], ''memory'')) (dom_Memory v) @
        opt_elem (render_DomainMemory ([], ''currentMemory'')) (dom_CurrentMemory v) @
        opt_elem (render_DomainMemoryBacking ([], ''memoryBacking'')) (dom_MemoryBacking v) @
        opt_elem (render_DomainVCPU ([], ''vcpu'')) (dom_VCPU v) @
        opt_elem (render_DomainCPUTune ([], ''cputune'')) (dom_CPUTune v) @
        opt_elem (render_DomainNumaTune ([], ''numatune'')) (dom_NumaTune v) @
        opt_elem (render_DomainResource ([], ''resource'')) (dom_Resource v) @
        opt_elem (render_DomainOS ([], ''os'')) (dom_OS v) @
        opt_elem (render_DomainCPU ([], ''cpu'')) (dom_CPU v) @
        opt_elem (render_DomainClock ([], ''clock'')) (dom_Clock v) @
        [text_elem ([], ''on_poweroff'') (dom_OnPoweroff v), text_elem ([], ''on_reboot'') (dom_OnReboot v), text_elem ([], ''on_crash'') (dom_OnCrash v)] @
        opt_elem (render_DomainDevices ([], ''devices'')) (dom_Devices v))"

definition nova_domain :: "DomainInfo \<Rightarrow> bool" where
  "nova_domain v \<longleftrightarrow> pred_option nova_metadata (dom_Metadata v)"

lemma renders_DomainInfo:
  "renders nova_domain {n} (render_DomainInfo n) zero_DomainInfo unmarshal_DomainInfo"
  by (simp add: decode_simps renders_def render_DomainInfo_def unmarshal_DomainInfo_def fields_DomainInfo_def
      zero_DomainInfo_def nova_domain_def
      set_children_pointer [OF renders_DomainMetadata, where get = dom_Metadata and upd = dom_Metadata_update]
      set_children_pointer [OF renders_DomainMemory, where get = dom_Memory and upd = dom_Memory_update]
      set_children_pointer [OF renders_DomainMemory,
        where get = dom_CurrentMemory and upd = dom_CurrentMemory_update]
      set_children_pointer [OF renders_DomainMemoryBacking,
        where get = dom_MemoryBacking and upd = dom_MemoryBacking_update]
      set_children_pointer [OF renders_DomainVCPU, where get = dom_VCPU and upd = dom_VCPU_update]
      set_children_pointer [OF renders_DomainCPUTune, where get = dom_CPUTune and upd = dom_CPUTune_update]
      set_children_pointer [OF renders_DomainNumaTune, where get = dom_NumaTune and upd = dom_NumaTune_update]
      set_children_pointer [OF renders_DomainResource, where get = dom_Resource and upd = dom_Resource_update]
      set_children_pointer [OF renders_DomainOS, where get = dom_OS and upd = dom_OS_update]
      set_children_pointer [OF renders_DomainCPU, where get = dom_CPU and upd = dom_CPU_update]
      set_children_pointer [OF renders_DomainClock, where get = dom_Clock and upd = dom_Clock_update]
      set_children_pointer [OF renders_DomainDevices, where get = dom_Devices and upd = dom_Devices_update])

end
