(* ===== verification/Clients.thy ===== *)
theory Clients
  imports World CapsDecode DomDecode
begin

text \<open>
  The three libvirt clients, \<^verbatim>\<open>internal/libvirt/capabilities/client.go\<close>,
  \<^verbatim>\<open>domcapabilities/client.go\<close> and \<^verbatim>\<open>dominfo/client.go\<close>, each in its two
  implementations: the one that asks libvirtd, and the emulator that decodes an embedded document.
  Documents are decoded by the tags of their structs; what turns a document into a tree of elements,
  the tokenizer of \<^verbatim>\<open>encoding/xml\<close>, is an argument. The Go interface \<^verbatim>\<open>Client\<close> is the locale
  \<open>query_client\<close>: a client only queries libvirtd.
\<close>

section \<open>Definitions\<close>

abbreviation Capabilities_of :: "xml_reader \<Rightarrow> string \<Rightarrow> goerr + Capabilities" where
  "Capabilities_of rd \<equiv> xml_Unmarshal rd unmarshal_Capabilities zero_Capabilities"

abbreviation DomainCapabilities_of :: "xml_reader \<Rightarrow> string \<Rightarrow> goerr + DomainCapabilities" where
  "DomainCapabilities_of rd \<equiv> xml_Unmarshal rd unmarshal_DomainCapabilities zero_DomainCapabilities"

abbreviation DomainInfo_of :: "xml_reader \<Rightarrow> string \<Rightarrow> goerr + DomainInfo" where
  "DomainInfo_of rd \<equiv> xml_Unmarshal rd unmarshal_DomainInfo zero_DomainInfo"

definition capabilities_Get ::
    "'q virt \<Rightarrow> xml_reader \<Rightarrow> 'q trace \<Rightarrow> (goerr + Capabilities) \<times> 'q trace" where
  "capabilities_Get V rd tr =
     (case ext VCapabilities (v_Capabilities V) tr of
        (Inl err, tr) \<Rightarrow> (Inl err, tr)
      | (Inr xml, tr) \<Rightarrow> (Capabilities_of rd xml, tr))"

definition capabilities_emulator_Get ::
    "xml_reader \<Rightarrow> string \<Rightarrow> 'q trace \<Rightarrow> (goerr + Capabilities) \<times> 'q trace" where
  "capabilities_emulator_Get rd exampleXML tr = (Capabilities_of rd exampleXML, tr)"

definition domcapabilities_Get ::
    "'q virt \<Rightarrow> xml_reader \<Rightarrow> 'q trace \<Rightarrow> (goerr + DomainCapabilities) \<times> 'q trace" where
  "domcapabilities_Get V rd tr =
     (case ext VGetDomainCapabilities (v_GetDomainCapabilities V) tr of
        (Inl err, tr) \<Rightarrow> (Inl err, tr)
      | (Inr xml, tr) \<Rightarrow> (DomainCapabilities_of rd xml, tr))"

definition domcapabilities_emulator_Get ::
    "xml_reader \<Rightarrow> string \<Rightarrow> 'q trace \<Rightarrow> (goerr + DomainCapabilities) \<times> 'q trace" where
  "domcapabilities_emulator_Get rd exampleXML tr = (DomainCapabilities_of rd exampleXML, tr)"

text \<open>The loop over the domains: the first failure ends it.\<close>

fun describe_domains ::
    "'q virt \<Rightarrow> xml_reader \<Rightarrow> Domain list \<Rightarrow> DomainInfo list \<Rightarrow> 'q trace
     \<Rightarrow> (goerr + DomainInfo list) \<times> 'q trace" where
  "describe_domains V rd [] infos tr = (Inr infos, tr)"
| "describe_domains V rd (d # ds) infos tr =
     (case ext (VGetXMLDesc d) (\<lambda>t. v_GetXMLDesc V t d) tr of
        (Inl err, tr) \<Rightarrow> (Inl err, tr)
      | (Inr xml, tr) \<Rightarrow>
          (case DomainInfo_of rd xml of
             Inl err \<Rightarrow> (Inl err, tr)
           | Inr info \<Rightarrow> describe_domains V rd ds (infos @ [info]) tr))"

definition dominfo_Get ::
    "'q virt \<Rightarrow> xml_reader \<Rightarrow> list_flag list \<Rightarrow> 'q trace
     \<Rightarrow> (goerr + DomainInfo list) \<times> 'q trace" where
  "dominfo_Get V rd flags tr =
     (case ext (VListAllDomains flags) (\<lambda>t. v_ListAllDomains V t flags) tr of
        (Inl err, tr) \<Rightarrow> (Inl err, tr)
      | (Inr domains, tr) \<Rightarrow> describe_domains V rd domains [] tr)"

definition dominfo_emulator_Get ::
    "xml_reader \<Rightarrow> string \<Rightarrow> list_flag list \<Rightarrow> 'q trace
     \<Rightarrow> (goerr + DomainInfo list) \<times> 'q trace" where
  "dominfo_emulator_Get rd exampleXML flags tr =
     (case DomainInfo_of rd exampleXML of Inl err \<Rightarrow> (Inl err, tr) | Inr info \<Rightarrow> (Inr [info], tr))"

section \<open>The interface\<close>

text \<open>The calls that only read at libvirtd.\<close>

fun is_query :: "'q ext_call \<Rightarrow> bool" where
  "is_query VCapabilities = True"
| "is_query VGetDomainCapabilities = True"
| "is_query (VListAllDomains fs) = True"
| "is_query (VGetXMLDesc d) = True"
| "is_query c = False"

locale query_client =
  fixes Get :: "'q trace \<Rightarrow> (goerr + 'a) \<times> 'q trace"
  assumes only_queries: "extends_by is_query tr (snd (Get tr))"
begin

lemma Get_queries: "Get tr = (r, tr') \<Longrightarrow> extends_by is_query tr tr'"
  using only_queries [of tr] by simp

lemma Get_keeps_other_calls: "Get tr = (r, tr') \<Longrightarrow> \<not> is_query c \<Longrightarrow> c \<in> set tr' \<longleftrightarrow> c \<in> set tr"
  by (auto dest!: Get_queries simp: extends_by_def list_all_iff)

end

lemma describe_domains_queries:
  "extends_by is_query s tr \<Longrightarrow> extends_by is_query s (snd (describe_domains V rd ds infos tr))"
  by (induction ds arbitrary: infos tr) (auto simp: ext_def split: sum.splits)

interpretation capabilities_client: query_client "capabilities_Get V rd" for V rd
  by unfold_locales (auto simp: capabilities_Get_def ext_def split: sum.splits)

interpretation capabilities_emulator: query_client "capabilities_emulator_Get rd doc" for rd doc
  by unfold_locales (simp add: capabilities_emulator_Get_def)

interpretation domcapabilities_client: query_client "domcapabilities_Get V rd" for V rd
  by unfold_locales (auto simp: domcapabilities_Get_def ext_def split: sum.splits)

interpretation domcapabilities_emulator: query_client "domcapabilities_emulator_Get rd doc" for rd doc
  by unfold_locales (simp add: domcapabilities_emulator_Get_def)

lemma dominfo_Get_queries: "extends_by is_query tr (snd (dominfo_Get V rd flags tr))"
  by (auto simp: dominfo_Get_def ext_def split: sum.splits intro!: describe_domains_queries)

interpretation dominfo_client: query_client "dominfo_Get V rd flags" for V rd flags
  by unfold_locales (rule dominfo_Get_queries)

interpretation dominfo_emulator: query_client "dominfo_emulator_Get rd doc flags" for rd doc flags
  by unfold_locales (auto simp: dominfo_emulator_Get_def split: sum.splits)

section \<open>Listing domains\<close>

text \<open>When every document decodes, the result has one entry per domain, in order.\<close>

lemma describe_domains_all:
  assumes "\<And>t d. d \<in> set ds \<Longrightarrow> \<exists>xml. v_GetXMLDesc V t d = Inr xml \<and> DomainInfo_of rd xml = Inr (info d)"
  shows "fst (describe_domains V rd ds infos tr) = Inr (infos @ map info ds)"
  using assms
proof (induction ds arbitrary: infos tr)
  case (Cons d ds)
  obtain xml where "v_GetXMLDesc V tr d = Inr xml" "DomainInfo_of rd xml = Inr (info d)"
    using Cons.prems [of d tr] by auto
  with Cons show ?case by (simp add: ext_def)
qed simp

lemma describe_domains_length:
  "fst (describe_domains V rd ds infos tr) = Inr r \<Longrightarrow> length r = length infos + length ds"
  by (induction ds arbitrary: infos tr) (auto simp: ext_def split: sum.splits)

end
