(* ===== verification/Utils.thy ===== *)
theory Utils
  imports GoFloat Quantity
begin

text \<open>
  \<^verbatim>\<open>internal/libvirt/utils.go\<close>, and \<^verbatim>\<open>formatLibvirtVersion\<close> of
  \<^verbatim>\<open>internal/libvirt/libvirt.go\<close>: printing of versions, UUIDs and byte counts, and the conversion
  of libvirt's memory units. The lemmas give each printer an inverse, show that the byte count never
  indexes past its table of unit letters and prints the nearest tenth, and that the memory
  conversion is exact as long as the product is an \<^verbatim>\<open>int64\<close>.
\<close>

section \<open>Definitions\<close>

definition formatLibvirtVersion :: "uint64 \<Rightarrow> string" where
  "formatLibvirtVersion version =
     (let major = version div 1000000; minor = (version div 1000) mod 1000; release = version mod 1000
      in dec (unat major) @ ''.'' @ dec (unat minor) @ ''.'' @ dec (unat release))"

text \<open>\<^verbatim>\<open>hex.Encode\<close> of the standard library.\<close>

definition hextable :: string where
  "hextable = ''0123456789abcdef''"

definition hex_byte :: "byte \<Rightarrow> string" where
  "hex_byte b = [hextable ! (unat b div 16), hextable ! (unat b mod 16)]"

definition hex_Encode :: "byte list \<Rightarrow> string" where
  "hex_Encode bs = concat (map hex_byte bs)"

text \<open>Writing a subslice of a buffer.\<close>

definition put_at :: "nat \<Rightarrow> 'a list \<Rightarrow> 'a list \<Rightarrow> 'a list" where
  "put_at i xs buf = take i buf @ xs @ drop (i + length xs) buf"

definition subslice :: "nat \<Rightarrow> nat \<Rightarrow> 'a list \<Rightarrow> 'a list" where
  "subslice i j xs = take (j - i) (drop i xs)"

type_synonym UUID = "byte list" \<comment> \<open>of length 16\<close>

definition UUID_String :: "UUID \<Rightarrow> string" where
  "UUID_String uuid =
     (let tmp = replicate 36 (char_of (0 :: nat));
          tmp = put_at 0 (hex_Encode (subslice 0 4 uuid)) tmp;
          tmp = tmp[8 := CHR ''-''];
          tmp = put_at 9 (hex_Encode (subslice 4 6 uuid)) tmp;
          tmp = tmp[13 := CHR ''-''];
          tmp = put_at 14 (hex_Encode (subslice 6 8 uuid)) tmp;
          tmp = tmp[18 := CHR ''-''];
          tmp = put_at 19 (hex_Encode (subslice 8 10 uuid)) tmp;
          tmp = tmp[23 := CHR ''-''];
          tmp = put_at 24 (hex_Encode (subslice 10 16 uuid)) tmp
      in tmp)"

text \<open>The loop of \<^verbatim>\<open>ByteCountIEC\<close>: \<open>n\<close>, \<open>div\<close> and \<open>exp\<close>.\<close>

function iec_loop :: "uint64 \<Rightarrow> int64 \<Rightarrow> nat \<Rightarrow> int64 \<times> nat" where
  "iec_loop n d e = (if 1024 \<le> n then iec_loop (n div 1024) (d * 1024) (e + 1) else (d, e))"
  by pat_completeness auto
termination
proof (relation "measure (\<lambda>(n, d, e). unat n)")
  fix n d :: "64 word" and e :: nat
  assume "1024 \<le> n"
  then have "1024 \<le> unat n" by (simp add: word_le_nat_alt)
  then show "((n div 1024, d * 1024, e + 1), (n, d, e)) \<in> measure (\<lambda>(n, d, e). unat n)"
    by (simp add: unat_div_distrib)
qed simp

declare iec_loop.simps [simp del]

definition ByteCountIEC :: "uint64 \<Rightarrow> string outcome" where
  "ByteCountIEC b =
     (if b < 1024 then Ret (dec (unat b) @ '' B'')
      else (case iec_loop (b div 1024) 1024 0 of (d, e) \<Rightarrow>
        if e < length ''KMGTPE''
        then Ret (fmt_1f (fdiv (float_of_int (uint b)) (float_of_int (sint d)))
                  @ '' '' @ [''KMGTPE'' ! e] @ ''iB'')
        else Panic ''index out of range''))"

definition MemoryToResource :: "'q quantity_api \<Rightarrow> int64 \<Rightarrow> string \<Rightarrow> goerr + 'q" where
  "MemoryToResource Q value unit =
     (if unit = ''KiB'' then Inr (NewQuantity Q (value * 1024) BinarySI)
      else if unit = ''MiB'' then Inr (NewQuantity Q (value * 1024 * 1024) BinarySI)
      else if unit = ''GiB'' then Inr (NewQuantity Q (value * 1024 * 1024 * 1024) BinarySI)
      else if unit = ''TiB'' then Inr (NewQuantity Q (value * 1024 * 1024 * 1024 * 1024) BinarySI)
      else Inl (ErrorsNew (''unknown memory unit '' @ unit)))"

section \<open>Versions\<close>

text \<open>Reading a version back: three decimal numbers separated by dots.\<close>

definition parse_version :: "string \<Rightarrow> (nat \<times> nat \<times> nat) option" where
  "parse_version s =
     (case split_n2 (CHR ''.'') s of
        [a, rest] \<Rightarrow> (case split_n2 (CHR ''.'') rest of
            [b, c] \<Rightarrow> Some (undec a, undec b, undec c)
          | _ \<Rightarrow> None)
      | _ \<Rightarrow> None)"

lemma dot_not_dec [simp]: "CHR ''.'' \<notin> set (dec n)"
  by (rule dec_no_char) (simp add: is_dec_digit_def)

lemma parse_version_dec:
  "parse_version (dec a @ ''.'' @ dec b @ ''.'' @ dec c) = Some (a, b, c)"
  by (simp add: parse_version_def split_n2_append)

lemma parse_formatLibvirtVersion:
  "parse_version (formatLibvirtVersion v)
     = Some (unat v div 1000000, (unat v div 1000) mod 1000, unat v mod 1000)"
  unfolding formatLibvirtVersion_def Let_def parse_version_dec
  by (simp add: unat_div_distrib unat_mod_distrib)

lemma formatLibvirtVersion_inject:
  "formatLibvirtVersion v = formatLibvirtVersion w \<longleftrightarrow> v = w"
proof
  assume "formatLibvirtVersion v = formatLibvirtVersion w"
  then have "parse_version (formatLibvirtVersion v) = parse_version (formatLibvirtVersion w)"
    by (rule arg_cong)
  then have *: "unat v div 1000000 = unat w div 1000000"
      "(unat v div 1000) mod 1000 = (unat w div 1000) mod 1000" "unat v mod 1000 = unat w mod 1000"
    by (simp_all only: parse_formatLibvirtVersion option.inject prod.inject)
  have split: "n = (n div 1000000) * 1000000 + ((n div 1000) mod 1000) * 1000 + n mod 1000" for n :: nat
  proof -
    have "n div 1000000 = n div 1000 div 1000" by (simp add: div_mult2_eq [symmetric])
    moreover have "n = n div 1000 * 1000 + n mod 1000" by simp
    moreover have "n div 1000 = n div 1000 div 1000 * 1000 + n div 1000 mod 1000" by simp
    ultimately show ?thesis by linarith
  qed
  have "unat v = unat w"
    using * split [of "unat v"] split [of "unat w"] by simp
  then show "v = w" by (rule unsigned_word_eqI)
qed simp

section \<open>UUIDs\<close>

definition unhex :: "char \<Rightarrow> nat option" where
  "unhex c = (let i = length (takeWhile (\<lambda>x. x \<noteq> c) hextable)
              in if i < 16 then Some i else None)"

fun unhex_list :: "string \<Rightarrow> byte list option" where
  "unhex_list [] = Some []"
| "unhex_list (x # y # zs) =
     (case (unhex x, unhex y, unhex_list zs) of
        (Some a, Some b, Some bs) \<Rightarrow> Some (of_nat (16 * a + b) # bs)
      | _ \<Rightarrow> None)"
| "unhex_list _ = None"

definition uuid_parse :: "string \<Rightarrow> UUID option" where
  "uuid_parse s =
     (if length s = 36 \<and> s ! 8 = CHR ''-'' \<and> s ! 13 = CHR ''-'' \<and> s ! 18 = CHR ''-''
         \<and> s ! 23 = CHR ''-''
      then unhex_list (subslice 0 8 s @ subslice 9 13 s @ subslice 14 18 s @ subslice 19 23 s @ subslice 24 36 s)
      else None)"

lemma unhex_hextable: "n < 16 \<Longrightarrow> unhex (hextable ! n) = Some n"
proof -
  have "\<forall>n \<in> set [0..<16]. unhex (hextable ! n) = Some n" by code_simp
  then show "n < 16 \<Longrightarrow> unhex (hextable ! n) = Some n" by simp
qed

lemma unhex_hex_Encode: "unhex_list (hex_Encode bs) = Some bs"
proof (induction bs)
  case Nil
  then show ?case by (simp add: hex_Encode_def)
next
  case (Cons b bs)
  have "unat b < 256" using unsigned_less [of b] by simp
  then have "unhex (hextable ! (unat b div 16)) = Some (unat b div 16)"
    and "unhex (hextable ! (unat b mod 16)) = Some (unat b mod 16)"
    by (auto intro: unhex_hextable)
  moreover have "of_nat (16 * (unat b div 16) + unat b mod 16) = b"
    by (simp del: of_nat_add)
  ultimately show ?case using Cons by (simp add: hex_Encode_def hex_byte_def del: of_nat_add)
qed

lemma hex_Encode_append: "hex_Encode (xs @ ys) = hex_Encode xs @ hex_Encode ys"
  by (simp add: hex_Encode_def)

lemma length_hex_Encode [simp]: "length (hex_Encode bs) = 2 * length bs"
  by (induction bs) (simp_all add: hex_Encode_def hex_byte_def)

lemma length_slice [simp]: "length (subslice i j xs) = min (j - i) (length xs - i)"
  by (simp add: subslice_def)

text \<open>Filling a zeroed buffer from the left.\<close>

lemma put_at_fill:
  "i = length X \<Longrightarrow> put_at i ys (X @ replicate k z) = X @ ys @ replicate (k - length ys) z"
  by (simp add: put_at_def)

lemma update_fill:
  "i = length X \<Longrightarrow> 0 < k \<Longrightarrow> (X @ replicate k z)[i := c] = X @ [c] @ replicate (k - 1) z"
  by (cases k) (simp_all add: list_update_append)

lemma UUID_String_groups:
  assumes "length u = 16"
  shows "UUID_String u =
           hex_Encode (subslice 0 4 u) @ ''-'' @ hex_Encode (subslice 4 6 u) @ ''-'' @
           hex_Encode (subslice 6 8 u) @ ''-'' @ hex_Encode (subslice 8 10 u) @ ''-'' @
           hex_Encode (subslice 10 16 u)"
proof -
  obtain a b c d e where abcde:
    "hex_Encode (subslice 0 4 u) = a" "hex_Encode (subslice 4 6 u) = b" "hex_Encode (subslice 6 8 u) = c"
    "hex_Encode (subslice 8 10 u) = d" "hex_Encode (subslice 10 16 u) = e" by blast
  have len: "length a = 8" "length b = 4" "length c = 4" "length d = 4" "length e = 12"
    using assms abcde [symmetric] by simp_all
  let ?z = "char_of (0 :: nat)" and ?D = "''-''"
  have 1: "put_at 0 a (replicate 36 ?z) = a @ replicate 28 ?z"
    using put_at_fill [of 0 "[]" a 36 ?z] len by simp
  have 2: "(a @ replicate 28 ?z)[8 := CHR ''-''] = (a @ ?D) @ replicate 27 ?z"
    using update_fill [of 8 a 28 ?z] len by simp
  have 3: "put_at 9 b ((a @ ?D) @ replicate 27 ?z) = (a @ ?D @ b) @ replicate 23 ?z"
    using put_at_fill [of 9 "a @ ?D" b 27 ?z] len by simp
  have 4: "((a @ ?D @ b) @ replicate 23 ?z)[13 := CHR ''-''] = (a @ ?D @ b @ ?D) @ replicate 22 ?z"
    using update_fill [of 13 "a @ ?D @ b" 23 ?z] len by simp
  have 5: "put_at 14 c ((a @ ?D @ b @ ?D) @ replicate 22 ?z) = (a @ ?D @ b @ ?D @ c) @ replicate 18 ?z"
    using put_at_fill [of 14 "a @ ?D @ b @ ?D" c 22 ?z] len by simp
  have 6: "((a @ ?D @ b @ ?D @ c) @ replicate 18 ?z)[18 := CHR ''-'']
      = (a @ ?D @ b @ ?D @ c @ ?D) @ replicate 17 ?z"
    using update_fill [of 18 "a @ ?D @ b @ ?D @ c" 18 ?z] len by simp
  have 7: "put_at 19 d ((a @ ?D @ b @ ?D @ c @ ?D) @ replicate 17 ?z)
      = (a @ ?D @ b @ ?D @ c @ ?D @ d) @ replicate 13 ?z"
    using put_at_fill [of 19 "a @ ?D @ b @ ?D @ c @ ?D" d 17 ?z] len by simp
  have 8: "((a @ ?D @ b @ ?D @ c @ ?D @ d) @ replicate 13 ?z)[23 := CHR ''-'']
      = (a @ ?D @ b @ ?D @ c @ ?D @ d @ ?D) @ replicate 12 ?z"
    using update_fill [of 23 "a @ ?D @ b @ ?D @ c @ ?D @ d" 13 ?z] len by simp
  have 9: "put_at 24 e ((a @ ?D @ b @ ?D @ c @ ?D @ d @ ?D) @ replicate 12 ?z)
      = a @ ?D @ b @ ?D @ c @ ?D @ d @ ?D @ e"
    using put_at_fill [of 24 "a @ ?D @ b @ ?D @ c @ ?D @ d @ ?D" e 12 ?z] len by simp
  show ?thesis
    unfolding UUID_String_def abcde Let_def 1 2 3 4 5 6 7 8 9 by (rule refl)
qed

lemma slice_append_skip: "length xs \<le> i \<Longrightarrow> subslice i j (xs @ ys) = subslice (i - length xs) (j - length xs) ys"
  by (simp add: subslice_def)

lemma slice_append_take: "j = length xs \<Longrightarrow> subslice 0 j (xs @ ys) = xs"
  by (simp add: subslice_def)

lemma slice_all: "length xs \<le> j \<Longrightarrow> subslice 0 j xs = xs"
  by (simp add: subslice_def)

lemma slice_join: "i \<le> j \<Longrightarrow> j \<le> k \<Longrightarrow> subslice i j xs @ subslice j k xs = subslice i k xs"
  using take_add [of "j - i" "k - j" "drop i xs"] by (simp add: subslice_def)

lemma slices_join:
  "length u = 16 \<Longrightarrow> subslice 0 4 u @ subslice 4 6 u @ subslice 6 8 u @ subslice 8 10 u @ subslice 10 16 u = u"
  by (simp add: slice_join slice_all)

lemma uuid_parse_groups:
  assumes "length a = 8" "length b = 4" "length c = 4" "length d = 4" "length e = 12"
  shows "uuid_parse (a @ ''-'' @ b @ ''-'' @ c @ ''-'' @ d @ ''-'' @ e) = unhex_list (a @ b @ c @ d @ e)"
proof -
  have nth: "(X @ CHR ''-'' # Y) ! length X = CHR ''-''" for X Y :: string by simp
  let ?s = "a @ ''-'' @ b @ ''-'' @ c @ ''-'' @ d @ ''-'' @ e"
  have "?s ! 8 = CHR ''-''" using nth [of a] assms by simp
  moreover have "?s ! 13 = CHR ''-''" using nth [of "a @ ''-'' @ b"] assms by simp
  moreover have "?s ! 18 = CHR ''-''" using nth [of "a @ ''-'' @ b @ ''-'' @ c"] assms by simp
  moreover have "?s ! 23 = CHR ''-''" using nth [of "a @ ''-'' @ b @ ''-'' @ c @ ''-'' @ d"] assms by simp
  moreover have "subslice 0 8 ?s = a" using assms by (simp add: slice_append_take)
  moreover have "subslice 9 13 ?s = b"
    using slice_append_skip [of "a @ ''-''" 9 13] assms by (simp add: slice_append_take)
  moreover have "subslice 14 18 ?s = c"
    using slice_append_skip [of "a @ ''-'' @ b @ ''-''" 14 18] assms by (simp add: slice_append_take)
  moreover have "subslice 19 23 ?s = d"
    using slice_append_skip [of "a @ ''-'' @ b @ ''-'' @ c @ ''-''" 19 23] assms
    by (simp add: slice_append_take)
  moreover have "subslice 24 36 ?s = e"
    using slice_append_skip [of "a @ ''-'' @ b @ ''-'' @ c @ ''-'' @ d @ ''-''" 24 36] assms
    by (simp add: slice_all)
  moreover have "length ?s = 36" using assms by simp
  ultimately show ?thesis by (simp only: uuid_parse_def if_True simp_thms)
qed

lemma uuid_parse_UUID_String:
  assumes "length u = 16"
  shows "uuid_parse (UUID_String u) = Some u"
proof -
  have "uuid_parse (UUID_String u)
      = unhex_list (hex_Encode (subslice 0 4 u @ subslice 4 6 u @ subslice 6 8 u @ subslice 8 10 u @ subslice 10 16 u))"
    unfolding UUID_String_groups [OF assms] hex_Encode_append
    by (rule uuid_parse_groups) (simp_all add: assms)
  then show ?thesis using assms by (simp add: slices_join unhex_hex_Encode)
qed

lemma length_UUID_String: "length u = 16 \<Longrightarrow> length (UUID_String u) = 36"
  by (simp add: UUID_String_groups)

section \<open>Byte counts\<close>

text \<open>
  The loop finds the largest power of 1024 that does not exceed its argument: \<open>j\<close> rounds multiply
  the divisor by \<open>1024 ^ j\<close>.
\<close>

lemma div_1024_pos:
  fixes n :: nat
  assumes "1024 \<le> n" and "j = 0 \<or> 1 \<le> n div 1024 div 1024 ^ j"
  shows "1 \<le> n div 1024 ^ Suc j"
proof (cases "j = 0")
  case True
  with assms(1) show ?thesis by (simp add: Suc_leI div_greater_zero_iff)
next
  case False
  with assms(2) show ?thesis by (simp add: div_mult2_eq)
qed

lemma iec_loop_spec:
  "\<exists>j. iec_loop n d e = (d * 1024 ^ j, e + j) \<and> unat n div 1024 ^ j < 1024
       \<and> (j = 0 \<or> 1 \<le> unat n div 1024 ^ j)"
proof (induction n d e rule: iec_loop.induct)
  case (1 n d e)
  show ?case
  proof (cases "1024 \<le> n")
    case False
    then have "unat n < 1024" by (simp add: word_le_nat_alt)
    with False show ?thesis by (intro exI [of _ 0]) (simp add: iec_loop.simps [of n])
  next
    case True
    then have un: "1024 \<le> unat n" by (simp add: word_le_nat_alt)
    have dn: "unat (n div 1024) = unat n div 1024" by (simp add: unat_div_distrib)
    from "1.IH" [OF True] obtain j where j:
      "iec_loop (n div 1024) (d * 1024) (e + 1) = (d * 1024 * 1024 ^ j, e + 1 + j)"
      "unat (n div 1024) div 1024 ^ j < 1024" "j = 0 \<or> 1 \<le> unat (n div 1024) div 1024 ^ j"
      by blast
    have step: "unat (n div 1024) div 1024 ^ j = unat n div 1024 ^ Suc j"
      by (simp add: dn div_mult2_eq)
    have "1 \<le> unat n div 1024 ^ Suc j"
      using j(3) un by (intro div_1024_pos) (simp_all add: dn)
    then show ?thesis
      using True j step by (intro exI [of _ "Suc j"]) (simp add: iec_loop.simps [of n] mult.assoc)
  qed
qed

lemma iec_loop_bytes:
  assumes "1024 \<le> b"
  obtains j where "iec_loop (b div 1024) 1024 0 = (1024 ^ Suc j, j)" and "j \<le> 5"
    and "1024 ^ Suc j \<le> unat b" and "unat b < 1024 ^ Suc (Suc j)"
proof -
  have ub: "1024 \<le> unat b" "unat b < 2 ^ 64"
    using assms unsigned_less [of b] by (simp_all add: word_le_nat_alt)
  have db: "unat (b div 1024) = unat b div 1024" by (simp add: unat_div_distrib)
  obtain j where j: "iec_loop (b div 1024) 1024 0 = (1024 * 1024 ^ j, 0 + j)"
      "unat (b div 1024) div 1024 ^ j < 1024" "j = 0 \<or> 1 \<le> unat (b div 1024) div 1024 ^ j"
    using iec_loop_spec [of "b div 1024" 1024 0] by blast
  have step: "unat (b div 1024) div 1024 ^ j = unat b div 1024 ^ Suc j"
    by (simp add: db div_mult2_eq)
  have "1 \<le> unat b div 1024 ^ Suc j"
    using j(3) ub by (intro div_1024_pos) (simp_all add: db)
  then have lo: "1024 ^ Suc j \<le> unat b"
    by (metis One_nat_def Suc_le_eq div_greater_zero_iff)
  have hi: "unat b < 1024 ^ Suc (Suc j)"
    using j(2) unfolding step by (simp add: div_less_iff_less_mult mult.commute)
  have "(1024 :: nat) ^ Suc j < 2 ^ 64" using lo ub(2) by linarith
  moreover have "(1024 :: nat) ^ Suc j = 2 ^ (10 * Suc j)" unfolding power_mult by simp
  ultimately have "(2 :: nat) ^ (10 * Suc j) < 2 ^ 64" by simp
  then have "10 * Suc j < 64" by (rule power_less_imp_less_exp [rotated]) simp
  then have "j \<le> 5" by simp
  with that j(1) lo hi show thesis by simp
qed

text \<open>
  For counts a \<^verbatim>\<open>float64\<close> holds exactly, the printed number is the count divided by the power of
  1024, to the nearest tenth.
\<close>

definition iec_text :: "nat \<Rightarrow> nat \<Rightarrow> string" where
  "iec_text b j =
     (let t = nat (rne_shift (10 * int b) (10 * Suc j))
      in dec (t div 10) @ ''.'' @ dec (t mod 10) @ '' '' @ [''KMGTPE'' ! j] @ ''iB'')"

lemma sint_1024_pow:
  assumes "j \<le> 5"
  shows "sint (1024 ^ Suc j :: int64) = 2 ^ (10 * Suc j)"
proof -
  have "\<forall>j \<in> set [0..<6]. sint (1024 ^ Suc j :: int64) = 2 ^ (10 * Suc j)" by code_simp
  then show ?thesis using assms by simp
qed

lemma ByteCountIEC_prefix:
  assumes "1024 \<le> b"
  obtains j where "j \<le> 5" and "1024 ^ Suc j \<le> unat b" and "unat b < 1024 ^ Suc (Suc j)"
    and "ByteCountIEC b = Ret (fmt_1f (fdiv (float_of_int (uint b)) (float_of_int (2 ^ (10 * Suc j))))
                  @ '' '' @ [''KMGTPE'' ! j] @ ''iB'')"
proof -
  obtain j where j: "iec_loop (b div 1024) 1024 0 = (1024 ^ Suc j, j)" "j \<le> 5"
      "1024 ^ Suc j \<le> unat b" "unat b < 1024 ^ Suc (Suc j)"
    using iec_loop_bytes [OF assms] .
  have "\<not> b < 1024" using assms by simp
  then have "ByteCountIEC b = Ret (fmt_1f (fdiv (float_of_int (uint b)) (float_of_int (2 ^ (10 * Suc j))))
                  @ '' '' @ [''KMGTPE'' ! j] @ ''iB'')"
    using j(2) unfolding ByteCountIEC_def j(1) prod.case sint_1024_pow [OF j(2)] by simp
  with that j(2-4) show thesis .
qed

lemma ByteCountIEC_nearest_tenth:
  assumes "1024 \<le> b" and "unat b < 2 ^ 53"
  obtains j where "j \<le> 5" and "1024 ^ Suc j \<le> unat b" and "unat b < 1024 ^ Suc (Suc j)"
    and "ByteCountIEC b = Ret (iec_text (unat b) j)"
proof -
  obtain j where j: "j \<le> 5" "1024 ^ Suc j \<le> unat b" "unat b < 1024 ^ Suc (Suc j)"
    and eq: "ByteCountIEC b = Ret (fmt_1f (fdiv (float_of_int (uint b)) (float_of_int (2 ^ (10 * Suc j))))
                  @ '' '' @ [''KMGTPE'' ! j] @ ''iB'')"
    using ByteCountIEC_prefix [OF assms(1)] .
  have b: "uint b = int (unat b)" by simp
  have "0 < unat b" using assms(1) by (simp add: word_le_nat_alt)
  moreover have "int (unat b) < int (2 ^ 53)" using assms(2) by (simp only: of_nat_less_iff)
  ultimately have pos: "0 < uint b" "uint b < 2 ^ 53"
    unfolding b by (simp_all only: of_nat_0_less_iff of_nat_power of_nat_numeral)
  have "fmt_1f (fdiv (float_of_int (uint b)) (float_of_int (2 ^ (10 * Suc j))))
      = (let t = nat (rne_shift (10 * uint b) (10 * Suc j)) in dec (t div 10) @ ''.'' @ dec (t mod 10))"
    using j(1) by (intro fmt_1f_div_pow2 pos) simp_all
  then have "ByteCountIEC b = Ret (iec_text (unat b) j)"
    unfolding eq iec_text_def b by (simp only: Let_def append_assoc)
  with that j show thesis .
qed

section \<open>Memory units\<close>

fun unit_bytes :: "string \<Rightarrow> int option" where
  "unit_bytes u = map_of [(''KiB'', 2 ^ 10), (''MiB'', 2 ^ 20), (''GiB'', 2 ^ 30), (''TiB'', 2 ^ 40)] u"

lemma MemoryToResource_value:
  assumes "quantity_laws Q whole" and "unit_bytes u = Some k"
    and "int64_range (sint v * k)"
  obtains q where "MemoryToResource Q v u = Inr q" and "whole q" and "qint Q q = sint v * k"
    and "QuantityFormat Q q = BinarySI"
proof -
  note laws = quantity_lawsD [OF assms(1)]
  have k: "k \<in> {2 ^ 10, 2 ^ 20, 2 ^ 30, 2 ^ 40}" and u: "u \<in> {''KiB'', ''MiB'', ''GiB'', ''TiB''}"
    using assms(2) by (auto split: if_splits)
  have eq: "MemoryToResource Q v u = Inr (NewQuantity Q (v * word_of_int k) BinarySI)"
    using assms(2) by (auto simp: MemoryToResource_def mult.assoc split: if_splits)
  have "sint (word_of_int k :: int64) = k"
    by (rule sint_word_of_int64) (use k in \<open>auto simp: int64_range_def\<close>)
  then have "sint (v * word_of_int k) = sint v * k"
    using assms(3) sint_times_int64 [of v "word_of_int k"] by simp
  with that eq laws(1,2,3) show thesis by auto
qed

lemma MemoryToResource_error:
  "(\<exists>e. MemoryToResource Q v u = Inl e) \<longleftrightarrow> unit_bytes u = None"
  by (auto simp: MemoryToResource_def)

section \<open>Properties\<close>

text \<open>
  A libvirt version number prints as major, minor and release, which reading the text back
  recovers; in particular different versions never print alike.
\<close>

lemma formatLibvirtVersion_roundtrip:
  "parse_version (formatLibvirtVersion v)
     = Some (unat v div 1000000, (unat v div 1000) mod 1000, unat v mod 1000)
   \<and> (formatLibvirtVersion v = formatLibvirtVersion w \<longleftrightarrow> v = w)"
  by (simp add: parse_formatLibvirtVersion formatLibvirtVersion_inject)

text \<open>
  The text of a UUID has 36 characters and reads back to the sixteen bytes: the name of the
  migration object of a domain determines the domain's UUID.
\<close>

lemma UUID_String_roundtrip:
  assumes "length u = 16"
  shows "length (UUID_String u) = 36 \<and> uuid_parse (UUID_String u) = Some u"
  using assms by (simp add: uuid_parse_UUID_String length_UUID_String)

text \<open>
  C40. \<^verbatim>\<open>ByteCountIEC\<close> never indexes past its table of unit letters, for any 64-bit count; and for a
  count below \<open>2 ^ 53\<close> it prints the count over the largest power of 1024 not above it, to the
  nearest tenth, with that power's letter.
\<close>

theorem ByteCountIEC_correct:
  "(\<exists>s. ByteCountIEC b = Ret s) \<and>
   (1024 \<le> b \<and> unat b < 2 ^ 53 \<longrightarrow>
      (\<exists>j \<le> 5. 1024 ^ Suc j \<le> unat b \<and> unat b < 1024 ^ Suc (Suc j)
             \<and> ByteCountIEC b = Ret (iec_text (unat b) j)))"
proof (cases "1024 \<le> b")
  case True
  obtain s where "ByteCountIEC b = Ret s"
    using ByteCountIEC_prefix [OF True] by blast
  moreover have "unat b < 2 ^ 53 \<longrightarrow> (\<exists>j \<le> 5. 1024 ^ Suc j \<le> unat b \<and> unat b < 1024 ^ Suc (Suc j)
             \<and> ByteCountIEC b = Ret (iec_text (unat b) j))"
    using ByteCountIEC_nearest_tenth [OF True] by (metis (no_types))
  ultimately show ?thesis by blast
next
  case False
  then have "b < 1024" by (simp add: not_le)
  then have "ByteCountIEC b = Ret (dec (unat b) @ '' B'')" by (simp add: ByteCountIEC_def)
  with False show ?thesis by blast
qed

theorem ByteCountIEC_correct_witness:
  "\<exists>j \<le> 5. 1024 ^ Suc j \<le> unat (1536 :: uint64) \<and> unat (1536 :: uint64) < 1024 ^ Suc (Suc j)
          \<and> ByteCountIEC 1536 = Ret (iec_text (unat (1536 :: uint64)) j)"
  using ByteCountIEC_correct [of 1536] by simp

text \<open>
  The conversion of a libvirt memory value fails exactly on a unit outside KiB, MiB, GiB and
  TiB; otherwise the quantity is the exact number of bytes, as long as that number is an \<^verbatim>\<open>int64\<close>.
\<close>

lemma MemoryToResource_correct:
  assumes "quantity_laws Q whole" and "\<And>k. unit_bytes u = Some k \<Longrightarrow> int64_range (sint v * k)"
  shows "case unit_bytes u of
           None \<Rightarrow> MemoryToResource Q v u = Inl (ErrorsNew (''unknown memory unit '' @ u))
         | Some k \<Rightarrow> (\<exists>q. MemoryToResource Q v u = Inr q \<and> whole q \<and> qint Q q = sint v * k
                          \<and> QuantityFormat Q q = BinarySI)"
proof (cases "unit_bytes u")
  case None
  then show ?thesis by (auto simp: MemoryToResource_def split: if_splits)
next
  case (Some k)
  obtain q where "MemoryToResource Q v u = Inr q" "whole q" "qint Q q = sint v * k"
      "QuantityFormat Q q = BinarySI"
    using MemoryToResource_value [OF assms(1) Some assms(2) [OF Some]] .
  with Some show ?thesis by simp
qed

lemma MemoryToResource_correct_example:
  "\<exists>q. MemoryToResource int_quantity_api 3 ''MiB'' = Inr q \<and> qint int_quantity_api q = 3 * 2 ^ 20
       \<and> QuantityFormat int_quantity_api q = BinarySI"
  using MemoryToResource_correct [OF int_quantity_laws, of "''MiB''" 3] by (simp add: int64_range_def)

end
