(* ===== verification/LibvirtConn.thy ===== *)
theory LibvirtConn
  imports World Utils "HOL-Library.AList" "HOL-Library.Multiset"
begin

text \<open>
  The connection half of \<^verbatim>\<open>internal/libvirt/libvirt.go\<close>: the struct \<^verbatim>\<open>LibVirt\<close>,
  \<^verbatim>\<open>NewLibVirt\<close>, \<^verbatim>\<open>Connect\<close>, \<^verbatim>\<open>Close\<close>, \<^verbatim>\<open>WatchDomainChanges\<close> and the event loop
  \<^verbatim>\<open>runEventLoop\<close>. Go maps whose iteration order matters are association lists; where the code
  ranges over one, the order is an argument \<open>ord\<close> that must be a permutation. A handler is named by
  the function it calls. The mutexes protect single map accesses and have no sequential effect.
\<close>

section \<open>Definitions\<close>

datatype handler_fn = OnLifecycleEvent | OnMigrationIteration | OnJobCompleted | TriggerReconcile
  | OtherHandler nat

record LibVirt =
  lv_socket :: string
  lv_migrationJobs :: "(string \<times> nat) list" \<comment> \<open>domain name to the cancel function, by number\<close>
  lv_version :: string
  lv_hypervisorVersion :: string
  lv_domEventChs :: "DomainEventID list" \<comment> \<open>the events with a channel\<close>
  lv_domEventChangeHandlers :: "(DomainEventID \<times> (string \<times> handler_fn) list) list"

definition NewLibVirt :: "(string \<Rightarrow> string) \<Rightarrow> LibVirt" where
  "NewLibVirt getenv =
     (let socketPath = (if getenv ''LIBVIRT_SOCKET'' = [] then ''/run/libvirt/libvirt-sock''
                        else getenv ''LIBVIRT_SOCKET'')
      in \<lparr>lv_socket = socketPath, lv_migrationJobs = [], lv_version = ''N/A'',
          lv_hypervisorVersion = ''N/A'', lv_domEventChs = [], lv_domEventChangeHandlers = []\<rparr>)"

definition WatchDomainChanges ::
    "'q virt \<Rightarrow> DomainEventID \<Rightarrow> string \<Rightarrow> handler_fn \<Rightarrow> LibVirt \<Rightarrow> 'q trace \<Rightarrow> LibVirt \<times> 'q trace" where
  "WatchDomainChanges V eventId handlerId handler l tr =
     (let hs = (case map_of (lv_domEventChangeHandlers l) eventId of None \<Rightarrow> [] | Some hs \<Rightarrow> hs);
          l = l\<lparr>lv_domEventChangeHandlers :=
                  AList.update eventId (AList.update handlerId handler hs) (lv_domEventChangeHandlers l)\<rparr>
      in if eventId \<in> set (lv_domEventChs l) then (l, tr)
         else (case ext (VSubscribeEvents eventId) (\<lambda>t. v_SubscribeEvents V t eventId) tr of
                 (Some err, tr) \<Rightarrow> (l, tr)
               | (None, tr) \<Rightarrow> (l\<lparr>lv_domEventChs := lv_domEventChs l @ [eventId]\<rparr>, tr)))"

text \<open>The two version queries of \<^verbatim>\<open>Connect\<close>: on an error the old value stays.\<close>

definition connect_versions :: "'q virt \<Rightarrow> LibVirt \<Rightarrow> 'q trace \<Rightarrow> LibVirt \<times> 'q trace" where
  "connect_versions V l tr =
     (let (r, tr) = ext VGetLibVersion (v_GetLibVersion V) tr;
          l = (case r of Inl err \<Rightarrow> l | Inr v \<Rightarrow> l\<lparr>lv_version := formatLibvirtVersion v\<rparr>);
          (r, tr) = ext VGetVersion (v_GetVersion V) tr;
          l = (case r of Inl err \<Rightarrow> l | Inr v \<Rightarrow> l\<lparr>lv_hypervisorVersion := formatLibvirtVersion v\<rparr>)
      in (l, tr))"

definition connect_watches :: "'q virt \<Rightarrow> LibVirt \<Rightarrow> 'q trace \<Rightarrow> LibVirt \<times> 'q trace" where
  "connect_watches V l tr =
     (let (l, tr) = WatchDomainChanges V DomainEventIDLifecycle ''lifecycle-handler'' OnLifecycleEvent l tr;
          (l, tr) = WatchDomainChanges V DomainEventIDMigrationIteration ''migration-iteration-handler''
                      OnMigrationIteration l tr
      in WatchDomainChanges V DomainEventIDJobCompleted ''job-completed-handler'' OnJobCompleted l tr)"

text \<open>
  \<^verbatim>\<open>Connect\<close>. The result says, beside the error, whether the event loop was started.
\<close>

definition Connect ::
    "'q virt \<Rightarrow> (string \<Rightarrow> string option) \<Rightarrow> LibVirt \<Rightarrow> 'q trace \<Rightarrow> (goerr option \<times> bool) \<times> LibVirt \<times> 'q trace" where
  "Connect V lookupEnv l tr =
     (case ext VIsConnected (v_IsConnected V) tr of
        (True, tr) \<Rightarrow> ((None, False), l, tr)
      | (False, tr) \<Rightarrow>
          (let uri = (case lookupEnv ''LIBVIRT_DEFAULT_URI'' of Some u \<Rightarrow> u | None \<Rightarrow> ''ch:///system'')
           in case ext (VConnectToURI uri) (\<lambda>t. v_ConnectToURI V t uri) tr of
                (Some err, tr) \<Rightarrow> ((Some err, False), l, tr)
              | (None, tr) \<Rightarrow>
                  (let (l, tr) = connect_versions V l tr; (l, tr) = connect_watches V l tr
                   in ((None, True), l, tr))))"

definition LibVirt_Close :: "'q virt \<Rightarrow> 'q trace \<Rightarrow> goerr option \<times> 'q trace" where
  "LibVirt_Close V tr =
     (case ext VRegisterCloseCallback (v_RegisterCloseCallback V) tr of
        (Some err, tr) \<Rightarrow> (Some err, tr)
      | (None, tr) \<Rightarrow> ext VDisconnect (v_Disconnect V) tr)"

text \<open>
  The event loop. Each round selects over one channel per subscribed event, the context and the
  disconnect channel, in this order; \<open>ord\<close> is the iteration order of the channel map. The outcome
  of \<^verbatim>\<open>reflect.Select\<close> (the chosen case, whether the channel was open, and the value) is the next
  element of the input. A round dispatches the value to handlers, stops, or panics.
\<close>

datatype 'v round = Dispatch "handler_fn list" 'v | Continue | Shutdown | Crash string

definition event_round ::
    "(DomainEventID list \<Rightarrow> DomainEventID list) \<Rightarrow> ((string \<times> handler_fn) list \<Rightarrow> (string \<times> handler_fn) list)
     \<Rightarrow> LibVirt \<Rightarrow> nat \<times> bool \<times> 'v \<Rightarrow> 'v round" where
  "event_round ord hord l sel =
     (case sel of (chosen, ok, value) \<Rightarrow>
       (let eventIds = ord (lv_domEventChs l);
            caseCtxDone = length eventIds;
            caseLibvirtDisconnected = length eventIds + 1
        in if \<not> ok \<or> chosen = caseLibvirtDisconnected then Crash ''libvirt connection closed''
           else if chosen = caseCtxDone then Shutdown
           else if length eventIds \<le> chosen then Continue
           else (case map_of (lv_domEventChangeHandlers l) (eventIds ! chosen) of
                   None \<Rightarrow> Continue
                 | Some handlers \<Rightarrow> Dispatch (map snd (hord handlers)) value)))"

text \<open>
  The calls made by the loop over a sequence of rounds, and how it ended. Each round comes with the object it finds, since
  handlers may be registered between two rounds, and with the outcome of its selection.
\<close>

fun runEventLoop ::
    "(DomainEventID list \<Rightarrow> DomainEventID list) \<Rightarrow> ((string \<times> handler_fn) list \<Rightarrow> (string \<times> handler_fn) list)
     \<Rightarrow> (LibVirt \<times> nat \<times> bool \<times> 'v) list \<Rightarrow> (handler_fn \<times> 'v) list \<times> unit outcome option" where
  "runEventLoop ord hord [] = ([], None)"
| "runEventLoop ord hord ((l, sel) # rounds) =
     (case event_round ord hord l sel of
        Crash msg \<Rightarrow> ([], Some (Panic msg))
      | Shutdown \<Rightarrow> ([], Some (Ret ()))
      | Continue \<Rightarrow> runEventLoop ord hord rounds
      | Dispatch hs v \<Rightarrow>
          (case runEventLoop ord hord rounds of (calls, r) \<Rightarrow> (map (\<lambda>h. (h, v)) hs @ calls, r)))"

section \<open>The handler registry\<close>

text \<open>The handlers registered for an event, by their identifier.\<close>

definition handlers_of :: "LibVirt \<Rightarrow> DomainEventID \<Rightarrow> string \<rightharpoonup> handler_fn" where
  "handlers_of l ev = (case map_of (lv_domEventChangeHandlers l) ev of None \<Rightarrow> Map.empty | Some hs \<Rightarrow> map_of hs)"

text \<open>Every channel has handlers, no identifier is registered twice.\<close>

definition registry_inv :: "LibVirt \<Rightarrow> bool" where
  "registry_inv l \<longleftrightarrow>
     distinct (lv_domEventChs l) \<and> distinct (map fst (lv_domEventChangeHandlers l)) \<and>
     set (lv_domEventChs l) \<subseteq> fst ` set (lv_domEventChangeHandlers l) \<and>
     (\<forall>(ev, hs) \<in> set (lv_domEventChangeHandlers l). distinct (map fst hs))"

lemma registry_inv_New: "registry_inv (NewLibVirt getenv)"
  by (simp add: registry_inv_def NewLibVirt_def)

lemma WatchDomainChanges_handlers:
  "handlers_of (fst (WatchDomainChanges V ev hid h l tr)) ev'
     = (if ev' = ev then (handlers_of l ev)(hid \<mapsto> h) else handlers_of l ev')"
  by (auto simp: WatchDomainChanges_def Let_def handlers_of_def ext_def update_conv'
      split: option.splits if_splits)

lemma set_update_cases: "p \<in> set (AList.update k v al) \<Longrightarrow> p = (k, v) \<or> p \<in> set al"
  by (induction al) (auto split: if_splits)

lemma registry_inv_Watch:
  assumes "registry_inv l"
  shows "registry_inv (fst (WatchDomainChanges V ev hid h l tr))"
proof -
  define hs where "hs = (case map_of (lv_domEventChangeHandlers l) ev of None \<Rightarrow> [] | Some hs \<Rightarrow> hs)"
  define al where "al = AList.update ev (AList.update hid h hs) (lv_domEventChangeHandlers l)"
  have "distinct (map fst hs)"
    using assms by (auto simp: hs_def registry_inv_def split: option.splits dest: map_of_SomeD)
  then have d: "\<forall>(ev, hs) \<in> set al. distinct (map fst hs)"
    using assms by (auto simp: al_def registry_inv_def distinct_update dest!: set_update_cases)
  have dist: "distinct (map fst al)"
    using assms by (simp add: al_def registry_inv_def distinct_update)
  have doms: "fst ` set al = insert ev (fst ` set (lv_domEventChangeHandlers l))"
    by (simp add: al_def dom_update)
  show ?thesis
    using assms d dist doms
    by (auto simp: WatchDomainChanges_def Let_def ext_def registry_inv_def hs_def [symmetric]
        al_def [symmetric] split: option.splits)
qed

lemma WatchDomainChanges_trace:
  "snd (WatchDomainChanges V ev hid h l tr) =
     (if ev \<in> set (lv_domEventChs l) then tr else tr @ [VSubscribeEvents ev])"
  by (auto simp: WatchDomainChanges_def Let_def ext_def split: option.splits)

lemma WatchDomainChanges_channels:
  "set (lv_domEventChs l) \<subseteq> set (lv_domEventChs (fst (WatchDomainChanges V ev hid h l tr)))
   \<and> set (lv_domEventChs (fst (WatchDomainChanges V ev hid h l tr))) \<subseteq> insert ev (set (lv_domEventChs l))"
  by (auto simp: WatchDomainChanges_def Let_def ext_def split: option.splits)

section \<open>Connecting\<close>

lemma connect_versions_frame:
  "lv_domEventChs (fst (connect_versions V l tr)) = lv_domEventChs l"
  "lv_domEventChangeHandlers (fst (connect_versions V l tr)) = lv_domEventChangeHandlers l"
  "lv_migrationJobs (fst (connect_versions V l tr)) = lv_migrationJobs l"
  by (auto simp: connect_versions_def Let_def ext_def split: sum.splits)

lemma registry_inv_versions: "registry_inv l \<Longrightarrow> registry_inv (fst (connect_versions V l tr))"
  by (simp add: registry_inv_def connect_versions_frame)

lemma handlers_of_versions: "handlers_of (fst (connect_versions V l tr)) = handlers_of l"
  by (simp add: handlers_of_def connect_versions_frame fun_eq_iff)

lemma connect_watches_inv: "registry_inv l \<Longrightarrow> registry_inv (fst (connect_watches V l tr))"
  unfolding connect_watches_def Let_def
  by (auto intro!: registry_inv_Watch simp: split_beta)

lemma connect_watches_handlers:
  "handlers_of (fst (connect_watches V l tr)) =
     (handlers_of l)
       (DomainEventIDLifecycle := (handlers_of l DomainEventIDLifecycle)(''lifecycle-handler'' \<mapsto> OnLifecycleEvent),
        DomainEventIDMigrationIteration :=
          (handlers_of l DomainEventIDMigrationIteration)(''migration-iteration-handler'' \<mapsto> OnMigrationIteration),
        DomainEventIDJobCompleted :=
          (handlers_of l DomainEventIDJobCompleted)(''job-completed-handler'' \<mapsto> OnJobCompleted))"
  by (auto simp: connect_watches_def Let_def split_beta WatchDomainChanges_handlers fun_eq_iff)

lemma Connect_cases:
  "Connect V lookupEnv l tr =
     (if v_IsConnected V tr then ((None, False), l, tr @ [VIsConnected])
      else (let uri = (case lookupEnv ''LIBVIRT_DEFAULT_URI'' of Some u \<Rightarrow> u | None \<Rightarrow> ''ch:///system'')
            in case v_ConnectToURI V (tr @ [VIsConnected]) uri of
                 Some err \<Rightarrow> ((Some err, False), l, tr @ [VIsConnected, VConnectToURI uri])
               | None \<Rightarrow> ((None, True),
                   (case connect_versions V l (tr @ [VIsConnected, VConnectToURI uri]) of
                      (l, tr) \<Rightarrow> connect_watches V l tr))))"
  by (auto simp: Connect_def ext_def Let_def split: option.splits bool.splits prod.splits)

section \<open>The event loop\<close>

lemma map_of_mset:
  assumes "distinct (map fst xs)" and "mset ys = mset xs"
  shows "distinct (map fst ys) \<and> map_of ys = map_of xs"
proof -
  have "mset (map fst ys) = mset (map fst xs)" using assms(2) by (metis mset_map)
  then have "distinct (map fst ys)" using assms(1) by (metis mset_eq_imp_distinct_iff)
  moreover have "set ys = set xs" using assms(2) by (metis set_mset_mset)
  ultimately show ?thesis using assms(1) by (metis map_of_inject_set)
qed

lemma registry_inv_handlers:
  assumes "registry_inv l" and "ev \<in> set (lv_domEventChs l)"
  obtains hs where "map_of (lv_domEventChangeHandlers l) ev = Some hs" and "distinct (map fst hs)"
proof -
  have "ev \<in> fst ` set (lv_domEventChangeHandlers l)"
    using assms by (auto simp: registry_inv_def)
  then obtain hs where hs: "map_of (lv_domEventChangeHandlers l) ev = Some hs"
    by (metis map_of_eq_None_iff not_Some_eq)
  moreover have "distinct (map fst hs)"
    using assms(1) map_of_SomeD [OF hs] by (auto simp: registry_inv_def)
  ultimately show thesis by (rule that)
qed

lemma runEventLoop_append:
  assumes "snd (runEventLoop ord hord rounds) = None"
  shows "fst (runEventLoop ord hord (rounds @ rest))
       = fst (runEventLoop ord hord rounds) @ fst (runEventLoop ord hord rest)"
  using assms
  by (induction rounds) (auto split: round.splits prod.splits)

section \<open>Properties\<close>

text \<open>
  Registering a handler adds exactly that handler to its event, replaces one with the same
  identifier and leaves every other registration alone; it subscribes to the event at libvirtd only
  if no channel for it exists; and it keeps the registry well formed (each event and each handler
  identifier once, no channel without handlers).
\<close>

lemma WatchDomainChanges_correct:
  assumes "registry_inv l" and "WatchDomainChanges V ev hid h l tr = (l', tr')"
  shows "registry_inv l'
    \<and> handlers_of l' = (handlers_of l)(ev := (handlers_of l ev)(hid \<mapsto> h))
    \<and> tr' = (if ev \<in> set (lv_domEventChs l) then tr else tr @ [VSubscribeEvents ev])
    \<and> (ev \<in> set (lv_domEventChs l') \<longleftrightarrow> ev \<in> set (lv_domEventChs l) \<or> v_SubscribeEvents V tr ev = None)"
proof (intro conjI)
  have l': "l' = fst (WatchDomainChanges V ev hid h l tr)" and tr': "tr' = snd (WatchDomainChanges V ev hid h l tr)"
    using assms(2) by simp_all
  show "registry_inv l'" unfolding l' by (rule registry_inv_Watch) (rule assms(1))
  show "handlers_of l' = (handlers_of l)(ev := (handlers_of l ev)(hid \<mapsto> h))"
    by (simp add: l' WatchDomainChanges_handlers fun_eq_iff)
  show "tr' = (if ev \<in> set (lv_domEventChs l) then tr else tr @ [VSubscribeEvents ev])"
    by (simp add: tr' WatchDomainChanges_trace)
  show "ev \<in> set (lv_domEventChs l') \<longleftrightarrow> ev \<in> set (lv_domEventChs l) \<or> v_SubscribeEvents V tr ev = None"
    using assms(2) by (auto simp: WatchDomainChanges_def Let_def ext_def split: option.splits if_splits)
qed

lemma WatchDomainChanges_correct_example:
  "\<exists>l' tr'. WatchDomainChanges (idle_virt :: unit virt) DomainEventIDLifecycle ''x'' TriggerReconcile
              (NewLibVirt (\<lambda>_. [])) [] = (l', tr')
      \<and> registry_inv l' \<and> handlers_of l' DomainEventIDLifecycle ''x'' = Some TriggerReconcile
      \<and> tr' = [VSubscribeEvents DomainEventIDLifecycle] \<and> DomainEventIDLifecycle \<in> set (lv_domEventChs l')"
proof -
  obtain l' tr' where eq: "WatchDomainChanges (idle_virt :: unit virt) DomainEventIDLifecycle ''x'' TriggerReconcile
      (NewLibVirt (\<lambda>_. [])) [] = (l', tr')" by (metis prod.collapse)
  from WatchDomainChanges_correct [OF registry_inv_New eq] eq show ?thesis
    by (auto simp: idle_virt_def NewLibVirt_def)
qed

text \<open>
  The event loop hands an event to every handler registered for it, once each, and to no
  other, whatever order the maps are ranged over; it returns when it receives a value from the channel of the
  context, and panics (so that the service restarts) exactly when a channel is closed or the connection is lost.
\<close>

lemma event_round_dispatch:
  assumes inv: "registry_inv l" and ord: "\<And>xs. mset (ord xs) = mset xs" and hord: "\<And>xs. mset (hord xs) = mset xs"
  shows "(chosen < length (lv_domEventChs l) \<longrightarrow>
           (\<exists>ev hs. ev \<in> set (lv_domEventChs l) \<and> ev = ord (lv_domEventChs l) ! chosen
              \<and> event_round ord hord l (chosen, True, v) = Dispatch (map snd hs) v
              \<and> distinct (map fst hs) \<and> map_of hs = handlers_of l ev))
    \<and> (event_round ord hord l (chosen, ok, v) = Shutdown
         \<longleftrightarrow> ok \<and> chosen = length (lv_domEventChs l))
    \<and> ((\<exists>msg. event_round ord hord l (chosen, ok, v) = Crash msg)
         \<longleftrightarrow> \<not> ok \<or> chosen = length (lv_domEventChs l) + 1)"
proof (intro conjI impI)
  have len: "length (ord (lv_domEventChs l)) = length (lv_domEventChs l)"
    using ord by (metis size_mset)
  show "event_round ord hord l (chosen, ok, v) = Shutdown \<longleftrightarrow> ok \<and> chosen = length (lv_domEventChs l)"
    and "(\<exists>msg. event_round ord hord l (chosen, ok, v) = Crash msg)
           \<longleftrightarrow> \<not> ok \<or> chosen = length (lv_domEventChs l) + 1"
    by (auto simp: event_round_def Let_def len split: option.splits)
  assume chosen: "chosen < length (lv_domEventChs l)"
  define ev where "ev = ord (lv_domEventChs l) ! chosen"
  have ev: "ev \<in> set (lv_domEventChs l)"
    using ord chosen len by (metis ev_def nth_mem set_mset_mset)
  obtain hs where hs: "map_of (lv_domEventChangeHandlers l) ev = Some hs" "distinct (map fst hs)"
    using registry_inv_handlers [OF inv ev] .
  have "distinct (map fst (hord hs)) \<and> map_of (hord hs) = map_of hs"
    using hs(2) hord [of hs] by (rule map_of_mset)
  moreover have "event_round ord hord l (chosen, True, v) = Dispatch (map snd (hord hs)) v"
    using chosen len hs by (simp add: event_round_def Let_def ev_def)
  ultimately show "\<exists>ev hs. ev \<in> set (lv_domEventChs l) \<and> ev = ord (lv_domEventChs l) ! chosen
      \<and> event_round ord hord l (chosen, True, v) = Dispatch (map snd hs) v
      \<and> distinct (map fst hs) \<and> map_of hs = handlers_of l ev"
    using ev hs by (intro exI [of _ ev] exI [of _ "hord hs"]) (simp add: handlers_of_def ev_def)
qed

definition demo_registry :: LibVirt where
  "demo_registry = (NewLibVirt (\<lambda>_. []))
     \<lparr>lv_domEventChs := [DomainEventIDLifecycle],
      lv_domEventChangeHandlers := [(DomainEventIDLifecycle, [(''a'', OnLifecycleEvent), (''b'', TriggerReconcile)])]\<rparr>"

lemma event_round_dispatch_example:
  "registry_inv demo_registry
   \<and> (\<exists>ev hs. ev = DomainEventIDLifecycle \<and> event_round rev rev demo_registry (0, True, ()) = Dispatch (map snd hs) ()
        \<and> map_of hs = handlers_of demo_registry ev)"
proof -
  have inv: "registry_inv demo_registry" by (simp add: demo_registry_def registry_inv_def)
  show ?thesis
    using inv event_round_dispatch [of demo_registry rev rev 0 "()" True, OF inv] by (auto simp: demo_registry_def)
qed

end
