(* ===== verification/Process.thy ===== *)
theory Process
  imports Clients LibvirtConn "HOL-Library.Multiset"
begin

text \<open>
  The processing half of \<^verbatim>\<open>internal/libvirt/libvirt.go\<close>: \<^verbatim>\<open>Process\<close> and its six
  processors, which fill the status of a hypervisor from what libvirt reports. A processor maps a
  hypervisor to a hypervisor and an error, or panics (the code dereferences some pointers it does
  not check). \<^verbatim>\<open>DeepCopy\<close> is the identity on values. The clients are the interface values the
  struct \<^verbatim>\<open>LibVirt\<close> holds; \<open>Q\<close> are the operations of quantities, \<open>oob\<close> the implementation's result of
  converting an out-of-range float, \<open>ord\<close> the iteration order of the map of cells.
\<close>

section \<open>Definitions\<close>

record 'q clients =
  capabilitiesClient :: "'q trace \<Rightarrow> (goerr + Capabilities) \<times> 'q trace"
  domainCapabilitiesClient :: "'q trace \<Rightarrow> (goerr + DomainCapabilities) \<times> 'q trace"
  domainInfoClient :: "list_flag list \<Rightarrow> 'q trace \<Rightarrow> (goerr + DomainInfo list) \<times> 'q trace"

type_synonym 'q processor =
  "'q Hypervisor \<Rightarrow> 'q trace \<Rightarrow> ('q Hypervisor \<times> goerr option) outcome \<times> 'q trace"

definition supportedYes :: string where
  "supportedYes = ''yes''"

definition addVersion :: "LibVirt \<Rightarrow> 'q processor" where
  "addVersion l old tr =
     (Ret (map_status (\<lambda>s. s\<lparr>status_LibVirtVersion := lv_version l,
                            status_HypervisorVersion := lv_hypervisorVersion l\<rparr>) old, None), tr)"

text \<open>The loop over the two flags.\<close>

fun collect_instances ::
    "'q clients \<Rightarrow> list_flag list \<Rightarrow> Instance list \<Rightarrow> 'q trace \<Rightarrow> (goerr + Instance list) \<times> 'q trace" where
  "collect_instances C [] instances tr = (Inr instances, tr)"
| "collect_instances C (flag # flags) instances tr =
     (case domainInfoClient C [flag] tr of
        (Inl err, tr) \<Rightarrow> (Inl err, tr)
      | (Inr domains, tr) \<Rightarrow>
          collect_instances C flags
            (instances @ map (\<lambda>d. \<lparr>inst_ID = dom_UUID d, inst_Name = dom_Name d,
                                   inst_Active = (flag = ConnectListDomainsActive)\<rparr>) domains) tr)"

definition addInstancesInfo :: "'q clients \<Rightarrow> 'q processor" where
  "addInstancesInfo C old tr =
     (case collect_instances C [ConnectListDomainsActive, ConnectListDomainsInactive] [] tr of
        (Inl err, tr) \<Rightarrow> (Ret (old, Some err), tr)
      | (Inr instances, tr) \<Rightarrow>
          (Ret (map_status (\<lambda>s. s\<lparr>status_Instances := instances,
                                 status_NumInstances := length instances\<rparr>) old, None), tr))"

text \<open>
  The loop over the NUMA cells: total memory and total CPUs. (The check of the CPU quantity
  against \<^verbatim>\<open>nil\<close> cannot fire: \<^verbatim>\<open>NewQuantity\<close> returns the address of a new struct.)
\<close>

fun sum_cells ::
    "'q quantity_api \<Rightarrow> CapabilitiesHostTopologyCell list \<Rightarrow> 'q \<Rightarrow> 'q \<Rightarrow> goerr + 'q \<times> 'q" where
  "sum_cells Q [] mem cpus = Inr (mem, cpus)"
| "sum_cells Q (c # cs) mem cpus =
     (case MemoryToResource Q (cellmem_Value (topocell_Memory c)) (cellmem_Unit (topocell_Memory c)) of
        Inl err \<Rightarrow> Inl err
      | Inr m \<Rightarrow> sum_cells Q cs (QuantityAdd Q mem m)
                   (QuantityAdd Q cpus (NewQuantity Q (cellcpus_Num (topocell_CPUs c)) DecimalSI)))"

definition addCapabilities :: "'q quantity_api \<Rightarrow> 'q clients \<Rightarrow> 'q processor" where
  "addCapabilities Q C old tr =
     (case capabilitiesClient C tr of
        (Inl err, tr) \<Rightarrow> (Ret (old, Some err), tr)
      | (Inr caps, tr) \<Rightarrow>
          (case sum_cells Q (caps_cells caps) (NewQuantity Q 0 BinarySI) (NewQuantity Q 0 DecimalSI) of
             Inl err \<Rightarrow> (Ret (old, Some err), tr)
           | Inr (mem, cpus) \<Rightarrow>
               (Ret (map_status (status_Capabilities_update (\<lambda>c.
                       c\<lparr>scaps_HostCpuArch := hostcpu_Arch (host_CPU (caps_Host caps)),
                         scaps_HostMemory := mem, scaps_HostCpus := cpus\<rparr>)) old, None), tr)))"

text \<open>The three flat lists of \<^verbatim>\<open>addDomainCapabilities\<close>.\<close>

definition supported_cpu_modes :: "DomainCapabilitiesCPUMode list \<Rightarrow> string list" where
  "supported_cpu_modes modes =
     concat (map (\<lambda>m. if mode_Supported m \<noteq> supportedYes then []
                      else (''mode/'' @ mode_Name m)
                           # concat (map (\<lambda>e. map (\<lambda>v. ''mode/'' @ mode_Name m @ ''/'' @ v) (enum_Values e))
                                         (mode_Enums m))) modes)"

definition supported_devices :: "DomainCapabilitiesDevice list \<Rightarrow> string list" where
  "supported_devices devices =
     concat (map (\<lambda>d. if device_Supported d \<noteq> supportedYes then []
                      else device_XMLName d
                           # concat (map (\<lambda>e. map (\<lambda>v. device_XMLName d @ ''/'' @ v) (enum_Values e))
                                         (device_Enums d))) devices)"

definition supported_features :: "DomainCapabilitiesFeature list \<Rightarrow> string list" where
  "supported_features fs = map feature_XMLName (filter (\<lambda>f. feature_Supported f = supportedYes) fs)"

definition addDomainCapabilities :: "'q clients \<Rightarrow> 'q processor" where
  "addDomainCapabilities C old tr =
     (case domainCapabilitiesClient C tr of
        (Inl err, tr) \<Rightarrow> (Ret (old, Some err), tr)
      | (Inr dc, tr) \<Rightarrow>
          (Ret (map_status (status_DomainCapabilities_update (\<lambda>s.
                  s\<lparr>sdcaps_Arch := dcaps_Arch dc, sdcaps_HypervisorType := dcaps_Domain dc,
                    sdcaps_SupportedCpuModes := supported_cpu_modes (dccpu_Modes (dcaps_CPU dc)),
                    sdcaps_SupportedDevices := supported_devices (devices_Devices (dcaps_Devices dc)),
                    sdcaps_SupportedFeatures := supported_features (features_Features (dcaps_Features dc))\<rparr>)) old,
                None), tr))"

text \<open>
  \<^verbatim>\<open>addAllocationCapacity\<close>, first loop: the cells by their identifier, the total memory and
  the total CPUs.
\<close>

type_synonym 'q cells = "(uint64 \<times> 'q Cell) list"

definition new_cell :: "'q quantity_api \<Rightarrow> uint64 \<Rightarrow> 'q \<Rightarrow> 'q \<Rightarrow> 'q Cell" where
  "new_cell Q i mem cpu =
     \<lparr>cell_CellID = i,
      cell_Allocation = [ResourceMemory \<mapsto> NewQuantity Q 0 BinarySI, ResourceCPU \<mapsto> NewQuantity Q 0 DecimalSI],
      cell_Capacity = [ResourceMemory \<mapsto> mem, ResourceCPU \<mapsto> cpu],
      cell_EffectiveCapacity = Map.empty\<rparr>"

fun cells_by_id ::
    "'q quantity_api \<Rightarrow> CapabilitiesHostTopologyCell list \<Rightarrow> 'q \<Rightarrow> 'q \<Rightarrow> 'q cells \<Rightarrow> goerr + 'q \<times> 'q \<times> 'q cells" where
  "cells_by_id Q [] mem cpus cells = Inr (mem, cpus, cells)"
| "cells_by_id Q (c # cs) mem cpus cells =
     (case MemoryToResource Q (cellmem_Value (topocell_Memory c)) (cellmem_Unit (topocell_Memory c)) of
        Inl err \<Rightarrow> Inl err
      | Inr m \<Rightarrow>
          (let cpu = NewQuantity Q (cellcpus_Num (topocell_CPUs c)) DecimalSI
           in cells_by_id Q cs (QuantityAdd Q mem m) (QuantityAdd Q cpus cpu)
                (AList.update (topocell_ID c) (new_cell Q (topocell_ID c) m cpu) cells)))"

text \<open>Adding one share to a cell's allocation of a resource. A missing key reads as the zero quantity.\<close>

definition alloc_in_cell :: "'q quantity_api \<Rightarrow> ResourceName \<Rightarrow> 'q \<Rightarrow> 'q Cell \<Rightarrow> 'q Cell" where
  "alloc_in_cell Q res share cell =
     (let old = (case cell_Allocation cell res of Some q \<Rightarrow> q | None \<Rightarrow> QuantityZero Q)
      in cell\<lparr>cell_Allocation := (cell_Allocation cell)(res \<mapsto> QuantityAdd Q old share)\<rparr>)"

text \<open>The even share of a value over \<open>n\<close> cells, by Go's integer division.\<close>

definition even_share :: "int64 \<Rightarrow> nat \<Rightarrow> int64" where
  "even_share v n = word_of_int (go_quot (sint v) (int n))"

text \<open>The inner loops over the cells a domain uses; \<open>what\<close> is the resource's name in the error.\<close>

fun spread :: "'q quantity_api \<Rightarrow> ResourceName \<Rightarrow> string \<Rightarrow> string \<Rightarrow> 'q \<Rightarrow> uint64 list \<Rightarrow> 'q cells \<Rightarrow> goerr + 'q cells" where
  "spread Q res what name share [] cells = Inr cells"
| "spread Q res what name share (i # is) cells =
     (case map_of cells i of
        None \<Rightarrow> Inl (ErrorsNew (''domain '' @ name @ '' uses unknown '' @ what @ '' cell '' @ dec (unat i)))
      | Some cell \<Rightarrow> spread Q res what name share is (AList.update i (alloc_in_cell Q res share cell) cells))"

text \<open>
  The body of the loop over the domains. The code checks \<^verbatim>\<open>CPUTune\<close> and \<^verbatim>\<open>CPU.Numa\<close> against
  \<^verbatim>\<open>nil\<close>, but dereferences \<^verbatim>\<open>Memory\<close>, \<^verbatim>\<open>NumaTune\<close> and \<^verbatim>\<open>CPU\<close> unchecked.
\<close>

definition nil_deref :: string where
  "nil_deref = ''invalid memory address or nil pointer dereference''"

definition alloc_cpu_cells :: "'q quantity_api \<Rightarrow> DomainInfo \<Rightarrow> 'q \<Rightarrow> 'q cells \<Rightarrow> (goerr + 'q cells) outcome" where
  "alloc_cpu_cells Q d cpuAlloc cells =
     (case dom_CPU d of
        None \<Rightarrow> Panic nil_deref
      | Some cpu \<Rightarrow>
          (case cpu_Numa cpu of
             None \<Rightarrow> Ret (Inl (ErrorsNew (''missing cpu numa for dom '' @ dom_Name d)))
           | Some numa \<Rightarrow>
               (let ids = map cpuNumaCell_ID (cpuNuma_Cells numa)
                in Ret (spread Q ResourceCPU ''cpu'' (dom_Name d)
                     (NewQuantity Q (even_share (QuantityValue Q cpuAlloc) (length ids)) DecimalSI) ids cells))))"

definition alloc_mem_cells :: "'q quantity_api \<Rightarrow> DomainInfo \<Rightarrow> 'q \<Rightarrow> 'q cells \<Rightarrow> (goerr + 'q cells) outcome" where
  "alloc_mem_cells Q d memAlloc cells =
     (case dom_NumaTune d of
        None \<Rightarrow> Panic nil_deref
      | Some tune \<Rightarrow>
          (let ids = map numaMemNode_CellID (numaTune_MemNodes tune)
           in Ret (spread Q ResourceMemory ''memory'' (dom_Name d)
                (NewQuantity Q (even_share (QuantityValue Q memAlloc) (length ids)) BinarySI) ids cells)))"

definition alloc_domain ::
    "'q quantity_api \<Rightarrow> DomainInfo \<Rightarrow> 'q \<times> 'q \<times> 'q cells \<Rightarrow> (goerr + 'q \<times> 'q \<times> 'q cells) outcome" where
  "alloc_domain Q d st =
     (case st of (mem, cpus, cells) \<Rightarrow>
       (case dom_Memory d of
          None \<Rightarrow> Panic nil_deref
        | Some memory \<Rightarrow>
            (case MemoryToResource Q (memory_Value memory) (memory_Unit memory) of
               Inl err \<Rightarrow> Ret (Inl err)
             | Inr memAlloc \<Rightarrow>
                 (case dom_CPUTune d of
                    None \<Rightarrow> Ret (Inl (ErrorsNew (''missing cpu tune for dom '' @ dom_Name d)))
                  | Some tune \<Rightarrow>
                      (let cpuAlloc = NewQuantity Q (of_nat (length (cpuTune_VCPUPins tune))) DecimalSI
                       in outcome_bind (alloc_mem_cells Q d memAlloc cells) (\<lambda>r.
                            case r of
                              Inl err \<Rightarrow> Ret (Inl err)
                            | Inr cells \<Rightarrow>
                                outcome_bind (alloc_cpu_cells Q d cpuAlloc cells) (\<lambda>r.
                                  case r of
                                    Inl err \<Rightarrow> Ret (Inl err)
                                  | Inr cells \<Rightarrow>
                                      Ret (Inr (QuantityAdd Q mem memAlloc, QuantityAdd Q cpus cpuAlloc, cells)))))))))"

fun alloc_domains ::
    "'q quantity_api \<Rightarrow> DomainInfo list \<Rightarrow> 'q \<times> 'q \<times> 'q cells \<Rightarrow> (goerr + 'q \<times> 'q \<times> 'q cells) outcome" where
  "alloc_domains Q [] st = Ret (Inr st)"
| "alloc_domains Q (d # ds) st =
     outcome_bind (alloc_domain Q d st) (\<lambda>r.
       case r of Inl err \<Rightarrow> Ret (Inl err) | Inr st \<Rightarrow> alloc_domains Q ds st)"

definition addAllocationCapacity ::
    "'q quantity_api \<Rightarrow> ('q Cell list \<Rightarrow> 'q Cell list) \<Rightarrow> 'q clients \<Rightarrow> 'q processor" where
  "addAllocationCapacity Q ord C old tr =
     (case capabilitiesClient C tr of
        (Inl err, tr) \<Rightarrow> (Ret (old, Some err), tr)
      | (Inr caps, tr) \<Rightarrow>
          (case cells_by_id Q (caps_cells caps) (NewQuantity Q 0 BinarySI) (NewQuantity Q 0 DecimalSI) [] of
             Inl err \<Rightarrow> (Ret (old, Some err), tr)
           | Inr (memCap, cpuCap, cells) \<Rightarrow>
               (case domainInfoClient C [] tr of
                  (Inl err, tr) \<Rightarrow> (Ret (old, Some err), tr)
                | (Inr infos, tr) \<Rightarrow>
                    (outcome_bind
                       (alloc_domains Q infos (NewQuantity Q 0 BinarySI, NewQuantity Q 0 DecimalSI, cells)) (\<lambda>r.
                         case r of
                           Inl err \<Rightarrow> Ret (old, Some err)
                         | Inr (memAlloc, cpuAlloc, cells) \<Rightarrow>
                             Ret (map_status (\<lambda>s. s\<lparr>
                                     status_Capacity := [ResourceMemory \<mapsto> memCap, ResourceCPU \<mapsto> cpuCap],
                                     status_Allocation := [ResourceMemory \<mapsto> memAlloc, ResourceCPU \<mapsto> cpuAlloc],
                                     status_Cells := ord (map snd cells)\<rparr>) old, None)), tr))))"

text \<open>\<^verbatim>\<open>addEffectiveCapacity\<close>\<close>

definition effective ::
    "'q quantity_api \<Rightarrow> (float64 \<Rightarrow> int64) \<Rightarrow> (ResourceName \<rightharpoonup> float64) \<Rightarrow> (ResourceName \<rightharpoonup> 'q) \<Rightarrow> (ResourceName \<rightharpoonup> 'q)" where
  "effective Q oob overcommit capacity res =
     (case capacity res of
        None \<Rightarrow> None
      | Some q \<Rightarrow>
          (let ratio = (case overcommit res of Some x \<Rightarrow> x | None \<Rightarrow> Finite 1 0);
               flooredValue = int64_of_float oob (fmul (float_of_int (sint (QuantityValue Q q))) ratio)
           in Some (NewQuantity Q flooredValue (QuantityFormat Q q))))"

definition addEffectiveCapacity :: "'q quantity_api \<Rightarrow> (float64 \<Rightarrow> int64) \<Rightarrow> 'q processor" where
  "addEffectiveCapacity Q oob old tr =
     (let oc = spec_Overcommit (hv_Spec old)
      in (Ret (map_status (\<lambda>s. s\<lparr>
                 status_EffectiveCapacity := effective Q oob oc (status_Capacity s),
                 status_Cells := map (\<lambda>c. c\<lparr>cell_EffectiveCapacity := effective Q oob oc (cell_Capacity c)\<rparr>)
                                     (status_Cells s)\<rparr>) old, None), tr))"

text \<open>\<^verbatim>\<open>Process\<close>: the processors in turn, up to the first error.\<close>

fun run_processors :: "'q processor list \<Rightarrow> 'q processor" where
  "run_processors [] hv tr = (Ret (hv, None), tr)"
| "run_processors (p # ps) hv tr =
     (case p hv tr of
        (Ret (hv, None), tr) \<Rightarrow> run_processors ps hv tr
      | (Ret (hv, Some err), tr) \<Rightarrow> (Ret (hv, Some err), tr)
      | (Panic msg, tr) \<Rightarrow> (Panic msg, tr)
      | (Blocked, tr) \<Rightarrow> (Blocked, tr))"

definition processors ::
    "'q quantity_api \<Rightarrow> (float64 \<Rightarrow> int64) \<Rightarrow> ('q Cell list \<Rightarrow> 'q Cell list) \<Rightarrow> 'q clients \<Rightarrow> LibVirt \<Rightarrow> 'q processor list" where
  "processors Q oob ord C l =
     [addVersion l, addInstancesInfo C, addCapabilities Q C, addDomainCapabilities C,
      addAllocationCapacity Q ord C, addEffectiveCapacity Q oob]"

definition Process ::
    "'q quantity_api \<Rightarrow> (float64 \<Rightarrow> int64) \<Rightarrow> ('q Cell list \<Rightarrow> 'q Cell list) \<Rightarrow> 'q clients \<Rightarrow> LibVirt \<Rightarrow> 'q processor" where
  "Process Q oob ord C l hv tr = run_processors (processors Q oob ord C l) hv tr"

text \<open>The clients of a \<^verbatim>\<open>LibVirt\<close> made by \<^verbatim>\<open>NewLibVirt\<close>, given the reader of XML documents.\<close>

definition libvirt_clients ::
    "'q virt \<Rightarrow> xml_reader \<Rightarrow> 'q clients" where
  "libvirt_clients V rd =
     \<lparr>capabilitiesClient = capabilities_Get V rd,
      domainCapabilitiesClient = domcapabilities_Get V rd,
      domainInfoClient = dominfo_Get V rd\<rparr>"

section \<open>The contract of a processor\<close>

text \<open>What no processor touches: the object's metadata, its spec, and the parts of the status
  that belong to the controllers.\<close>

definition status_frame :: "'q Hypervisor \<Rightarrow> 'q Hypervisor \<Rightarrow> bool" where
  "status_frame hv hv' \<longleftrightarrow>
     hv_Name hv' = hv_Name hv \<and> hv_UID hv' = hv_UID hv \<and> hv_ResourceVersion hv' = hv_ResourceVersion hv \<and>
     hv_APIVersion hv' = hv_APIVersion hv \<and> hv_Kind hv' = hv_Kind hv \<and> hv_Spec hv' = hv_Spec hv \<and>
     hv_conditions hv' = hv_conditions hv \<and> hv_update hv' = hv_update hv \<and> hv_os hv' = hv_os hv"

lemma status_frame_refl [simp]: "status_frame hv hv"
  by (simp add: status_frame_def)

lemma status_frame_trans: "status_frame a b \<Longrightarrow> status_frame b c \<Longrightarrow> status_frame a c"
  by (simp add: status_frame_def)

locale status_processor =
  fixes proc :: "'q processor"
  assumes error_unmodified: "proc hv tr = (Ret (hv', Some err), tr') \<Longrightarrow> hv' = hv"
    and frame: "proc hv tr = (Ret (hv', r), tr') \<Longrightarrow> status_frame hv hv'"
    and queries: "proc hv tr = (res, tr') \<Longrightarrow> extends_by is_query tr tr'"

text \<open>A sequence of processors keeps the contract, except that an error leaves the work of the
  processors before it in place.\<close>

locale processor_pipeline =
  fixes procs :: "'q processor list"
  assumes stage: "p \<in> set procs \<Longrightarrow> status_processor p"
begin

lemma run_prefix_contract:
  assumes "set ps \<subseteq> set procs" and "run_processors ps hv tr = (res, tr')"
  shows "extends_by is_query tr tr' \<and> (\<forall>hv' r. res = Ret (hv', r) \<longrightarrow> status_frame hv hv')"
  using assms
proof (induction ps arbitrary: hv tr)
  case Nil
  then show ?case by auto
next
  case (Cons p ps)
  have sp: "status_processor p" using Cons.prems(1) stage by simp
  obtain r tr1 where p: "p hv tr = (r, tr1)" by (cases "p hv tr") auto
  note frame = status_processor.frame [OF sp]
  have q: "extends_by is_query tr tr1" by (rule status_processor.queries [OF sp p])
  show ?case
  proof (cases "\<exists>hv1. r = Ret (hv1, None)")
    case True
    then obtain hv1 where r: "r = Ret (hv1, None)" by auto
    then have "run_processors ps hv1 tr1 = (res, tr')" using Cons.prems(2) p by simp
    with Cons.IH Cons.prems(1) have
      "extends_by is_query tr1 tr' \<and> (\<forall>hv' r. res = Ret (hv', r) \<longrightarrow> status_frame hv1 hv')" by simp
    with q frame p r show ?thesis by (blast intro: extends_by_trans status_frame_trans)
  next
    case False
    then have "res = r \<and> tr' = tr1"
      using Cons.prems(2) p by (auto split: outcome.splits option.splits prod.splits)
    with q frame p show ?thesis by blast
  qed
qed

lemmas run_contract = run_prefix_contract [OF order_refl]

lemma run_error_stage:
  assumes "run_processors procs hv tr = (Ret (hv', Some err), tr')"
  obtains k tr0 where "k < length procs" and "run_processors (take k procs) hv tr = (Ret (hv', None), tr0)"
    and "(procs ! k) hv' tr0 = (Ret (hv', Some err), tr')"
proof -
  have "\<exists>k tr0. k < length ps \<and> run_processors (take k ps) hv tr = (Ret (hv', None), tr0)
          \<and> (ps ! k) hv' tr0 = (Ret (hv', Some err), tr')"
    if "set ps \<subseteq> set procs" "run_processors ps hv tr = (Ret (hv', Some err), tr')" for ps hv tr
    using that
  proof (induction ps arbitrary: hv tr)
    case Nil
    then show ?case by simp
  next
    case (Cons p ps)
    have sp: "status_processor p" using Cons.prems(1) stage by simp
    obtain r tr1 where p: "p hv tr = (r, tr1)" by (cases "p hv tr") auto
    show ?case
    proof (cases "\<exists>hv1. r = Ret (hv1, None)")
      case True
      then obtain hv1 where r: "r = Ret (hv1, None)" by auto
      then have "run_processors ps hv1 tr1 = (Ret (hv', Some err), tr')" using Cons.prems(2) p by simp
      then obtain k tr0 where "k < length ps" "run_processors (take k ps) hv1 tr1 = (Ret (hv', None), tr0)"
          "(ps ! k) hv' tr0 = (Ret (hv', Some err), tr')"
        using Cons.IH Cons.prems(1) by (metis insert_subset list.simps(15))
      then show ?thesis using p r by (intro exI [of _ "Suc k"] exI [of _ tr0]) simp
    next
      case False
      then have r: "r = Ret (hv', Some err)" and "tr' = tr1"
        using Cons.prems(2) p by (auto split: outcome.splits option.splits prod.splits)
      moreover have "hv' = hv"
        using p r by (intro status_processor.error_unmodified [OF sp]) simp
      ultimately show ?thesis using p by (intro exI [of _ 0] exI [of _ tr]) simp
    qed
  qed
  from this [OF order_refl assms] that show thesis by blast
qed

end

section \<open>Every processor meets the contract\<close>

definition query_clients :: "'q clients \<Rightarrow> bool" where
  "query_clients C \<longleftrightarrow> query_client (capabilitiesClient C) \<and> query_client (domainCapabilitiesClient C)
     \<and> (\<forall>fs. query_client (domainInfoClient C fs))"

lemma query_libvirt_clients: "query_clients (libvirt_clients V rd)"
  unfolding query_clients_def libvirt_clients_def
  by (simp add: capabilities_client.query_client_axioms domcapabilities_client.query_client_axioms
      dominfo_client.query_client_axioms)

lemma query_clientsD:
  assumes "query_clients C"
  shows "capabilitiesClient C tr = (r1, tr') \<Longrightarrow> extends_by is_query tr tr'"
    and "domainCapabilitiesClient C tr = (r2, tr') \<Longrightarrow> extends_by is_query tr tr'"
    and "domainInfoClient C fs tr = (r3, tr') \<Longrightarrow> extends_by is_query tr tr'"
  using assms unfolding query_clients_def by (auto dest: query_client.Get_queries)

lemma processor_addVersion: "status_processor (addVersion l)"
  by unfold_locales (auto simp: addVersion_def status_frame_def)

lemma collect_instances_queries:
  "query_clients C \<Longrightarrow> collect_instances C fs is tr = (r, tr') \<Longrightarrow> extends_by is_query tr tr'"
  by (induction fs arbitrary: "is" tr)
     (auto split: prod.splits sum.splits dest: query_clientsD(3) intro: extends_by_trans)

lemma processor_addInstancesInfo: "query_clients C \<Longrightarrow> status_processor (addInstancesInfo C)"
  by unfold_locales
     (auto simp: addInstancesInfo_def status_frame_def simp del: collect_instances.simps
       split: prod.splits sum.splits dest: collect_instances_queries)

lemma processor_addCapabilities: "query_clients C \<Longrightarrow> status_processor (addCapabilities Q C)"
  by unfold_locales
     (auto simp: addCapabilities_def status_frame_def split: prod.splits sum.splits dest: query_clientsD)

lemma processor_addDomainCapabilities: "query_clients C \<Longrightarrow> status_processor (addDomainCapabilities C)"
  by unfold_locales
     (auto simp: addDomainCapabilities_def status_frame_def split: prod.splits sum.splits dest: query_clientsD)

lemma processor_addAllocationCapacity: "query_clients C \<Longrightarrow> status_processor (addAllocationCapacity Q ord C)"
  by unfold_locales
     (auto simp: addAllocationCapacity_def status_frame_def outcome_bind_def
       split: prod.splits sum.splits outcome.splits dest: query_clientsD intro: extends_by_trans)

lemma processor_addEffectiveCapacity: "status_processor (addEffectiveCapacity Q oob)"
  by unfold_locales (auto simp: addEffectiveCapacity_def status_frame_def Let_def)

lemmas processor_contracts = processor_addVersion processor_addInstancesInfo processor_addCapabilities
  processor_addDomainCapabilities processor_addAllocationCapacity processor_addEffectiveCapacity

interpretation add_version: status_processor "addVersion l" for l
  by (rule processor_addVersion)

interpretation add_instances: status_processor "addInstancesInfo (libvirt_clients V rd)" for V rd
  by (rule processor_addInstancesInfo [OF query_libvirt_clients])

interpretation add_allocation: status_processor "addAllocationCapacity Q ord (libvirt_clients V rd)" for Q ord V rd
  by (rule processor_addAllocationCapacity [OF query_libvirt_clients])

lemma processors_contract:
  "p \<in> set (processors Q oob ord (libvirt_clients V rd) l) \<Longrightarrow> status_processor p"
  unfolding processors_def by (auto intro: processor_contracts query_libvirt_clients)

interpretation process: processor_pipeline "processors Q oob ord (libvirt_clients V rd) l" for Q oob ord V rd l
  by (rule processor_pipeline.intro) (rule processors_contract)

end
