(* ===== verification/Interfaces.thy ===== *)
theory Interfaces
  imports Systemd Process
begin

text \<open>
  The two Go interfaces the controllers work with, \<^verbatim>\<open>internal/systemd/interface.go\<close> and
  \<^verbatim>\<open>internal/libvirt/interface.go\<close>, as records of methods, and their implementations: the real
  connections, and the mocks of \<^verbatim>\<open>interface_mock.go\<close> with which \<^verbatim>\<open>internal/emulator\<close> builds
  the emulated ones. A method acts on the state of the object behind the interface and on the trace of
  external calls; \<open>mbind\<close> sequences methods, and a panic or a block ends the sequence.
\<close>

section \<open>Methods\<close>

type_synonym ('s, 'q, 'r) go_method = "'s \<Rightarrow> 'q trace \<Rightarrow> 'r outcome \<times> 's \<times> 'q trace"

definition mret :: "'r \<Rightarrow> ('s, 'q, 'r) go_method" where
  "mret x s tr = (Ret x, s, tr)"

definition mbind :: "('s, 'q, 'a) go_method \<Rightarrow> ('a \<Rightarrow> ('s, 'q, 'b) go_method) \<Rightarrow> ('s, 'q, 'b) go_method" where
  "mbind m f s tr =
     (case m s tr of
        (Ret x, s, tr) \<Rightarrow> f x s tr
      | (Panic msg, s, tr) \<Rightarrow> (Panic msg, s, tr)
      | (Blocked, s, tr) \<Rightarrow> (Blocked, s, tr))"

definition mext :: "'q ext_call \<Rightarrow> ('q trace \<Rightarrow> 'r) \<Rightarrow> ('s, 'q, 'r) go_method" where
  "mext c resp s tr = (Ret (resp tr), s, tr @ [c])"

definition mpanic :: "string \<Rightarrow> ('s, 'q, 'r) go_method" where
  "mpanic msg s tr = (Panic msg, s, tr)"

text \<open>An early return (\<open>Inl\<close>) or a value to go on with (\<open>Inr\<close>).\<close>

definition mstep :: "('s, 'q, 'e + 'a) go_method \<Rightarrow> ('a \<Rightarrow> ('s, 'q, 'e + 'b) go_method) \<Rightarrow> ('s, 'q, 'e + 'b) go_method" where
  "mstep m f = mbind m (\<lambda>x. case x of Inl e \<Rightarrow> mret (Inl e) | Inr a \<Rightarrow> f a)"

text \<open>A function on the trace alone, as a method.\<close>

definition mtrace :: "('q trace \<Rightarrow> 'r \<times> 'q trace) \<Rightarrow> ('s, 'q, 'r) go_method" where
  "mtrace f s tr = (case f tr of (r, tr') \<Rightarrow> (Ret r, s, tr'))"

text \<open>Calls that a method makes.\<close>

definition only_calls :: "('q ext_call \<Rightarrow> bool) \<Rightarrow> ('s, 'q, 'r) go_method \<Rightarrow> bool" where
  "only_calls P m \<longleftrightarrow> (\<forall>s tr. extends_by P tr (snd (snd (m s tr))))"

lemma only_callsD: "only_calls P m \<Longrightarrow> m s tr = (r, s', tr') \<Longrightarrow> extends_by P tr tr'"
  unfolding only_calls_def by (metis snd_conv)

lemma only_calls_mret [simp, intro]: "only_calls P (mret x)"
  by (simp add: only_calls_def mret_def)

lemma only_calls_mpanic [simp, intro]: "only_calls P (mpanic msg)"
  by (simp add: only_calls_def mpanic_def)

lemma only_calls_mext [simp]: "P c \<Longrightarrow> only_calls P (mext c resp)"
  by (simp add: only_calls_def mext_def)

lemma only_calls_mbind_if:
  assumes "only_calls P m" and "\<And>s tr x s1 tr1. m s tr = (Ret x, s1, tr1) \<Longrightarrow> only_calls P (f x)"
  shows "only_calls P (mbind m f)"
  unfolding only_calls_def
proof (intro allI)
  fix s tr
  obtain r s1 tr1 where m: "m s tr = (r, s1, tr1)" by (metis prod.exhaust)
  have e: "extends_by P tr tr1" using only_callsD [OF assms(1) m] .
  show "extends_by P tr (snd (snd (mbind m f s tr)))"
  proof (cases r)
    case (Ret x)
    then have "extends_by P tr1 (snd (snd (f x s1 tr1)))" using assms(2) m unfolding only_calls_def by blast
    with e m Ret show ?thesis by (simp add: mbind_def extends_by_trans [OF e])
  qed (use e m in \<open>simp_all add: mbind_def\<close>)
qed

lemma only_calls_mbind [intro]: "only_calls P m \<Longrightarrow> (\<And>x. only_calls P (f x)) \<Longrightarrow> only_calls P (mbind m f)"
  by (rule only_calls_mbind_if)

lemma only_calls_mstep [intro]:
  "only_calls P m \<Longrightarrow> (\<And>x. only_calls P (f x)) \<Longrightarrow> only_calls P (mstep m f)"
  unfolding mstep_def by (auto intro!: only_calls_mbind split: sum.splits)

lemma only_calls_mono: "only_calls P m \<Longrightarrow> (\<And>c. P c \<Longrightarrow> P' c) \<Longrightarrow> only_calls P' m"
  unfolding only_calls_def by (blast intro: extends_by_mono)

lemma only_calls_mtrace: "(\<And>tr. extends_by P tr (snd (f tr))) \<Longrightarrow> only_calls P (mtrace f)"
  by (simp add: only_calls_def mtrace_def split_beta)

text \<open>A method's calls together with a property of what it returns, in the style of Hoare logic.\<close>

definition triple :: "('q ext_call \<Rightarrow> bool) \<Rightarrow> ('s, 'q, 'r) go_method \<Rightarrow> ('r \<Rightarrow> bool) \<Rightarrow> bool" where
  "triple P m R \<longleftrightarrow> only_calls P m \<and> (\<forall>s tr x s' tr'. m s tr = (Ret x, s', tr') \<longrightarrow> R x)"

lemma tripleI: "only_calls P m \<Longrightarrow> (\<And>s tr x s' tr'. m s tr = (Ret x, s', tr') \<Longrightarrow> R x) \<Longrightarrow> triple P m R"
  by (simp add: triple_def)

lemma triple_calls: "triple P m R \<Longrightarrow> only_calls P m"
  by (simp add: triple_def)

lemma triple_result: "triple P m R \<Longrightarrow> m s tr = (Ret x, s', tr') \<Longrightarrow> R x"
  unfolding triple_def by blast

lemma triple_mono:
  "triple P m R \<Longrightarrow> (\<And>c. P c \<Longrightarrow> P' c) \<Longrightarrow> (\<And>x. R x \<Longrightarrow> R' x) \<Longrightarrow> triple P' m R'"
  unfolding triple_def by (blast intro: only_calls_mono)

lemma triple_mret: "R x \<Longrightarrow> triple P (mret x) R"
  by (simp add: triple_def) (simp add: mret_def)

lemma triple_mpanic: "triple P (mpanic msg) R"
  by (simp add: triple_def) (simp add: mpanic_def)

lemma triple_only: "only_calls P m \<Longrightarrow> triple P m (\<lambda>_. True)"
  by (simp add: triple_def)

lemma triple_mext: "P c \<Longrightarrow> (\<And>tr. R (resp tr)) \<Longrightarrow> triple P (mext c resp) R"
  by (auto simp: triple_def mext_def only_calls_def)

lemma mbind_Ret:
  "mbind m f s tr = (Ret y, s', tr') \<longleftrightarrow> (\<exists>x s1 tr1. m s tr = (Ret x, s1, tr1) \<and> f x s1 tr1 = (Ret y, s', tr'))"
  by (auto simp: mbind_def split: prod.splits outcome.splits)

lemma triple_mbind:
  assumes "triple P m R" and "\<And>x. R x \<Longrightarrow> triple P (f x) R'"
  shows "triple P (mbind m f) R'"
  unfolding triple_def mbind_Ret
  using assms triple_result [OF assms(1)] triple_result [OF assms(2)]
  by (intro conjI only_calls_mbind_if) (blast intro: triple_calls)+

lemma triple_mstep:
  assumes "triple P m (\<lambda>x. case x of Inl e \<Rightarrow> R' (Inl e) | Inr a \<Rightarrow> R a)" and "\<And>a. R a \<Longrightarrow> triple P (f a) R'"
  shows "triple P (mstep m f) R'"
  unfolding mstep_def
  by (rule triple_mbind [OF assms(1)]) (use assms(2) in \<open>auto intro: triple_mret split: sum.splits\<close>)

section \<open>The systemd interface\<close>

record ('s, 'q) systemd_Interface =
  sdi_Close :: "('s, 'q, unit) go_method"
  sdi_IsConnected :: "('s, 'q, bool) go_method"
  sdi_ListUnitsByNames :: "string list \<Rightarrow> ('s, 'q, goerr + UnitStatus list) go_method"
  sdi_GetUnitByName :: "string \<Rightarrow> ('s, 'q, goerr + UnitStatus) go_method"
  sdi_StartUnit :: "string \<Rightarrow> ('s, 'q, goerr + int) go_method"
  sdi_ReloadUnit :: "string \<Rightarrow> ('s, 'q, goerr + int) go_method"
  sdi_ReconcileSysUpdate :: "'q Hypervisor \<Rightarrow> ('s, 'q, bool \<times> goerr option) go_method"
  sdi_EnableShutdownInhibit :: "('s, 'q, goerr option) go_method"
  sdi_DisableShutdownInhibit :: "('s, 'q, goerr option) go_method"
  sdi_Describe :: "('s, 'q, goerr + Descriptor) go_method"

definition systemd_conn :: "'q dbus \<Rightarrow> json_reader \<Rightarrow> (SystemdConn, 'q) systemd_Interface" where
  "systemd_conn D unDesc =
     \<lparr>sdi_Close = mtrace (\<lambda>tr. ((), SystemdConn_Close tr)),
      sdi_IsConnected = mtrace (\<lambda>tr. (IsConnected D tr, tr)),
      sdi_ListUnitsByNames = (\<lambda>us. mtrace (ListUnitsByNames D us)),
      sdi_GetUnitByName = (\<lambda>u. mtrace (GetUnitByName D u)),
      sdi_StartUnit = (\<lambda>u. mtrace (StartUnit D u)),
      sdi_ReloadUnit = (\<lambda>u. mtrace (ReloadUnit D u)),
      sdi_ReconcileSysUpdate = (\<lambda>hv. mtrace (ReconcileSysUpdate D hv)),
      sdi_EnableShutdownInhibit = (\<lambda>s tr. case EnableShutdownInhibit D s tr of (r, s, tr) \<Rightarrow> (Ret r, s, tr)),
      sdi_DisableShutdownInhibit = DisableShutdownInhibit D,
      sdi_Describe = mtrace (Describe D unDesc)\<rparr>"

text \<open>
  The mock: one optional function per method, and the log of the calls. A method without a function
  panics; with one it logs the call and returns what the function returns.
\<close>

record 'q systemd_Mock =
  CloseFunc :: "unit option"
  IsConnectedFunc :: "bool option"
  ListUnitsByNamesFunc :: "(string list \<Rightarrow> goerr + UnitStatus list) option"
  GetUnitByNameFunc :: "(string \<Rightarrow> goerr + UnitStatus) option"
  StartUnitFunc :: "(string \<Rightarrow> goerr + int) option"
  ReloadUnitFunc :: "(string \<Rightarrow> goerr + int) option"
  ReconcileSysUpdateFunc :: "('q Hypervisor \<Rightarrow> bool \<times> goerr option) option"
  EnableShutdownInhibitFunc :: "goerr option option"
  DisableShutdownInhibitFunc :: "goerr option option"
  DescribeFunc :: "(goerr + Descriptor) option"

record 'q systemd_calls =
  calls_Close :: "unit list"
  calls_IsConnected :: "unit list"
  calls_ListUnitsByNames :: "string list list"
  calls_GetUnitByName :: "string list"
  calls_StartUnit :: "string list"
  calls_ReloadUnit :: "string list"
  calls_ReconcileSysUpdate :: "'q Hypervisor list"
  calls_EnableShutdownInhibit :: "unit list"
  calls_DisableShutdownInhibit :: "unit list"
  calls_Describe :: "unit list"

definition nil_func :: "string \<Rightarrow> string" where
  "nil_func name = ''InterfaceMock.'' @ name @ ''Func: method is nil but Interface.'' @ name @ '' was just called''"

text \<open>The common shape of a mocked method: \<open>add\<close> appends the call to its log.\<close>

definition mock_call :: "string \<Rightarrow> 'f option \<Rightarrow> ('c \<Rightarrow> 'c) \<Rightarrow> ('f \<Rightarrow> 'r) \<Rightarrow> ('c, 'q, 'r) go_method" where
  "mock_call name func add call s tr =
     (case func of None \<Rightarrow> (Panic (nil_func name), s, tr) | Some f \<Rightarrow> (Ret (call f), add s, tr))"

definition mock_Close :: "'q systemd_Mock \<Rightarrow> ('q systemd_calls, 'q, unit) go_method" where
  "mock_Close M = mock_call ''Close'' (CloseFunc M) (calls_Close_update (\<lambda>cs. cs @ [()])) id"

definition mock_Describe :: "'q systemd_Mock \<Rightarrow> ('q systemd_calls, 'q, goerr + Descriptor) go_method" where
  "mock_Describe M = mock_call ''Describe'' (DescribeFunc M) (calls_Describe_update (\<lambda>cs. cs @ [()])) id"

definition mock_DisableShutdownInhibit :: "'q systemd_Mock \<Rightarrow> ('q systemd_calls, 'q, goerr option) go_method" where
  "mock_DisableShutdownInhibit M =
     mock_call ''DisableShutdownInhibit'' (DisableShutdownInhibitFunc M)
       (calls_DisableShutdownInhibit_update (\<lambda>cs. cs @ [()])) id"

definition mock_EnableShutdownInhibit :: "'q systemd_Mock \<Rightarrow> ('q systemd_calls, 'q, goerr option) go_method" where
  "mock_EnableShutdownInhibit M =
     mock_call ''EnableShutdownInhibit'' (EnableShutdownInhibitFunc M)
       (calls_EnableShutdownInhibit_update (\<lambda>cs. cs @ [()])) id"

definition mock_GetUnitByName :: "'q systemd_Mock \<Rightarrow> string \<Rightarrow> ('q systemd_calls, 'q, goerr + UnitStatus) go_method" where
  "mock_GetUnitByName M unit =
     mock_call ''GetUnitByName'' (GetUnitByNameFunc M) (calls_GetUnitByName_update (\<lambda>cs. cs @ [unit])) (\<lambda>f. f unit)"

definition mock_IsConnected :: "'q systemd_Mock \<Rightarrow> ('q systemd_calls, 'q, bool) go_method" where
  "mock_IsConnected M = mock_call ''IsConnected'' (IsConnectedFunc M) (calls_IsConnected_update (\<lambda>cs. cs @ [()])) id"

definition mock_ListUnitsByNames :: "'q systemd_Mock \<Rightarrow> string list \<Rightarrow> ('q systemd_calls, 'q, goerr + UnitStatus list) go_method" where
  "mock_ListUnitsByNames M units =
     mock_call ''ListUnitsByNames'' (ListUnitsByNamesFunc M) (calls_ListUnitsByNames_update (\<lambda>cs. cs @ [units])) (\<lambda>f. f units)"

definition mock_ReconcileSysUpdate :: "'q systemd_Mock \<Rightarrow> 'q Hypervisor \<Rightarrow> ('q systemd_calls, 'q, bool \<times> goerr option) go_method" where
  "mock_ReconcileSysUpdate M hv =
     mock_call ''ReconcileSysUpdate'' (ReconcileSysUpdateFunc M) (calls_ReconcileSysUpdate_update (\<lambda>cs. cs @ [hv])) (\<lambda>f. f hv)"

definition mock_ReloadUnit :: "'q systemd_Mock \<Rightarrow> string \<Rightarrow> ('q systemd_calls, 'q, goerr + int) go_method" where
  "mock_ReloadUnit M unit =
     mock_call ''ReloadUnit'' (ReloadUnitFunc M) (calls_ReloadUnit_update (\<lambda>cs. cs @ [unit])) (\<lambda>f. f unit)"

definition mock_StartUnit :: "'q systemd_Mock \<Rightarrow> string \<Rightarrow> ('q systemd_calls, 'q, goerr + int) go_method" where
  "mock_StartUnit M unit =
     mock_call ''StartUnit'' (StartUnitFunc M) (calls_StartUnit_update (\<lambda>cs. cs @ [unit])) (\<lambda>f. f unit)"

definition systemd_mock :: "'q systemd_Mock \<Rightarrow> ('q systemd_calls, 'q) systemd_Interface" where
  "systemd_mock M =
     \<lparr>sdi_Close = mock_Close M, sdi_IsConnected = mock_IsConnected M, sdi_ListUnitsByNames = mock_ListUnitsByNames M,
      sdi_GetUnitByName = mock_GetUnitByName M, sdi_StartUnit = mock_StartUnit M, sdi_ReloadUnit = mock_ReloadUnit M,
      sdi_ReconcileSysUpdate = mock_ReconcileSysUpdate M, sdi_EnableShutdownInhibit = mock_EnableShutdownInhibit M,
      sdi_DisableShutdownInhibit = mock_DisableShutdownInhibit M, sdi_Describe = mock_Describe M\<rparr>"

text \<open>\<^verbatim>\<open>NewSystemdEmulator\<close>: \<^verbatim>\<open>Describe\<close> and \<^verbatim>\<open>ReloadUnit\<close> have no function.\<close>

definition NewSystemdEmulator :: "'q systemd_Mock" where
  "NewSystemdEmulator =
     \<lparr>CloseFunc = Some (), IsConnectedFunc = Some True, ListUnitsByNamesFunc = Some (\<lambda>us. Inr []),
      GetUnitByNameFunc = Some (\<lambda>u. Inr zero_UnitStatus), StartUnitFunc = Some (\<lambda>u. Inr 0), ReloadUnitFunc = None,
      ReconcileSysUpdateFunc = Some (\<lambda>hv. (True, None)), EnableShutdownInhibitFunc = Some None,
      DisableShutdownInhibitFunc = Some None, DescribeFunc = None\<rparr>"

section \<open>The libvirt interface\<close>

record ('l, 'q) libvirt_Interface =
  lvi_Connect :: "('l, 'q, goerr option) go_method"
  lvi_Close :: "('l, 'q, goerr option) go_method"
  lvi_WatchDomainChanges :: "DomainEventID \<Rightarrow> string \<Rightarrow> handler_fn \<Rightarrow> ('l, 'q, unit) go_method"
  lvi_Process :: "'q Hypervisor \<Rightarrow> ('l, 'q, 'q Hypervisor \<times> goerr option) go_method"

definition libvirt_conn ::
    "'q virt \<Rightarrow> (string \<Rightarrow> string option) \<Rightarrow> 'q quantity_api \<Rightarrow> (float64 \<Rightarrow> int64) \<Rightarrow> ('q Cell list \<Rightarrow> 'q Cell list)
     \<Rightarrow> 'q clients \<Rightarrow> (LibVirt, 'q) libvirt_Interface" where
  "libvirt_conn V lookupEnv Q oob ord C =
     \<lparr>lvi_Connect = (\<lambda>l tr. case Connect V lookupEnv l tr of ((r, started), l, tr) \<Rightarrow> (Ret r, l, tr)),
      lvi_Close = mtrace (LibVirt_Close V),
      lvi_WatchDomainChanges = (\<lambda>ev hid h l tr. case WatchDomainChanges V ev hid h l tr of (l, tr) \<Rightarrow> (Ret (), l, tr)),
      lvi_Process = (\<lambda>hv l tr. case Process Q oob ord C l hv tr of (r, tr) \<Rightarrow> (r, l, tr))\<rparr>"

record 'q libvirt_Mock =
  lv_CloseFunc :: "goerr option option"
  lv_ConnectFunc :: "goerr option option"
  lv_WatchDomainChangesFunc :: "unit option"
  lv_ProcessFunc :: "('q Hypervisor \<Rightarrow> 'q Hypervisor \<times> goerr option) option"

record 'q libvirt_calls =
  lvcalls_Close :: "unit list"
  lvcalls_Connect :: "unit list"
  lvcalls_WatchDomainChanges :: "(DomainEventID \<times> string \<times> handler_fn) list"
  lvcalls_Process :: "'q Hypervisor list"

definition lvmock_Close :: "'q libvirt_Mock \<Rightarrow> ('q libvirt_calls, 'q, goerr option) go_method" where
  "lvmock_Close M = mock_call ''Close'' (lv_CloseFunc M) (lvcalls_Close_update (\<lambda>cs. cs @ [()])) id"

definition lvmock_Connect :: "'q libvirt_Mock \<Rightarrow> ('q libvirt_calls, 'q, goerr option) go_method" where
  "lvmock_Connect M = mock_call ''Connect'' (lv_ConnectFunc M) (lvcalls_Connect_update (\<lambda>cs. cs @ [()])) id"

definition lvmock_WatchDomainChanges ::
    "'q libvirt_Mock \<Rightarrow> DomainEventID \<Rightarrow> string \<Rightarrow> handler_fn \<Rightarrow> ('q libvirt_calls, 'q, unit) go_method" where
  "lvmock_WatchDomainChanges M ev hid h =
     mock_call ''WatchDomainChanges'' (lv_WatchDomainChangesFunc M)
       (lvcalls_WatchDomainChanges_update (\<lambda>cs. cs @ [(ev, hid, h)])) id"

definition lvmock_Process :: "'q libvirt_Mock \<Rightarrow> 'q Hypervisor \<Rightarrow> ('q libvirt_calls, 'q, 'q Hypervisor \<times> goerr option) go_method" where
  "lvmock_Process M hv = mock_call ''Process'' (lv_ProcessFunc M) (lvcalls_Process_update (\<lambda>cs. cs @ [hv])) (\<lambda>f. f hv)"

definition libvirt_mock :: "'q libvirt_Mock \<Rightarrow> ('q libvirt_calls, 'q) libvirt_Interface" where
  "libvirt_mock M =
     \<lparr>lvi_Connect = lvmock_Connect M, lvi_Close = lvmock_Close M,
      lvi_WatchDomainChanges = lvmock_WatchDomainChanges M, lvi_Process = lvmock_Process M\<rparr>"

text \<open>\<^verbatim>\<open>NewLibVirtEmulator\<close>: \<^verbatim>\<open>WatchDomainChanges\<close> has no function.\<close>

definition NewLibVirtEmulator :: "'q libvirt_Mock" where
  "NewLibVirtEmulator =
     \<lparr>lv_CloseFunc = Some None, lv_ConnectFunc = Some None, lv_WatchDomainChangesFunc = None,
      lv_ProcessFunc = Some (\<lambda>hv. (hv, None))\<rparr>"

section \<open>Contracts\<close>

text \<open>The calls to systemd and logind, and the calls to libvirtd.\<close>

fun is_systemd_call :: "'q ext_call \<Rightarrow> bool" where
  "is_systemd_call (DListUnitsByNames us) = True"
| "is_systemd_call (DStartUnit u m) = True"
| "is_systemd_call (DReloadUnit u m) = True"
| "is_systemd_call DListInhibitors = True"
| "is_systemd_call (DInhibit a b c d) = True"
| "is_systemd_call DAddMatchSignal = True"
| "is_systemd_call DSignal = True"
| "is_systemd_call DRemoveSignal = True"
| "is_systemd_call (DCloseFd fd) = True"
| "is_systemd_call DDescribe = True"
| "is_systemd_call DCloseConn = True"
| "is_systemd_call DCloseLogin1 = True"
| "is_systemd_call c = False"

fun is_libvirt_call :: "'q ext_call \<Rightarrow> bool" where
  "is_libvirt_call VIsConnected = True"
| "is_libvirt_call (VConnectToURI u) = True"
| "is_libvirt_call VGetLibVersion = True"
| "is_libvirt_call VGetVersion = True"
| "is_libvirt_call (VSubscribeEvents ev) = True"
| "is_libvirt_call VRegisterCloseCallback = True"
| "is_libvirt_call VDisconnect = True"
| "is_libvirt_call VCapabilities = True"
| "is_libvirt_call VGetDomainCapabilities = True"
| "is_libvirt_call (VListAllDomains fs) = True"
| "is_libvirt_call (VGetXMLDesc d) = True"
| "is_libvirt_call c = False"

lemma query_is_libvirt_call: "is_query c \<Longrightarrow> is_libvirt_call c"
  by (cases c) auto

text \<open>
  What the controllers rely on: the systemd object talks to systemd only, the libvirt object to
  libvirtd only, and processing a hypervisor keeps what belongs to the controllers.
\<close>

locale systemd_contract =
  fixes S :: "('s, 'q) systemd_Interface"
  assumes list_units: "only_calls is_systemd_call (sdi_ListUnitsByNames S us)"
    and start_unit: "only_calls is_systemd_call (sdi_StartUnit S u)"
    and connected: "only_calls is_systemd_call (sdi_IsConnected S)"
    and sys_update: "only_calls is_systemd_call (sdi_ReconcileSysUpdate S hv)"
    and enable: "only_calls is_systemd_call (sdi_EnableShutdownInhibit S)"
    and disable: "only_calls is_systemd_call (sdi_DisableShutdownInhibit S)"

locale libvirt_contract =
  fixes L :: "('l, 'q) libvirt_Interface"
  assumes connect: "only_calls is_libvirt_call (lvi_Connect L)"
    and watch: "only_calls is_libvirt_call (lvi_WatchDomainChanges L ev hid h)"
    and process: "only_calls is_libvirt_call (lvi_Process L hv)"
    and process_frame: "lvi_Process L hv l tr = (Ret (hv', r), l', tr') \<Longrightarrow> status_frame hv hv'"

lemma only_calls_mock [simp]: "only_calls P (mock_call name func add call)"
  by (simp add: only_calls_def mock_call_def split: option.splits)

interpretation systemd_real: systemd_contract "systemd_conn D un" for D un
proof
  show "only_calls is_systemd_call (sdi_ListUnitsByNames (systemd_conn D un) us)" for us
    by (simp add: systemd_conn_def only_calls_mtrace ListUnitsByNames_def)
  show "only_calls is_systemd_call (sdi_StartUnit (systemd_conn D un) u)" for u
    by (simp add: systemd_conn_def only_calls_mtrace StartUnit_def)
  show "only_calls is_systemd_call (sdi_IsConnected (systemd_conn D un))"
    by (simp add: systemd_conn_def only_calls_mtrace)
  show "only_calls is_systemd_call (sdi_ReconcileSysUpdate (systemd_conn D un) hv)" for hv
    by (auto simp: systemd_conn_def ReconcileSysUpdate_def GetUnitByName_def ListUnitsByNames_def StartUnit_def
        ext_def Let_def extends_by_def intro!: only_calls_mtrace split: sum.splits list.splits)
  show "only_calls is_systemd_call (sdi_EnableShutdownInhibit (systemd_conn D un))"
    by (auto simp: systemd_conn_def only_calls_def EnableShutdownInhibit_def ext_def Let_def extends_by_def
        split: sum.splits option.splits)
  show "only_calls is_systemd_call (sdi_DisableShutdownInhibit (systemd_conn D un))"
    by (auto simp: systemd_conn_def only_calls_def DisableShutdownInhibit_def close_fd_def ext_def Let_def extends_by_def
        split: option.splits)
qed

interpretation systemd_emulated: systemd_contract "systemd_mock M" for M
  by unfold_locales
     (simp_all add: systemd_mock_def mock_ListUnitsByNames_def mock_StartUnit_def mock_IsConnected_def
       mock_ReconcileSysUpdate_def mock_EnableShutdownInhibit_def mock_DisableShutdownInhibit_def)

lemma extends_by_watch: "extends_by is_libvirt_call tr (snd (WatchDomainChanges V ev hid h l tr))"
  by (auto simp: WatchDomainChanges_trace)

lemma Connect_only_libvirt: "extends_by is_libvirt_call tr (snd (snd (Connect V lookupEnv l tr)))"
proof -
  have v: "extends_by is_libvirt_call t (snd (connect_versions V l t))" for t
    by (auto simp: connect_versions_def ext_def Let_def extends_by_def split: sum.splits)
  have w: "extends_by is_libvirt_call t (snd (connect_watches V l t))" for l t
    unfolding connect_watches_def Let_def split_beta
    by (rule extends_by_trans [OF extends_by_trans [OF extends_by_watch extends_by_watch] extends_by_watch])
  have both: "extends_by is_libvirt_call t (snd (case connect_versions V l t of (l, tr) \<Rightarrow> connect_watches V l tr))" for t
    using v [of t] w by (auto simp: split_beta intro: extends_by_trans)
  have start: "extends_by is_libvirt_call tr (tr @ [VIsConnected])"
    "extends_by is_libvirt_call tr (tr @ [VIsConnected, VConnectToURI uri])" for uri
    by (auto simp: extends_by_def)
  show ?thesis
    unfolding Connect_cases Let_def
    using start both by (auto split: option.splits intro: extends_by_trans)
qed

interpretation libvirt_real: libvirt_contract "libvirt_conn V env Q oob ord (libvirt_clients V rd)" for V env Q oob ord rd
proof
  let ?L = "libvirt_conn V env Q oob ord (libvirt_clients V rd)"
  show "only_calls is_libvirt_call (lvi_Connect ?L)"
    using Connect_only_libvirt [of _ V env] by (auto simp: libvirt_conn_def only_calls_def split_beta)
  show "only_calls is_libvirt_call (lvi_WatchDomainChanges ?L ev hid h)" for ev hid h
    using extends_by_watch [of _ V ev hid h] by (auto simp: libvirt_conn_def only_calls_def split_beta)
  have run: "extends_by is_query tr (snd (Process Q oob ord (libvirt_clients V rd) l hv tr))" for l hv tr
    using process.run_contract [of Q oob ord V rd l hv tr] by (metis Process_def prod.collapse)
  then show "only_calls is_libvirt_call (lvi_Process ?L hv)" for hv
    by (auto simp: libvirt_conn_def only_calls_def split_beta intro: extends_by_mono query_is_libvirt_call)
  show "status_frame hv hv'" if "lvi_Process ?L hv l tr = (Ret (hv', r), l', tr')" for hv l tr hv' r l' tr'
    using that process.run_contract [of Q oob ord V rd l hv tr]
    by (auto simp: libvirt_conn_def Process_def split: prod.splits)
qed

interpretation libvirt_emulated: libvirt_contract "libvirt_mock NewLibVirtEmulator"
  by unfold_locales
     (auto simp: libvirt_mock_def lvmock_Connect_def lvmock_WatchDomainChanges_def lvmock_Process_def mock_call_def
       NewLibVirtEmulator_def only_calls_def)

end
