(* ===== verification/Certificates.thy ===== *)
theory Certificates
  imports World "HOL-Library.Multiset"
begin

text \<open>
  \<^verbatim>\<open>internal/certificates/manage_libvirt.go\<close>: the certificate object for cert-manager and the
  installation of the issued certificate into the directories of libvirt, qemu and cloud-hypervisor;
  with the functions of \<^verbatim>\<open>path/filepath\<close> it uses. The two Go maps are association lists; the
  order in which the code ranges over them is an argument.
\<close>

section \<open>Paths\<close>

definition path_sep :: char where
  "path_sep = CHR ''/''"

fun join_with :: "string \<Rightarrow> string list \<Rightarrow> string" where
  "join_with sep [] = []"
| "join_with sep [x] = x"
| "join_with sep (x # xs) = x @ sep @ join_with sep xs"

text \<open>\<^verbatim>\<open>filepath.Clean\<close>: the components left on the stack (in reverse order).\<close>

fun clean_comps :: "bool \<Rightarrow> string list \<Rightarrow> string list \<Rightarrow> string list" where
  "clean_comps rooted stack [] = rev stack"
| "clean_comps rooted stack (c # cs) =
     (if c = [] \<or> c = ''.'' then clean_comps rooted stack cs
      else if c = ''..'' then
        (case stack of
           [] \<Rightarrow> clean_comps rooted (if rooted then [] else [''..'']) cs
         | prev # rest \<Rightarrow> clean_comps rooted (if prev = ''..'' then c # stack else rest) cs)
      else clean_comps rooted (c # stack) cs)"

definition filepath_Clean :: "string \<Rightarrow> string" where
  "filepath_Clean p =
     (let rooted = (p \<noteq> [] \<and> hd p = path_sep);
          body = join_with [path_sep] (clean_comps rooted [] (split_all path_sep p));
          out = (if rooted then path_sep # body else body)
      in if out = [] then ''.'' else out)"

text \<open>\<^verbatim>\<open>filepath.Join\<close> of two elements, and \<^verbatim>\<open>filepath.Dir\<close>.\<close>

definition filepath_Join :: "string \<Rightarrow> string \<Rightarrow> string" where
  "filepath_Join a b =
     (if a \<noteq> [] then filepath_Clean (a @ [path_sep] @ b) else if b \<noteq> [] then filepath_Clean b else [])"

definition filepath_Dir :: "string \<Rightarrow> string" where
  "filepath_Dir p = filepath_Clean (rev (dropWhile (\<lambda>c. c \<noteq> path_sep) (rev p)))"

section \<open>Definitions\<close>

definition GetSecretAndCertName :: "string \<Rightarrow> string \<times> string" where
  "GetSecretAndCertName host = (''tls-libvirt-'' @ host, ''libvirt-'' @ host)"

definition host_addresses ::
    "'q os_env \<Rightarrow> string \<Rightarrow> 'q trace \<Rightarrow> (goerr + string list) \<times> 'q trace" where
  "host_addresses E hostname tr =
     (case ext (OLookupIP hostname) (\<lambda>t. o_LookupIP E t hostname) tr of
        (Inl err, tr) \<Rightarrow>
          (case o_LookupEnv E ''HOST_IP_ADDRESS'' of
             None \<Rightarrow> (Inl (Wrapped (''failed to resolve hostname '' @ hostname @ '': '') err []), tr)
           | Some ip \<Rightarrow> (Inr [ip], tr))
      | (Inr ips, tr) \<Rightarrow> (Inr (List.map_filter id ips), tr))"

definition certificate_for :: "'q os_env \<Rightarrow> string \<Rightarrow> string \<Rightarrow> string list \<Rightarrow> Certificate" where
  "certificate_for E ns host ips =
     \<lparr>cert_Name = snd (GetSecretAndCertName host), cert_Namespace = ns, cert_Kind = ''Certificate'',
      cert_APIVersion = ''cert-manager.io/v1'', cert_SecretName = fst (GetSecretAndCertName host),
      cert_KeyAlgorithm = ''RSA'', cert_KeyEncoding = ''PKCS1'', cert_KeySize = 4096,
      cert_DurationSec = 8 * 3600, cert_RenewBeforeSec = 2 * 3600, cert_IsCA = False,
      cert_Usages = [''server auth'', ''client auth'', ''cert sign'', ''digital signature'', ''key encipherment''],
      cert_Organizations = [''nova''], cert_CommonName = host, cert_DNSNames = [host], cert_IPAddresses = ips,
      cert_IssuerName = os_Getenv E ''ISSUER_NAME'', cert_IssuerKind = ''Issuer'', cert_IssuerGroup = ''cert-manager.io''\<rparr>"

definition EnsureCertificate ::
    "'q k8s \<Rightarrow> 'q os_env \<Rightarrow> sys_vars \<Rightarrow> string \<Rightarrow> 'q trace \<Rightarrow> goerr option \<times> 'q trace" where
  "EnsureCertificate K E sv host tr =
     (case host_addresses E (Hostname sv) tr of
        (Inl err, tr) \<Rightarrow> (Some err, tr)
      | (Inr ips, tr) \<Rightarrow>
          (let c = certificate_for E (Namespace sv) host ips
           in ext (KCreateOrUpdateCertificate c) (\<lambda>t. k_CreateOrUpdateCertificate K t c) tr))"

definition secretToFileMap :: "(string \<times> string list) list" where
  "secretToFileMap =
     [(''ca.crt'', [''CA/cacert.pem'', ''qemu/ca-cert.pem'', ''ch/ca-cert.pem'']),
      (''tls.crt'', [''libvirt/servercert.pem'', ''qemu/server-cert.pem'', ''ch/server-cert.pem'']),
      (''tls.key'', [''libvirt/private/serverkey.pem'', ''qemu/server-key.pem'', ''ch/server-key.pem''])]"

definition symLinkMap :: "(string \<times> string list) list" where
  "symLinkMap =
     [(''servercert.pem'', [''libvirt/clientcert.pem'']), (''serverkey.pem'', [''libvirt/private/clientkey.pem'']),
      (''server-cert.pem'', [''qemu/client-cert.pem'', ''ch/client-cert.pem'']),
      (''server-key.pem'', [''qemu/client-key.pem'', ''ch/client-key.pem''])]"

text \<open>The nested loops visit the pairs of a source and one of its targets.\<close>

definition pairs :: "('a \<times> 'b list) list \<Rightarrow> ('a \<times> 'b) list" where
  "pairs m = concat (map (\<lambda>(k, vs). map (Pair k) vs) m)"

text \<open>The body of the first loop; the mode is 0644 in octal.\<close>

definition write_one ::
    "'q os_env \<Rightarrow> string \<Rightarrow> (string \<rightharpoonup> byte list) \<Rightarrow> string \<times> string \<Rightarrow> 'q trace \<Rightarrow> goerr option \<times> 'q trace" where
  "write_one E pki data st tr =
     (case st of (source, rel) \<Rightarrow>
        (let target = filepath_Join pki rel in
         case data source of
           None \<Rightarrow> (Some (ErrorsNew (''missing data for secret key '' @ source)), tr)
         | Some content \<Rightarrow>
             (let dir = filepath_Dir target in
              case ext (OMkdirAll dir) (\<lambda>t. o_MkdirAll E t dir) tr of
                (Some err, tr) \<Rightarrow> (Some (Wrapped (''failed to create directory '' @ dir @ '': '') err []), tr)
              | (None, tr) \<Rightarrow>
                  (case ext (OWriteFile target content 420) (\<lambda>t. o_WriteFile E t target content) tr of
                     (Some err, tr) \<Rightarrow> (Some (Wrapped (''failed to write targetFile '' @ target @ '': '') err []), tr)
                   | (None, tr) \<Rightarrow> (None, tr)))))"

text \<open>The body of the second loop.\<close>

definition create_link :: "'q os_env \<Rightarrow> string \<Rightarrow> string \<Rightarrow> 'q trace \<Rightarrow> goerr option \<times> 'q trace" where
  "create_link E source target tr =
     (case ext (OSymlink source target) (\<lambda>t. o_Symlink E t source target) tr of
        (Some err, tr) \<Rightarrow> (Some (Wrapped (''failed to create symlink '' @ target @ '' -> '' @ source @ '': '') err []), tr)
      | (None, tr) \<Rightarrow> (None, tr))"

definition link_one ::
    "'q os_env \<Rightarrow> string \<Rightarrow> string \<times> string \<Rightarrow> 'q trace \<Rightarrow> goerr option \<times> 'q trace" where
  "link_one E pki st tr =
     (case st of (source, rel) \<Rightarrow>
        (let target = filepath_Join pki rel; dir = filepath_Dir target in
         case ext (OMkdirAll dir) (\<lambda>t. o_MkdirAll E t dir) tr of
           (Some err, tr) \<Rightarrow> (Some (Wrapped (''failed to create directory '' @ dir @ '': '') err []), tr)
         | (None, tr) \<Rightarrow>
             (case ext (OLstat target) (\<lambda>t. o_Lstat E t target) tr of
                (Inl err, tr) \<Rightarrow>
                  if \<not> errors_is err OsErrNotExist
                  then (Some (Wrapped (''failed to stat target '' @ target @ '': '') err []), tr)
                  else create_link E source target tr
              | (Inr False, tr) \<Rightarrow> create_link E source target tr
              | (Inr True, tr) \<Rightarrow>
                  (case ext (OReadlink target) (\<lambda>t. o_Readlink E t target) tr of
                     (Inl err, tr) \<Rightarrow> (Some (Wrapped (''failed to read symlink '' @ target @ '': '') err []), tr)
                   | (Inr link, tr) \<Rightarrow>
                       if filepath_Clean link = filepath_Clean source then (None, tr)
                       else (case ext (ORemove target) (\<lambda>t. o_Remove E t target) tr of
                               (Some err, tr) \<Rightarrow> (Some (Wrapped (''failed to remove symlink '' @ target @ '': '') err []), tr)
                             | (None, tr) \<Rightarrow> create_link E source target tr)))))"

fun run_pairs :: "('p \<Rightarrow> 'q trace \<Rightarrow> goerr option \<times> 'q trace) \<Rightarrow> 'p list \<Rightarrow> 'q trace \<Rightarrow> goerr option \<times> 'q trace" where
  "run_pairs body [] tr = (None, tr)"
| "run_pairs body (p # ps) tr =
     (case body p tr of (Some err, tr) \<Rightarrow> (Some err, tr) | (None, tr) \<Rightarrow> run_pairs body ps tr)"

type_synonym map_order = "(string \<times> string list) list \<Rightarrow> (string \<times> string list) list"

definition UpdateTLSCertificate ::
    "'q os_env \<Rightarrow> map_order \<Rightarrow> string \<Rightarrow> (string \<rightharpoonup> byte list) \<Rightarrow> 'q trace \<Rightarrow> goerr option \<times> 'q trace" where
  "UpdateTLSCertificate E ord pki data tr =
     (case run_pairs (write_one E pki data) (pairs (ord secretToFileMap)) tr of
        (Some err, tr) \<Rightarrow> (Some err, tr)
      | (None, tr) \<Rightarrow> run_pairs (link_one E pki) (pairs (ord symLinkMap)) tr)"

section \<open>The loops\<close>

fun is_file_call :: "'q ext_call \<Rightarrow> bool" where
  "is_file_call (OMkdirAll p) = True"
| "is_file_call (OWriteFile p d m) = True"
| "is_file_call (OLstat p) = True"
| "is_file_call (OReadlink p) = True"
| "is_file_call (ORemove p) = True"
| "is_file_call (OSymlink a b) = True"
| "is_file_call c = False"

text \<open>A loop whose body extends the trace by calls of one kind does so itself.\<close>

lemma run_pairs_extends:
  assumes "\<And>p tr. p \<in> set ps \<Longrightarrow> extends_by P tr (snd (body p tr))"
  shows "extends_by P tr (snd (run_pairs body ps tr))"
  using assms
proof (induction ps arbitrary: tr)
  case (Cons p ps)
  obtain r tr1 where b: "body p tr = (r, tr1)" by (cases "body p tr") auto
  then have "extends_by P tr tr1" using Cons.prems [of p tr] by simp
  moreover have "extends_by P tr1 (snd (run_pairs body ps tr1))"
    by (rule Cons.IH) (use Cons.prems in simp)
  ultimately show ?case using b by (cases r) (auto intro: extends_by_trans)
qed simp

lemma run_pairs_success:
  assumes "run_pairs body ps tr = (None, tr')" and "p \<in> set ps"
    and ext: "\<And>q t. extends_by (\<lambda>_. True) t (snd (body q t))"
  shows "\<exists>pre xs post. body p (tr @ pre) = (None, tr @ pre @ xs) \<and> tr' = tr @ pre @ xs @ post"
  using assms(1,2)
proof (induction ps arbitrary: tr)
  case (Cons q ps)
  obtain tr1 where q: "body q tr = (None, tr1)" and rec: "run_pairs body ps tr1 = (None, tr')"
    using Cons.prems(1) by (cases "body q tr") (auto split: option.splits)
  obtain xs where tr1: "tr1 = tr @ xs" using ext [of tr q] q by (auto simp: extends_by_def)
  show ?case
  proof (cases "p = q")
    case True
    have "extends_by (\<lambda>_. True) tr1 (snd (run_pairs body ps tr1))" by (rule run_pairs_extends) (rule ext)
    then obtain post where "tr' = tr1 @ post" using rec by (auto simp: extends_by_def)
    with True q tr1 have "body p (tr @ []) = (None, tr @ [] @ xs) \<and> tr' = tr @ [] @ xs @ post" by simp
    then show ?thesis by blast
  next
    case False
    then obtain pre ys post where "body p (tr1 @ pre) = (None, tr1 @ pre @ ys)" "tr' = tr1 @ pre @ ys @ post"
      using Cons.IH [OF rec] Cons.prems(2) by auto
    then have "body p (tr @ (xs @ pre)) = (None, tr @ (xs @ pre) @ ys) \<and> tr' = tr @ (xs @ pre) @ ys @ post"
      by (simp add: tr1)
    then show ?thesis by blast
  qed
qed simp

lemma run_pairs_failure:
  assumes "p \<in> set ps" and "\<And>t. \<exists>err t'. body p t = (Some err, t')"
  shows "\<exists>err tr'. run_pairs body ps tr = (Some err, tr')"
  using assms
proof (induction ps arbitrary: tr)
  case (Cons q ps)
  show ?case
  proof (cases "body q tr")
    case (Pair r tr1)
    then show ?thesis using Cons.prems(2) [of tr] Cons.IH [of tr1] Cons.prems
      by (cases "p = q"; cases r) auto
  qed
qed simp

fun is_write_call :: "'q ext_call \<Rightarrow> bool" where
  "is_write_call (OMkdirAll p) = True"
| "is_write_call (OWriteFile p d m) = True"
| "is_write_call c = False"

lemma write_is_file_call: "is_write_call c \<Longrightarrow> is_file_call c"
  by (cases c) auto

lemma write_one_extends: "extends_by is_write_call tr (snd (write_one E pki data st tr))"
  by (cases st) (auto simp: write_one_def ext_def Let_def extends_by_def split: option.splits)

lemma link_one_extends: "extends_by is_file_call tr (snd (link_one E pki st tr))"
  by (cases st) (auto simp: link_one_def create_link_def ext_def Let_def extends_by_def
      split: option.splits sum.splits bool.splits)

lemma write_all_extends: "extends_by is_write_call tr (snd (run_pairs (write_one E pki data) ps tr))"
  by (rule run_pairs_extends) (rule write_one_extends)

lemma link_all_extends: "extends_by is_file_call tr (snd (run_pairs (link_one E pki) ps tr))"
  by (rule run_pairs_extends) (rule link_one_extends)

text \<open>
  What a run that started at \<open>tr\<close> and made the calls \<open>cs\<close> has achieved: a call of the sequence that was answered with
  success at the moment it was made. A file was written with the given data; a link was created, or read and found to
  lead to its source.
\<close>

definition written :: "'q os_env \<Rightarrow> string \<Rightarrow> byte list \<Rightarrow> 'q trace \<Rightarrow> 'q trace \<Rightarrow> bool" where
  "written E path content tr cs \<longleftrightarrow>
     (\<exists>pre post. cs = pre @ OWriteFile path content 420 # post \<and> o_WriteFile E (tr @ pre) path content = None)"

definition linked :: "'q os_env \<Rightarrow> string \<Rightarrow> string \<Rightarrow> 'q trace \<Rightarrow> 'q trace \<Rightarrow> bool" where
  "linked E source target tr cs \<longleftrightarrow>
     (\<exists>pre post. cs = pre @ OSymlink source target # post \<and> o_Symlink E (tr @ pre) source target = None) \<or>
     (\<exists>pre post link. cs = pre @ OReadlink target # post \<and> o_Readlink E (tr @ pre) target = Inr link
        \<and> filepath_Clean link = filepath_Clean source)"

lemma written_middle: "written E path content (tr @ as) xs \<Longrightarrow> written E path content tr (as @ xs @ bs)"
  unfolding written_def by (metis append.assoc append_Cons)

lemma linked_middle: "linked E source target (tr @ as) xs \<Longrightarrow> linked E source target tr (as @ xs @ bs)"
  unfolding linked_def by (metis append.assoc append_Cons)

lemma write_one_written:
  assumes "write_one E pki data (source, rel) t = (None, t @ xs)"
  shows "\<exists>content. data source = Some content \<and> written E (filepath_Join pki rel) content t xs"
proof -
  let ?path = "filepath_Join pki rel" and ?dir = "OMkdirAll (filepath_Dir (filepath_Join pki rel))"
  obtain content where "data source = Some content" "xs = [?dir] @ OWriteFile ?path content 420 # []"
      "o_WriteFile E (t @ [?dir]) ?path content = None"
    using assms by (auto simp: write_one_def ext_def Let_def split: option.splits)
  then show ?thesis unfolding written_def by blast
qed

lemma create_link_linked:
  assumes "create_link E source target (t @ as) = (None, t @ xs)"
  shows "linked E source target t xs"
proof -
  have "xs = as @ OSymlink source target # []" "o_Symlink E (t @ as) source target = None"
    using assms by (auto simp: create_link_def ext_def split: option.splits)
  then show ?thesis unfolding linked_def by blast
qed

lemma link_one_linked:
  assumes "link_one E pki (source, rel) t = (None, t @ xs)"
  shows "linked E source (filepath_Join pki rel) t xs"
proof -
  let ?p = "filepath_Join pki rel" and ?dir = "OMkdirAll (filepath_Dir (filepath_Join pki rel))"
  let ?t1 = "t @ [?dir, OLstat ?p]"
  have create: ?thesis if "create_link E source ?p (t @ as) = (None, t @ xs)" for as
    using that by (rule create_link_linked)
  have dir: "o_MkdirAll E t (filepath_Dir ?p) = None"
    using assms by (cases "o_MkdirAll E t (filepath_Dir ?p)") (simp_all add: link_one_def ext_def Let_def)
  show ?thesis
  proof (cases "o_Lstat E (t @ [?dir]) ?p")
    case (Inl err)
    then show ?thesis using assms dir create [of "[?dir, OLstat ?p]"]
      by (simp add: link_one_def ext_def Let_def split: if_splits)
  next
    case (Inr symlink)
    show ?thesis
    proof (cases symlink)
      case False
      then show ?thesis using assms dir Inr create [of "[?dir, OLstat ?p]"] by (simp add: link_one_def ext_def Let_def)
    next
      case True
      then obtain link where link: "o_Readlink E ?t1 ?p = Inr link"
        using assms dir Inr by (cases "o_Readlink E ?t1 ?p") (simp_all add: link_one_def ext_def Let_def)
      show ?thesis
      proof (cases "filepath_Clean link = filepath_Clean source")
        case True
        then have "xs = [?dir, OLstat ?p] @ OReadlink ?p # []"
          using assms dir Inr link \<open>symlink\<close> by (simp add: link_one_def ext_def Let_def)
        then show ?thesis unfolding linked_def using link True by blast
      next
        case False
        then show ?thesis
          using assms dir Inr link \<open>symlink\<close> create [of "[?dir, OLstat ?p, OReadlink ?p, ORemove ?p]"]
          by (simp add: link_one_def ext_def Let_def split: option.splits)
      qed
    qed
  qed
qed

lemma write_all_files:
  assumes "run_pairs (write_one E pki data) ps tr = (None, tr')" and "(source, rel) \<in> set ps"
  shows "\<exists>content cs. data source = Some content \<and> tr' = tr @ cs \<and> written E (filepath_Join pki rel) content tr cs"
proof -
  have "extends_by (\<lambda>_. True) t (snd (write_one E pki data p t))" for p t
    using write_one_extends by (blast intro: extends_by_mono)
  from run_pairs_success [OF assms this] obtain pre xs post where
    w: "write_one E pki data (source, rel) (tr @ pre) = (None, (tr @ pre) @ xs)" and tr': "tr' = tr @ pre @ xs @ post" by auto
  then show ?thesis using write_one_written [OF w] written_middle by blast
qed

lemma link_all_linked:
  assumes "run_pairs (link_one E pki) ps tr = (None, tr')" and "(source, rel) \<in> set ps"
  shows "\<exists>cs. tr' = tr @ cs \<and> linked E source (filepath_Join pki rel) tr cs"
proof -
  have "extends_by (\<lambda>_. True) t (snd (link_one E pki p t))" for p t
    using link_one_extends by (blast intro: extends_by_mono)
  from run_pairs_success [OF assms this] obtain pre xs post where
    l: "link_one E pki (source, rel) (tr @ pre) = (None, (tr @ pre) @ xs)" and tr': "tr' = tr @ pre @ xs @ post" by auto
  then show ?thesis using link_one_linked [OF l] linked_middle by blast
qed

text \<open>No error of the file system is passed over, but that a link does not exist yet.\<close>

fun call_ok :: "'q os_env \<Rightarrow> 'q trace \<Rightarrow> 'q ext_call \<Rightarrow> bool" where
  "call_ok E t (OMkdirAll p) = (o_MkdirAll E t p = None)"
| "call_ok E t (OWriteFile p d m) = (o_WriteFile E t p d = None)"
| "call_ok E t (OLstat p) = (case o_Lstat E t p of Inl err \<Rightarrow> errors_is err OsErrNotExist | Inr b \<Rightarrow> True)"
| "call_ok E t (OReadlink p) = (\<exists>link. o_Readlink E t p = Inr link)"
| "call_ok E t (ORemove p) = (o_Remove E t p = None)"
| "call_ok E t (OSymlink a b) = (o_Symlink E t a b = None)"
| "call_ok E t c = False"

fun calls_ok :: "'q os_env \<Rightarrow> 'q trace \<Rightarrow> 'q trace \<Rightarrow> bool" where
  "calls_ok E t [] = True"
| "calls_ok E t (c # cs) = (call_ok E t c \<and> calls_ok E (t @ [c]) cs)"

lemma calls_ok_append: "calls_ok E t (as @ bs) \<longleftrightarrow> calls_ok E t as \<and> calls_ok E (t @ as) bs"
  by (induction as arbitrary: t) auto

lemma write_one_ok: "write_one E pki data p t = (None, t @ xs) \<Longrightarrow> calls_ok E t xs"
  by (cases p) (auto simp: write_one_def ext_def Let_def split: option.splits)

lemma link_one_ok: "link_one E pki p t = (None, t @ xs) \<Longrightarrow> calls_ok E t xs"
  by (cases p) (auto simp: link_one_def create_link_def ext_def Let_def split: option.splits sum.splits bool.splits if_splits)

lemma run_pairs_ok:
  assumes "run_pairs body ps tr = (None, tr @ cs)"
    and ok: "\<And>p t xs. body p t = (None, t @ xs) \<Longrightarrow> calls_ok E t xs"
    and ext: "\<And>p t. extends_by (\<lambda>_. True) t (snd (body p t))"
  shows "calls_ok E tr cs"
  using assms(1)
proof (induction ps arbitrary: tr cs)
  case (Cons p ps)
  obtain tr1 where p: "body p tr = (None, tr1)" and rec: "run_pairs body ps tr1 = (None, tr @ cs)"
    using Cons.prems by (cases "body p tr") (auto split: option.splits)
  obtain xs where tr1: "tr1 = tr @ xs" using ext [of tr p] p by (auto simp: extends_by_def)
  obtain ys where "tr @ cs = tr1 @ ys"
    using run_pairs_extends [of ps "\<lambda>_. True" body tr1] ext rec by (auto simp: extends_by_def)
  then have cs: "cs = xs @ ys" by (simp add: tr1)
  have "calls_ok E tr1 ys" by (rule Cons.IH) (use rec cs tr1 in simp)
  then show ?case using ok [of p tr xs] p tr1 cs by (simp add: calls_ok_append)
qed simp

lemma set_pairs: "(k, v) \<in> set (pairs m) \<longleftrightarrow> (\<exists>vs. (k, vs) \<in> set m \<and> v \<in> set vs)"
  by (auto simp: pairs_def)

section \<open>Properties\<close>

text \<open>
  C38. When \<^verbatim>\<open>UpdateTLSCertificate\<close> reports success, whatever the order of the maps, the file system was the only
  thing called and answered every call with success (or that a link does not exist yet): every target of every secret key
  has been written with that key's data, and every link target has been linked to its source or been
  read and found to lead there.
\<close>

theorem UpdateTLSCertificate_installs:
  assumes ord: "\<And>m. mset (ord m) = mset m" and run: "UpdateTLSCertificate E ord pki data tr = (None, tr')"
  shows "\<exists>cs. tr' = tr @ cs \<and> list_all is_file_call cs \<and> calls_ok E tr cs \<and>
     (\<forall>(source, targets) \<in> set secretToFileMap. \<forall>rel \<in> set targets.
        \<exists>content. data source = Some content \<and> written E (filepath_Join pki rel) content tr cs) \<and>
     (\<forall>(source, targets) \<in> set symLinkMap. \<forall>rel \<in> set targets. linked E source (filepath_Join pki rel) tr cs)"
proof -
  obtain tr1 where w: "run_pairs (write_one E pki data) (pairs (ord secretToFileMap)) tr = (None, tr1)"
    and l: "run_pairs (link_one E pki) (pairs (ord symLinkMap)) tr1 = (None, tr')"
    using run by (auto simp: UpdateTLSCertificate_def split: prod.splits option.splits)
  obtain ws where ws: "tr1 = tr @ ws" "list_all is_write_call ws"
    using write_all_extends [of tr E pki data "pairs (ord secretToFileMap)"] w by (auto simp: extends_by_def)
  obtain ls where ls: "tr' = tr1 @ ls" "list_all is_file_call ls"
    using link_all_extends [of tr1 E pki "pairs (ord symLinkMap)"] l by (auto simp: extends_by_def)
  have sets: "set (ord m) = set m" for m using ord by (metis set_mset_mset)
  have files: "\<exists>content. data source = Some content \<and> written E (filepath_Join pki rel) content tr (ws @ ls)"
    if "(source, targets) \<in> set secretToFileMap" "rel \<in> set targets" for source targets rel
  proof -
    have "(source, rel) \<in> set (pairs (ord secretToFileMap))" using that by (auto simp: set_pairs sets)
    from write_all_files [OF w this] ws(1) show ?thesis using written_middle [of E _ _ tr "[]" ws ls] by auto
  qed
  have links: "linked E source (filepath_Join pki rel) tr (ws @ ls)"
    if "(source, targets) \<in> set symLinkMap" "rel \<in> set targets" for source targets rel
  proof -
    have "(source, rel) \<in> set (pairs (ord symLinkMap))" using that by (auto simp: set_pairs sets)
    from link_all_linked [OF l this] ls(1) ws(1) show ?thesis using linked_middle [of E _ _ tr ws ls "[]"] by auto
  qed
  have "calls_ok E tr ws"
    by (rule run_pairs_ok [OF w [unfolded ws(1)] write_one_ok]) (auto intro: extends_by_mono [OF write_one_extends])
  moreover have "calls_ok E tr1 ls"
    by (rule run_pairs_ok [OF l [unfolded ls(1)] link_one_ok]) (auto intro: extends_by_mono [OF link_one_extends])
  moreover have "list_all is_file_call (ws @ ls)"
    using ws(2) ls(2) write_is_file_call by (auto simp: list_all_iff)
  ultimately show ?thesis
    using ws(1) ls(1) files links by (intro exI [of _ "ws @ ls"]) (auto simp: calls_ok_append)
qed

theorem UpdateTLSCertificate_installs_witness:
  "\<exists>tr'. UpdateTLSCertificate (idle_os :: unit os_env) rev ''/pki'' (\<lambda>k. Some [1]) [] = (None, tr')
     \<and> calls_ok idle_os [] tr' \<and> written idle_os (filepath_Join ''/pki'' ''qemu/server-key.pem'') [1] [] tr'
     \<and> linked idle_os ''server-key.pem'' (filepath_Join ''/pki'' ''qemu/client-key.pem'') [] tr'"
proof -
  obtain tr' where eq: "UpdateTLSCertificate (idle_os :: unit os_env) rev ''/pki'' (\<lambda>k. Some [1]) [] = (None, tr')"
    by (simp add: UpdateTLSCertificate_def secretToFileMap_def symLinkMap_def pairs_def write_one_def link_one_def
        create_link_def ext_def idle_os_def Let_def)
  have "(''tls.key'', [''libvirt/private/serverkey.pem'', ''qemu/server-key.pem'', ''ch/server-key.pem'']) \<in> set secretToFileMap"
    "(''server-key.pem'', [''qemu/client-key.pem'', ''ch/client-key.pem'']) \<in> set symLinkMap"
    by (simp_all add: secretToFileMap_def symLinkMap_def)
  with UpdateTLSCertificate_installs [OF mset_rev eq] eq show ?thesis by fastforce
qed

text \<open>
  A secret without one of its three keys is never installed: the result is an error, at most
  some files were written by then, and no link was looked at or changed.
\<close>

lemma UpdateTLSCertificate_incomplete:
  assumes ord: "\<And>m. mset (ord m) = mset m" and "source \<in> {''ca.crt'', ''tls.crt'', ''tls.key''}" and "data source = None"
  shows "\<exists>err tr'. UpdateTLSCertificate E ord pki data tr = (Some err, tr') \<and> extends_by is_write_call tr tr'"
proof -
  obtain targets where st: "(source, targets) \<in> set secretToFileMap" and "targets \<noteq> []"
    using assms(2) by (auto simp: secretToFileMap_def)
  then obtain rel where "rel \<in> set targets" by (meson list.set_sel(1))
  moreover have "(source, targets) \<in> set (ord secretToFileMap)" using st ord by (metis set_mset_mset)
  ultimately have p: "(source, rel) \<in> set (pairs (ord secretToFileMap))" by (auto simp: set_pairs)
  have "\<exists>err t'. write_one E pki data (source, rel) t = (Some err, t')" for t
    using assms(3) by (simp add: write_one_def Let_def)
  from run_pairs_failure [where body = "write_one E pki data", OF p this] obtain err tr' where
    r: "run_pairs (write_one E pki data) (pairs (ord secretToFileMap)) tr = (Some err, tr')" by blast
  moreover have "extends_by is_write_call tr tr'"
    using write_all_extends [of tr E pki data "pairs (ord secretToFileMap)"] r by simp
  ultimately show ?thesis by (simp add: UpdateTLSCertificate_def)
qed

end
