(* ===== verification/HypervisorController.thy ===== *)
theory HypervisorController
  imports Interfaces Certificates
begin

text \<open>
  \<^verbatim>\<open>internal/controller/hypervisor_controller.go\<close>: the reconciliation of the \<^verbatim>\<open>Hypervisor\<close>
  object of this node. \<^verbatim>\<open>Reconcile\<close> is the sequence of its sections: systemd, libvirt, the
  operating system update, the certificate and the final patch of the status. A section returns early
  (\<open>Inl\<close>, with the error to return) or hands the changed object on (\<open>Inr\<close>). The result of a
  reconciliation is the delay in seconds after which it is repeated (0 for none) and an error.
\<close>

section \<open>Definitions\<close>

record ('s, 'l) HypervisorReconciler =
  hr_Systemd :: 's
  hr_Libvirt :: 'l
  hr_osDescriptor :: "Descriptor option"
  hr_kernelParameters :: "Parameters option"
  hr_evacuateOnReboot :: bool

type_synonym ('s, 'l, 'q, 'r) reconciler_method = "(('s, 'l) HypervisorReconciler, 'q, 'r) go_method"

definition hr_systemd :: "('s, 'q, 'r) go_method \<Rightarrow> ('s, 'l, 'q, 'r) reconciler_method" where
  "hr_systemd m r tr = (case m (hr_Systemd r) tr of (x, s, tr) \<Rightarrow> (x, r\<lparr>hr_Systemd := s\<rparr>, tr))"

definition hr_libvirt :: "('l, 'q, 'r) go_method \<Rightarrow> ('s, 'l, 'q, 'r) reconciler_method" where
  "hr_libvirt m r tr = (case m (hr_Libvirt r) tr of (x, l, tr) \<Rightarrow> (x, r\<lparr>hr_Libvirt := l\<rparr>, tr))"

definition hr_read :: "(('s, 'l) HypervisorReconciler \<Rightarrow> 'r) \<Rightarrow> ('s, 'l, 'q, 'r) reconciler_method" where
  "hr_read f r tr = (Ret (f r), r, tr)"

definition hr_setEvacuate :: "bool \<Rightarrow> ('s, 'l, 'q, unit) reconciler_method" where
  "hr_setEvacuate b r tr = (Ret (), r\<lparr>hr_evacuateOnReboot := b\<rparr>, tr)"

definition OSUpdateType :: string where "OSUpdateType = ''OperatingSystemUpdate''"
definition LibVirtType :: string where "LibVirtType = ''LibVirtConnection''"

definition set_condition :: "'q k8s \<Rightarrow> Condition \<Rightarrow> 'q Hypervisor \<Rightarrow> 'q Hypervisor" where
  "set_condition K c = map_status (status_Conditions_update (\<lambda>cs. k_SetStatusCondition K cs c))"

subsection \<open>Systemd\<close>

text \<open>A lookup in a Go map returns the zero value, here the empty string, for a missing key.\<close>

definition lookup_string :: "(string \<times> string) list \<Rightarrow> string \<Rightarrow> string" where
  "lookup_string m k = (case map_of m k of Some v \<Rightarrow> v | None \<Rightarrow> [])"

definition unit_condition :: "UnitStatus \<Rightarrow> Condition" where
  "unit_condition u =
     \<lparr>cond_Type = unit_Name u,
      cond_Status = lookup_string [(''active'', ConditionTrue), (''inactive'', ConditionFalse), (''failed'', ConditionFalse)]
                      (unit_ActiveState u),
      cond_Reason = lookup_string [(''active'', ''Running''), (''inactive'', ''Stopped''), (''failed'', ''Failed'')]
                      (unit_ActiveState u),
      cond_Message = unit_Name u @ '': '' @ unit_ActiveState u @ '', '' @ unit_LoadState u\<rparr>"

definition set_units :: "'q k8s \<Rightarrow> UnitStatus list \<Rightarrow> 'q Hypervisor \<Rightarrow> 'q Hypervisor" where
  "set_units K units hv = foldl (\<lambda>hv u. set_condition K (unit_condition u) hv) hv units"

text \<open>
  One line of the release data: the switch on the part before the first equals sign; the part after
  it is read by its index, which panics when there is none.
\<close>

definition os_keys :: "(string \<times> (string \<Rightarrow> OperatingSystemStatus \<Rightarrow> OperatingSystemStatus)) list" where
  "os_keys =
     [(''PRETTY_NAME'', \<lambda>v. os_PrettyVersion_update (\<lambda>_. v)),
      (''GARDENLINUX_VERSION'', \<lambda>v. os_Version_update (\<lambda>_. v)),
      (''GARDENLINUX_COMMIT_ID_LONG'', \<lambda>v. os_GardenLinuxCommitID_update (\<lambda>_. v)),
      (''GARDENLINUX_FEATURES'', \<lambda>v. os_GardenLinuxFeatures_update (\<lambda>_. split_all CHR '','' v)),
      (''VARIANT_ID'', \<lambda>v. os_VariantID_update (\<lambda>_. v))]"

definition index_panic :: string where
  "index_panic = ''runtime error: index out of range [1] with length 1''"

definition os_line :: "string \<Rightarrow> OperatingSystemStatus \<Rightarrow> OperatingSystemStatus outcome" where
  "os_line line os =
     (let splitLine = split_n2 CHR ''='' line in
      case map_of os_keys (hd splitLine) of
        None \<Rightarrow> Ret os
      | Some upd \<Rightarrow> (case splitLine of [k, v] \<Rightarrow> Ret (upd v os) | _ \<Rightarrow> Panic index_panic))"

fun os_lines :: "string list \<Rightarrow> OperatingSystemStatus \<Rightarrow> OperatingSystemStatus outcome" where
  "os_lines [] os = Ret os"
| "os_lines (l # ls) os = outcome_bind (os_line l os) (os_lines ls)"

definition describe_os :: "Descriptor \<Rightarrow> OperatingSystemStatus \<Rightarrow> OperatingSystemStatus outcome" where
  "describe_os desc os =
     outcome_bind (os_lines (desc_OperatingSystemReleaseData desc) os) (\<lambda>os.
       Ret (os\<lparr>os_KernelVersion := desc_KernelVersion desc, os_KernelRelease := desc_KernelRelease desc,
               os_KernelName := desc_KernelName desc, os_HardwareVendor := desc_HardwareVendor desc,
               os_HardwareModel := desc_HardwareModel desc, os_HardwareSerial := desc_HardwareSerial desc,
               os_FirmwareVersion := desc_FirmwareVersion desc, os_FirmwareVendor := desc_FirmwareVendor desc,
               os_FirmwareDate := desc_FirmwareDate desc\<rparr>))"

definition set_os :: "Descriptor option \<Rightarrow> 'q Hypervisor \<Rightarrow> ('s, 'l, 'q, 'q Hypervisor) reconciler_method" where
  "set_os desc hv =
     (case desc of
        None \<Rightarrow> mret hv
      | Some d \<Rightarrow>
          if os_Version (hv_os hv) \<noteq> [] then mret hv
          else (case describe_os d (hv_os hv) of
                  Ret os \<Rightarrow> mret (map_os (\<lambda>_. os) hv)
                | Panic msg \<Rightarrow> mpanic msg
                | Blocked \<Rightarrow> mpanic []))"

definition set_kernel :: "Parameters option \<Rightarrow> 'q Hypervisor \<Rightarrow> 'q Hypervisor" where
  "set_kernel params hv =
     (case params of
        None \<Rightarrow> hv
      | Some p \<Rightarrow> if os_KernelCommandLine (hv_os hv) = [] then map_os (os_KernelCommandLine_update (\<lambda>_. CommandLine p)) hv else hv)"

definition switch_inhibit ::
    "('s, 'q) systemd_Interface \<Rightarrow> 'q Hypervisor \<Rightarrow> ('s, 'l, 'q, goerr option + 'q Hypervisor) reconciler_method" where
  "switch_inhibit S hv =
     (let want = spec_EvacuateOnReboot (hv_Spec hv) in
      mbind (hr_read hr_evacuateOnReboot) (\<lambda>current.
        if want = current then mret (Inr hv)
        else mbind (hr_systemd (if want then sdi_EnableShutdownInhibit S else sdi_DisableShutdownInhibit S)) (\<lambda>r.
               case r of
                 Some err \<Rightarrow> mret (Inl (Some err))
               | None \<Rightarrow> mbind (hr_setEvacuate want) (\<lambda>_. mret (Inr hv)))))"

definition reconcile_systemd ::
    "'q k8s \<Rightarrow> ('s, 'q) systemd_Interface \<Rightarrow> 'q Hypervisor \<Rightarrow> ('s, 'l, 'q, goerr option + 'q Hypervisor) reconciler_method" where
  "reconcile_systemd K S hv =
     mbind (hr_systemd (sdi_IsConnected S)) (\<lambda>connected.
       if \<not> connected then mret (Inr hv)
       else mbind (hr_systemd (sdi_ListUnitsByNames S [''libvirtd.service'', ''openvswitch-switch.service''])) (\<lambda>r.
         case r of
           Inl err \<Rightarrow> mret (Inl (Some err))
         | Inr units \<Rightarrow>
             mbind (hr_read hr_osDescriptor) (\<lambda>desc.
               mbind (set_os desc (set_units K units hv)) (\<lambda>hv.
                 mbind (hr_read hr_kernelParameters) (\<lambda>params.
                   switch_inhibit S (set_kernel params hv))))))"

subsection \<open>Libvirt\<close>

definition libvirt_condition :: "string \<Rightarrow> string \<Rightarrow> string \<Rightarrow> Condition" where
  "libvirt_condition status reason message =
     \<lparr>cond_Type = LibVirtType, cond_Status = status, cond_Reason = reason, cond_Message = message\<rparr>"

definition reconcile_libvirt ::
    "'q k8s \<Rightarrow> ('l, 'q) libvirt_Interface \<Rightarrow> 'q Hypervisor \<Rightarrow> ('s, 'l, 'q, goerr option + 'q Hypervisor) reconciler_method" where
  "reconcile_libvirt K L hv =
     (if k_IsStatusConditionFalse K (hv_conditions hv) ''libvirtd.service''
      then mret (Inr (set_condition K (libvirt_condition ConditionFalse ''LibVirtServiceNotRunning''
                        ''libvirtd service is not running'') hv))
      else mbind (hr_libvirt (lvi_Connect L)) (\<lambda>r.
        case r of
          Some err \<Rightarrow>
            mret (Inr (set_condition K (libvirt_condition ConditionFalse ''ConnectFailed''
                         (''unable to connect to libvirtd: '' @ error_text err)) hv))
        | None \<Rightarrow>
            mbind (hr_libvirt (lvi_Process L (set_condition K (libvirt_condition ConditionTrue ''Connected'' []) hv))) (\<lambda>(hv, r).
              case r of
                Some err \<Rightarrow> mret (Inl (Some err)) \<comment> \<open>the condition set on the object is dropped with it\<close>
              | None \<Rightarrow> mret (Inr hv))))"

subsection \<open>Operating system update\<close>

definition patch_status ::
    "'q k8s \<Rightarrow> 'q Hypervisor \<Rightarrow> 'q Hypervisor \<Rightarrow> ('s, 'l, 'q, goerr option + 'q Hypervisor) reconciler_method" where
  "patch_status K base hv =
     mbind (mext (KPatchHypervisorStatus hv base) (\<lambda>t. k_PatchHypervisorStatus K t hv base)) (\<lambda>r.
       case r of Inl err \<Rightarrow> mret (Inl (Some err)) | Inr hv \<Rightarrow> mret (Inr hv))"

text \<open>The branch for an exhausted retry count ends the reconciliation.\<close>

definition retry_limit ::
    "'q k8s \<Rightarrow> 'q Hypervisor \<Rightarrow> 'q Hypervisor \<Rightarrow> ('s, 'l, 'q, goerr option + 'q Hypervisor) reconciler_method" where
  "retry_limit K base hv =
     mstep (patch_status K base (map_update (update_Retry_update (\<lambda>_. 3)) hv)) (\<lambda>hv.
       mstep (patch_status K base (hv_Spec_update (spec_OperatingSystemVersion_update (\<lambda>_. [])) hv)) (\<lambda>hv.
         mret (Inl None)))"

definition update_condition :: "string \<Rightarrow> string \<Rightarrow> string \<Rightarrow> Condition" where
  "update_condition status reason message =
     \<lparr>cond_Type = OSUpdateType, cond_Status = status, cond_Reason = reason, cond_Message = message\<rparr>"

text \<open>What the section does with the result of \<^verbatim>\<open>ReconcileSysUpdate\<close>.\<close>

definition record_update :: "'q k8s \<Rightarrow> bool \<Rightarrow> goerr option \<Rightarrow> 'q Hypervisor \<Rightarrow> 'q Hypervisor" where
  "record_update K running err hv =
     (let version = spec_OperatingSystemVersion (hv_Spec hv);
          hv = (case err of
                  None \<Rightarrow> hv
                | Some e \<Rightarrow> map_update (update_Retry_update (\<lambda>n. n - 1))
                              (set_condition K (update_condition ConditionFalse ''Stopped'' (error_text e)) hv));
          hv = (if \<not> update_InProgress (hv_update hv) \<and> running
                then set_condition K (update_condition ConditionTrue ''Running''
                       (''Operating system update to '' @ version @ '' is running'')) hv
                else hv);
          hv = (if \<not> running \<and> err = None
                then map_update (update_Installed_update (\<lambda>_. version))
                       (set_condition K (update_condition ConditionTrue ''Completed''
                          (''Operating system update '' @ version @ '' is installed'')) hv)
                else hv)
      in map_update (update_InProgress_update (\<lambda>_. running)) hv)"

definition update_wanted :: "'q Hypervisor \<Rightarrow> bool" where
  "update_wanted hv \<longleftrightarrow>
     (let version = spec_OperatingSystemVersion (hv_Spec hv)
      in version \<noteq> [] \<and> version \<noteq> os_Version (hv_os hv) \<and> version \<noteq> update_Installed (hv_update hv))"

definition reconcile_update ::
    "'q k8s \<Rightarrow> ('s, 'q) systemd_Interface \<Rightarrow> 'q Hypervisor \<Rightarrow> 'q Hypervisor
     \<Rightarrow> ('s, 'l, 'q, goerr option + 'q Hypervisor) reconciler_method" where
  "reconcile_update K S base hv =
     (if \<not> update_wanted hv then mret (Inr hv)
      else if update_Retry (hv_update hv) = 0 then retry_limit K base hv
      else mbind (hr_systemd (sdi_ReconcileSysUpdate S hv)) (\<lambda>(running, err). mret (Inr (record_update K running err hv))))"

subsection \<open>Reconcile\<close>

definition ensure_certificate ::
    "'q k8s \<Rightarrow> 'q os_env \<Rightarrow> sys_vars \<Rightarrow> 'q Hypervisor \<Rightarrow> ('s, 'l, 'q, goerr option + 'q Hypervisor) reconciler_method" where
  "ensure_certificate K E sv hv =
     (if \<not> spec_CreateCertManagerCertificate (hv_Spec hv) then mret (Inr hv)
      else mbind (mtrace (EnsureCertificate K E sv (Hostname sv))) (\<lambda>r.
             case r of Some err \<Rightarrow> mret (Inl (Some err)) | None \<Rightarrow> mret (Inr hv)))"

definition sections ::
    "'q k8s \<Rightarrow> 'q os_env \<Rightarrow> ('s, 'q) systemd_Interface \<Rightarrow> ('l, 'q) libvirt_Interface \<Rightarrow> sys_vars \<Rightarrow> 'q Hypervisor
     \<Rightarrow> ('s, 'l, 'q, goerr option + 'q Hypervisor) reconciler_method" where
  "sections K E S L sv base =
     mstep (reconcile_systemd K S base) (\<lambda>hv.
       mstep (reconcile_libvirt K L hv) (\<lambda>hv.
         mstep (reconcile_update K S base hv) (\<lambda>hv.
           mstep (ensure_certificate K E sv hv) (\<lambda>hv.
             patch_status K base hv))))"

definition wrong_host :: "sys_vars \<Rightarrow> string \<Rightarrow> string" where
  "wrong_host sv name = ''reconciling hypervisor '' @ name @ '', but I am running on '' @ Hostname sv"

definition Reconcile ::
    "'q k8s \<Rightarrow> 'q os_env \<Rightarrow> ('s, 'q) systemd_Interface \<Rightarrow> ('l, 'q) libvirt_Interface \<Rightarrow> sys_vars \<Rightarrow> string \<times> string
     \<Rightarrow> ('s, 'l, 'q, nat \<times> goerr option) reconciler_method" where
  "Reconcile K E S L sv req =
     (case req of (ns, name) \<Rightarrow>
       if name \<noteq> Hostname sv then mpanic (wrong_host sv name)
       else mbind (mext (KGetHypervisor ns name) (\<lambda>t. k_GetHypervisor K t ns name)) (\<lambda>r.
         case r of
           Inl err \<Rightarrow> mret (0, k_IgnoreNotFound K (Some err))
         | Inr base \<Rightarrow>
             mbind (sections K E S L sv base) (\<lambda>r.
               case r of Inl err \<Rightarrow> mret (0, err) | Inr hv \<Rightarrow> mret (60, None))))"

subsection \<open>Start and setup\<close>

text \<open>The event that \<^verbatim>\<open>triggerReconcile\<close> sends, and the request the manager makes of it.\<close>

record GenericEvent =
  event_Kind :: string
  event_APIVersion :: string
  event_Name :: string
  event_Namespace :: string

definition triggerReconcile :: "sys_vars \<Rightarrow> GenericEvent" where
  "triggerReconcile sv =
     \<lparr>event_Kind = ''Hypervisor'', event_APIVersion = ''kvm.cloud.sap/v1'', event_Name = Hostname sv, event_Namespace = Namespace sv\<rparr>"

definition event_request :: "GenericEvent \<Rightarrow> string \<times> string" where
  "event_request e = (event_Namespace e, event_Name e)"

text \<open>
  The loop that waits for the connection, with fuel (\<open>None\<close>: still trying) and the error of the
  context as a function of the trace.
\<close>

fun connect_loop ::
    "'q k8s \<Rightarrow> ('l, 'q) libvirt_Interface \<Rightarrow> ('q trace \<Rightarrow> goerr option) \<Rightarrow> nat \<Rightarrow> nat \<Rightarrow> 'q Hypervisor
     \<Rightarrow> ('s, 'l, 'q, goerr option option) reconciler_method" where
  "connect_loop K L ctxErr interval 0 hv = mret None"
| "connect_loop K L ctxErr interval (Suc n) hv =
     mbind (\<lambda>r tr. (Ret (ctxErr tr), r, tr)) (\<lambda>done.
       case done of
         Some err \<Rightarrow> mret (Some (Some (Wrapped ''context done while trying to connect to libvirt: '' err [])))
       | None \<Rightarrow>
           mbind (hr_libvirt (lvi_Connect L)) (\<lambda>r.
             case r of
               None \<Rightarrow> mret (Some None)
             | Some err \<Rightarrow>
                 (let hv' = set_condition K (libvirt_condition ConditionFalse ''ConnectFailed''
                              (''unable to connect to libvirt: '' @ error_text err)) hv
                  in mbind (mext (KPatchHypervisorStatus hv' hv) (\<lambda>t. k_PatchHypervisorStatus K t hv' hv)) (\<lambda>r.
                       mbind (mext (OSleep (if interval = 0 then 5 else interval)) (\<lambda>_. ())) (\<lambda>_.
                         connect_loop K L ctxErr interval n (case r of Inl e \<Rightarrow> hv' | Inr hv'' \<Rightarrow> hv''))))))"

definition Start ::
    "'q k8s \<Rightarrow> ('l, 'q) libvirt_Interface \<Rightarrow> sys_vars \<Rightarrow> ('q trace \<Rightarrow> goerr option) \<Rightarrow> nat \<Rightarrow> nat
     \<Rightarrow> ('s, 'l, 'q, goerr option option) reconciler_method" where
  "Start K L sv ctxErr interval fuel =
     mbind (mext (KGetHypervisor [] (Hostname sv)) (\<lambda>t. k_GetHypervisor K t [] (Hostname sv))) (\<lambda>r.
       case r of
         Inl err \<Rightarrow> mret (Some (Some (Wrapped ''unable to get hypervisor: '' err [])))
       | Inr hv \<Rightarrow>
           mbind (connect_loop K L ctxErr interval fuel hv) (\<lambda>r.
             case r of
               None \<Rightarrow> mret None
             | Some (Some err) \<Rightarrow> mret (Some (Some err))
             | Some None \<Rightarrow>
                 mbind (hr_libvirt (lvi_WatchDomainChanges L DomainEventIDLifecycle ''reconcile-on-domain-lifecycle'' TriggerReconcile)) (\<lambda>_.
                   mret (Some None))))"

text \<open>
  \<^verbatim>\<open>SetupWithManager\<close>: the description of the host and the kernel's parameters are read once.
  \<open>reader\<close> is the result of the kernel reader that was configured, if any (the default reads
  \<^verbatim>\<open>/proc/cmdline\<close>); \<open>add\<close> and \<open>built\<close> are the results of the manager.
\<close>

definition hr_setDescriptor :: "Descriptor option \<Rightarrow> ('s, 'l, 'q, unit) reconciler_method" where
  "hr_setDescriptor d r tr = (Ret (), r\<lparr>hr_osDescriptor := d\<rparr>, tr)"

definition hr_setParameters :: "Parameters option \<Rightarrow> ('s, 'l, 'q, unit) reconciler_method" where
  "hr_setParameters p r tr = (Ret (), r\<lparr>hr_kernelParameters := p\<rparr>, tr)"

definition SetupWithManager ::
    "('s, 'q) systemd_Interface \<Rightarrow> (string \<Rightarrow> goerr + string) \<Rightarrow> (goerr + Parameters) option \<Rightarrow> goerr option \<Rightarrow> goerr option
     \<Rightarrow> ('s, 'l, 'q, goerr option) reconciler_method" where
  "SetupWithManager S readFile reader add built =
     mbind (hr_systemd (sdi_Describe S)) (\<lambda>r.
       case r of
         Inl err \<Rightarrow>
           mbind (hr_setDescriptor None) (\<lambda>_.
             mret (Some (Wrapped ''unable to get Systemd hostname describe(): '' err [])))
       | Inr desc \<Rightarrow>
           mbind (hr_setDescriptor (Some desc)) (\<lambda>_.
             case (case reader of Some k \<Rightarrow> k | None \<Rightarrow> ReadParameters readFile NewSystemReader) of
               Inl err \<Rightarrow>
                 mbind (hr_setParameters None) (\<lambda>_. mret (Some (Wrapped ''unable to read kernel parameters: '' err [])))
             | Inr params \<Rightarrow>
                 mbind (hr_setParameters (Some params)) (\<lambda>_.
                   mret (case add of Some err \<Rightarrow> Some err | None \<Rightarrow> built))))"

end
