(* ===== verification/ControllerProps.thy ===== *)
theory ControllerProps
  imports HypervisorController
begin

text \<open>
  What the reconciliation of the hypervisor does, for any systemd and libvirt object that keeps the
  contracts of \<^verbatim>\<open>Interfaces\<close>: which calls it makes, what it publishes and when, and the ways in
  which it gets stuck.
\<close>

section \<open>Sections of the reconciliation\<close>

lemma case_sum_app:
  "(case x of Inl a \<Rightarrow> f a | Inr b \<Rightarrow> g b) s tr = y
   \<longleftrightarrow> (\<exists>a. x = Inl a \<and> f a s tr = y) \<or> (\<exists>b. x = Inr b \<and> g b s tr = y)"
  by (cases x) auto

lemma mstep_Inr:
  "mstep m f s tr = (Ret (Inr b), s', tr')
   \<longleftrightarrow> (\<exists>a s1 tr1. m s tr = (Ret (Inr a), s1, tr1) \<and> f a s1 tr1 = (Ret (Inr b), s', tr'))"
  unfolding mstep_def mbind_Ret case_sum_app by (auto simp: mret_def)

lemma only_calls_hr_systemd: "only_calls P m \<Longrightarrow> only_calls P (hr_systemd m)"
  by (simp add: only_calls_def hr_systemd_def split_beta)

lemma only_calls_hr_libvirt: "only_calls P m \<Longrightarrow> only_calls P (hr_libvirt m)"
  by (simp add: only_calls_def hr_libvirt_def split_beta)

lemma only_calls_hr_state [simp]: "only_calls P (hr_read f)" "only_calls P (hr_setEvacuate b)"
  by (simp_all add: only_calls_def hr_read_def hr_setEvacuate_def)

text \<open>The fields of the object a section leaves alone.\<close>

definition keeps :: "'q Hypervisor \<Rightarrow> 'q Hypervisor \<Rightarrow> bool" where
  "keeps base hv \<longleftrightarrow> hv_Name hv = hv_Name base \<and> hv_ResourceVersion hv = hv_ResourceVersion base \<and>
     hv_Spec hv = hv_Spec base \<and> hv_update hv = hv_update base"

lemma keeps_refl [simp]: "keeps hv hv"
  by (simp add: keeps_def)

lemma keeps_set_condition [simp]: "keeps base (set_condition K c hv) = keeps base hv"
  by (simp add: keeps_def set_condition_def)

lemma keeps_map_os [simp]: "keeps base (map_os f hv) = keeps base hv"
  by (simp add: keeps_def)

lemma keeps_set_kernel [simp]: "keeps base (set_kernel p hv) = keeps base hv"
  by (simp add: set_kernel_def split: option.splits)

lemma keeps_set_units [simp]: "keeps base (set_units K us hv) = keeps base hv"
proof -
  have "keeps base (foldl (\<lambda>hv u. set_condition K (unit_condition u) hv) hv us) = keeps base hv"
    by (induction us arbitrary: hv) auto
  then show ?thesis by (simp add: set_units_def)
qed

lemma keeps_frame: "keeps base hv \<Longrightarrow> status_frame hv hv' \<Longrightarrow> keeps base hv'"
  by (simp add: keeps_def status_frame_def)

lemma keeps_trans: "keeps a b \<Longrightarrow> keeps b c \<Longrightarrow> keeps a c"
  by (simp add: keeps_def)

text \<open>What \<^verbatim>\<open>Process\<close> measures, all of which the other sections leave alone.\<close>

definition same_measurement :: "'q Hypervisor \<Rightarrow> 'q Hypervisor \<Rightarrow> bool" where
  "same_measurement a b \<longleftrightarrow>
     (let s = hv_Status a; t = hv_Status b in
      status_LibVirtVersion t = status_LibVirtVersion s \<and> status_HypervisorVersion t = status_HypervisorVersion s \<and>
      status_Instances t = status_Instances s \<and> status_NumInstances t = status_NumInstances s \<and>
      status_Capabilities t = status_Capabilities s \<and> status_DomainCapabilities t = status_DomainCapabilities s \<and>
      status_Allocation t = status_Allocation s \<and> status_Capacity t = status_Capacity s \<and>
      status_EffectiveCapacity t = status_EffectiveCapacity s \<and> status_Cells t = status_Cells s)"

lemma same_measurement_refl [simp]: "same_measurement hv hv"
  by (simp add: same_measurement_def Let_def)

lemma same_measurement_trans: "same_measurement a b \<Longrightarrow> same_measurement b c \<Longrightarrow> same_measurement a c"
  by (simp add: same_measurement_def Let_def)

lemma same_measurement_updates [simp]:
  "same_measurement a (set_condition K c hv) = same_measurement a hv"
  "same_measurement a (map_os f hv) = same_measurement a hv"
  "same_measurement a (map_update g hv) = same_measurement a hv"
  by (simp_all add: same_measurement_def Let_def set_condition_def)

lemma same_measurement_set_kernel [simp]: "same_measurement a (set_kernel p hv) = same_measurement a hv"
  by (simp add: set_kernel_def split: option.splits)

lemma same_measurement_set_units [simp]: "same_measurement a (set_units K us hv) = same_measurement a hv"
proof -
  have "same_measurement a (foldl (\<lambda>hv u. set_condition K (unit_condition u) hv) hv us) = same_measurement a hv"
    by (induction us arbitrary: hv) auto
  then show ?thesis by (simp add: set_units_def)
qed

text \<open>The calls a reconciliation of \<open>base\<close> may make, and the status patches among them.\<close>

definition retry_ok :: "'q Hypervisor \<Rightarrow> bool" where
  "retry_ok hv \<longleftrightarrow> 0 \<le> update_Retry (hv_update hv) \<and> update_Retry (hv_update hv) \<le> 3"

definition good_patch :: "'q Hypervisor \<Rightarrow> 'q Hypervisor \<Rightarrow> bool" where
  "good_patch base obj \<longleftrightarrow>
     (retry_ok base \<longrightarrow> retry_ok obj) \<and>
     (hv_Spec obj = hv_Spec base \<or> spec_OperatingSystemVersion (hv_Spec obj) = [])"

fun reconcile_call :: "'q Hypervisor \<Rightarrow> 'q ext_call \<Rightarrow> bool" where
  "reconcile_call base (KPatchHypervisorStatus obj b) \<longleftrightarrow> b = base \<and> good_patch base obj"
| "reconcile_call base (KCreateOrUpdateCertificate c) = True"
| "reconcile_call base (OLookupIP h) = True"
| "reconcile_call base c \<longleftrightarrow> is_systemd_call c \<or> is_libvirt_call c"

lemma reconcile_call_systemd: "is_systemd_call c \<Longrightarrow> reconcile_call base c"
  by (cases c) auto

lemma reconcile_call_libvirt: "is_libvirt_call c \<Longrightarrow> reconcile_call base c"
  by (cases c) auto

text \<open>A patch stores the fields in which the object differs from its base; here, the retry count.\<close>

definition patch_stores :: "'q k8s \<Rightarrow> bool" where
  "patch_stores K \<longleftrightarrow>
     (\<forall>t obj base stored.
        k_PatchHypervisorStatus K t obj base = Inr stored \<longrightarrow>
        update_Retry (hv_update obj) \<noteq> update_Retry (hv_update base) \<longrightarrow>
        update_Retry (hv_update stored) = update_Retry (hv_update obj))"

lemma ensure_certificate_triple:
  "triple (reconcile_call base) (ensure_certificate K E sv hv) (\<lambda>r. \<forall>hv'. r = Inr hv' \<longrightarrow> hv' = hv)"
proof -
  have c: "only_calls (reconcile_call base) (mtrace (EnsureCertificate K E sv h))" for h
    by (rule only_calls_mtrace)
       (auto simp: EnsureCertificate_def host_addresses_def ext_def Let_def extends_by_def split: sum.splits option.splits)
  show ?thesis
    unfolding ensure_certificate_def
    by (auto intro!: triple_mret triple_mbind [OF triple_only [OF c]] split: option.splits)
qed

lemma record_update_props:
  assumes "keeps base hv" and "update_Retry (hv_update hv) \<noteq> 0"
  shows "hv_Spec (record_update K running err hv) = hv_Spec base"
    and "retry_ok base \<Longrightarrow> retry_ok (record_update K running err hv)"
  using assms
  by (auto simp: record_update_def retry_ok_def keeps_def set_condition_def Let_def split: option.splits)

lemma patch_status_triple:
  assumes "good_patch base hv"
  shows "triple (reconcile_call base) (patch_status K base hv)
           (\<lambda>r. \<forall>stored. r = Inr stored \<longrightarrow> (\<exists>t. k_PatchHypervisorStatus K t hv base = Inr stored))"
  unfolding patch_status_def
  by (rule triple_mbind [OF triple_mext [where R = "\<lambda>r. \<exists>t. r = k_PatchHypervisorStatus K t hv base"]])
     (use assms in \<open>auto intro!: triple_mret split: sum.splits\<close>)

lemma retry_limit_triple:
  assumes "patch_stores K" and "keeps base hv" and "update_Retry (hv_update hv) = 0"
  shows "triple (reconcile_call base) (retry_limit K base hv) (\<lambda>r. \<exists>e. r = Inl e)"
proof -
  let ?hv = "map_update (update_Retry_update (\<lambda>_. 3)) hv"
  have g: "good_patch base ?hv" using assms(2) by (simp add: good_patch_def keeps_def retry_ok_def)
  have stored: "update_Retry (hv_update hv1) = 3" if "k_PatchHypervisorStatus K t ?hv base = Inr hv1" for t hv1
    using that assms by (force simp: patch_stores_def keeps_def)
  show ?thesis
    unfolding retry_limit_def
    by (rule triple_mstep [where R = "\<lambda>hv1. update_Retry (hv_update hv1) = 3"],
        rule triple_mono [OF patch_status_triple [OF g]], assumption, use stored in \<open>force split: sum.splits\<close>,
        rule triple_mstep [where R = "\<lambda>_. True"], rule triple_mono [OF patch_status_triple])
       (auto simp: good_patch_def retry_ok_def intro: triple_mret split: sum.splits)
qed

text \<open>What the update section changes: its own status and its own condition.\<close>

definition updated :: "'q Hypervisor \<Rightarrow> 'q Hypervisor \<Rightarrow> bool" where
  "updated hv hv' \<longleftrightarrow> hv_Spec hv' = hv_Spec hv \<and> same_measurement hv hv' \<and>
     (\<forall>t. t \<noteq> OSUpdateType \<longrightarrow> find_cond (hv_conditions hv') t = find_cond (hv_conditions hv) t)"

lemma updated_refl [simp]: "updated hv hv"
  by (simp add: updated_def)

lemma record_update_updated: "condition_laws K \<Longrightarrow> updated hv (record_update K running err hv)"
  by (auto simp: updated_def record_update_def Let_def set_condition_def find_cond_set update_condition_def
      same_measurement_def split: option.splits)

lemma retry_limit_Inl: "retry_limit K base hv r tr \<noteq> (Ret (Inr x), r', tr')"
  unfolding retry_limit_def mstep_Inr by (simp add: mret_def)

lemma update_section:
  assumes "condition_laws K" and "reconcile_update K S base hv r tr = (Ret (Inr hv'), r', tr')"
  shows "updated hv hv'"
  using assms retry_limit_Inl [of K base hv r tr hv' r' tr']
  by (auto simp: reconcile_update_def mbind_Ret mret_def record_update_updated split: if_splits)

lemma patch_section:
  assumes "patch_status K base hv r tr = (Ret (Inr stored), r', tr')"
  shows "tr' = tr @ [KPatchHypervisorStatus hv base]"
  using assms by (auto simp: patch_status_def mbind_def mext_def mret_def split: sum.splits)

lemma certificate_section:
  assumes "ensure_certificate K E sv hv r tr = (Ret (Inr hv'), r', tr')"
  shows "hv' = hv"
  using triple_result [OF ensure_certificate_triple assms] by simp

text \<open>
  The two ways in which the libvirt section ends: it is recorded that there is no connection, or the
  object is what \<^verbatim>\<open>Process\<close> made of it.
\<close>

definition LibVirt_status :: "'q Hypervisor \<Rightarrow> string option" where
  "LibVirt_status hv = map_option cond_Status (find_cond (hv_conditions hv) LibVirtType)"

lemma updated_status: "updated hv hv' \<Longrightarrow> LibVirt_status hv' = LibVirt_status hv"
  by (simp add: updated_def LibVirt_status_def LibVirtType_def OSUpdateType_def)

lemma LibVirt_status_set:
  "condition_laws K \<Longrightarrow> LibVirt_status (set_condition K (libvirt_condition st re me) hv) = Some st"
  by (simp add: LibVirt_status_def set_condition_def find_cond_set libvirt_condition_def)

abbreviation continues :: "'q trace \<Rightarrow> 'q trace \<Rightarrow> bool" where
  "continues \<equiv> extends_by (\<lambda>_. True)"

lemma only_calls_continues: "only_calls P m \<Longrightarrow> m s tr = (r, s', tr') \<Longrightarrow> continues tr tr'"
  by (drule (1) only_callsD) (erule extends_by_mono, simp)

section \<open>The agent\<close>

locale agent = systemd_contract S + libvirt_contract L
  for S :: "('s, 'q) systemd_Interface" and L :: "('l, 'q) libvirt_Interface"
begin

lemma systemd_triple:
  "triple is_systemd_call (reconcile_systemd K S hv)
     (\<lambda>r. \<forall>hv'. r = Inr hv' \<longrightarrow> keeps hv hv' \<and> same_measurement hv hv')"
proof -
  have inhibit: "triple is_systemd_call (switch_inhibit S hv') (\<lambda>r. \<forall>x. r = Inr x \<longrightarrow> x = hv')" for hv'
    unfolding switch_inhibit_def Let_def
    by (rule triple_mbind [OF triple_only], simp)
       (auto intro!: triple_mret triple_mbind [OF triple_only] only_calls_hr_systemd enable disable split: option.splits)
  have os: "triple is_systemd_call (set_os d hv') (\<lambda>x. keeps hv x \<and> same_measurement hv x)"
    if "keeps hv hv'" "same_measurement hv hv'" for d hv'
    using that by (auto simp: set_os_def intro!: triple_mret triple_mpanic split: option.splits outcome.splits)
  have rest: "triple is_systemd_call
      (mbind (set_os d hv') (\<lambda>hv''. mbind (hr_read hr_kernelParameters) (\<lambda>p. switch_inhibit S (set_kernel p hv''))))
      (\<lambda>r. \<forall>x. r = Inr x \<longrightarrow> keeps hv x \<and> same_measurement hv x)"
    if "keeps hv hv'" "same_measurement hv hv'" for d hv'
    by (rule triple_mbind [OF os [OF that]])
       (auto intro!: triple_mbind [OF triple_only] triple_mono [OF inhibit])
  show ?thesis
    unfolding reconcile_systemd_def
    by (simp add: triple_mret triple_mbind [OF triple_only] only_calls_hr_systemd connected list_units rest
        split: sum.split)
qed

lemma libvirt_triple:
  "triple is_libvirt_call (reconcile_libvirt K L hv) (\<lambda>r. \<forall>hv'. r = Inr hv' \<longrightarrow> keeps hv hv')"
proof -
  have p: "triple is_libvirt_call (hr_libvirt (lvi_Process L (set_condition K c hv))) (\<lambda>(hv', r). keeps hv hv')" for c
    by (rule tripleI [OF only_calls_hr_libvirt [OF process]])
       (auto simp: hr_libvirt_def split: prod.splits dest!: process_frame elim!: keeps_frame [rotated])
  show ?thesis
    unfolding reconcile_libvirt_def
    by (auto intro!: triple_mret triple_mbind [OF triple_only] only_calls_hr_libvirt connect triple_mbind [OF p]
        split: option.splits)
qed

lemma update_triple:
  assumes "patch_stores K" and "keeps base hv"
  shows "triple (reconcile_call base) (reconcile_update K S base hv) (\<lambda>r. \<forall>hv'. r = Inr hv' \<longrightarrow> good_patch base hv')"
proof -
  have "good_patch base hv" using assms(2) by (simp add: good_patch_def keeps_def retry_ok_def)
  moreover have "good_patch base (record_update K running err hv)" if "update_Retry (hv_update hv) \<noteq> 0" for running err
    using record_update_props [OF assms(2) that] by (simp add: good_patch_def)
  ultimately show ?thesis
    unfolding reconcile_update_def
    by (auto intro!: triple_mret triple_mono [OF retry_limit_triple [OF assms]] triple_mbind [OF triple_only]
        only_calls_hr_systemd only_calls_mono [OF sys_update] reconcile_call_systemd)
qed

lemma update_only: "only_calls (\<lambda>_. True) (reconcile_update K S base hv)"
proof -
  have "only_calls (\<lambda>_. True) (patch_status K base x)" for x
    by (auto simp: patch_status_def split: sum.splits)
  then show ?thesis
    by (auto simp: reconcile_update_def retry_limit_def intro!: only_calls_hr_systemd only_calls_mono [OF sys_update])
qed

lemma sections_calls:
  assumes "patch_stores K"
  shows "only_calls (reconcile_call base) (sections K E S L sv base)"
proof (rule triple_calls [where R = "\<lambda>_. True"])
  show "triple (reconcile_call base) (sections K E S L sv base) (\<lambda>_. True)"
    unfolding sections_def
  proof (rule triple_mstep [where R = "keeps base"])
    show "triple (reconcile_call base) (reconcile_systemd K S base)
            (\<lambda>r. case r of Inl e \<Rightarrow> True | Inr hv \<Rightarrow> keeps base hv)"
      by (rule triple_mono [OF systemd_triple]) (auto intro: reconcile_call_systemd split: sum.splits)
    fix hv assume hv: "keeps base hv"
    show "triple (reconcile_call base) (mstep (reconcile_libvirt K L hv) (\<lambda>hv.
            mstep (reconcile_update K S base hv) (\<lambda>hv. mstep (ensure_certificate K E sv hv) (patch_status K base))))
            (\<lambda>_. True)"
    proof (rule triple_mstep [where R = "keeps base"])
      show "triple (reconcile_call base) (reconcile_libvirt K L hv)
              (\<lambda>r. case r of Inl e \<Rightarrow> True | Inr hv \<Rightarrow> keeps base hv)"
        by (rule triple_mono [OF libvirt_triple])
           (use hv in \<open>auto intro: reconcile_call_libvirt keeps_trans split: sum.splits\<close>)
      fix hv assume hv: "keeps base hv"
      show "triple (reconcile_call base) (mstep (reconcile_update K S base hv) (\<lambda>hv.
              mstep (ensure_certificate K E sv hv) (patch_status K base))) (\<lambda>_. True)"
        by (rule triple_mstep [where R = "good_patch base"], rule triple_mono [OF update_triple [OF assms hv]])
           (auto intro!: triple_mstep [where R = "good_patch base"] triple_mono [OF ensure_certificate_triple]
             triple_mono [OF patch_status_triple] split: sum.splits)
    qed
  qed
qed

lemma Reconcile_calls:
  assumes "patch_stores K" and "k_GetHypervisor K tr ns (Hostname sv) = Inr base"
    and "Reconcile K E S L sv (ns, Hostname sv) r tr = (out, r', tr')"
  shows "extends_by (reconcile_call base) (tr @ [KGetHypervisor ns (Hostname sv)]) tr'"
  using assms(2,3) only_callsD [OF sections_calls [OF assms(1)]]
  by (auto simp: Reconcile_def mbind_def mext_def mret_def split: prod.splits outcome.splits sum.splits)

lemma libvirt_section:
  assumes "condition_laws K" and "reconcile_libvirt K L hv r tr = (Ret (Inr hv'), r', tr')"
  shows "LibVirt_status hv' = Some ConditionFalse \<and> same_measurement hv hv' \<or>
         LibVirt_status hv' = Some ConditionTrue \<and>
         (\<exists>hv0 l l' t. lvi_Process L hv0 l t = (Ret (hv', None), l', tr') \<and> continues tr t)"
proof (cases "k_IsStatusConditionFalse K (hv_conditions hv) ''libvirtd.service''")
  case True
  with assms show ?thesis by (auto simp: reconcile_libvirt_def mret_def LibVirt_status_set)
next
  case False
  then obtain x r1 tr1 where c: "hr_libvirt (lvi_Connect L) r tr = (Ret x, r1, tr1)"
    and rest: "(case x of
        Some err \<Rightarrow> mret (Inr (set_condition K (libvirt_condition ConditionFalse ''ConnectFailed''
                         (''unable to connect to libvirtd: '' @ error_text err)) hv))
      | None \<Rightarrow> mbind (hr_libvirt (lvi_Process L (set_condition K (libvirt_condition ConditionTrue ''Connected'' []) hv)))
                 (\<lambda>(hv, r). case r of Some err \<Rightarrow> mret (Inl (Some err)) | None \<Rightarrow> mret (Inr hv))) r1 tr1
      = (Ret (Inr hv'), r', tr')"
    using assms(2) unfolding reconcile_libvirt_def if_not_P [OF False] mbind_Ret by blast
  have cont: "continues tr tr1" by (rule only_calls_continues [OF only_calls_hr_libvirt [OF connect] c])
  show ?thesis
  proof (cases x)
    case (Some e)
    with rest assms(1) show ?thesis by (auto simp: mret_def LibVirt_status_set)
  next
    case None
    let ?hv0 = "set_condition K (libvirt_condition ConditionTrue ''Connected'' []) hv"
    obtain l' where p: "lvi_Process L ?hv0 (hr_Libvirt r1) tr1 = (Ret (hv', None), l', tr')"
      using rest None by (auto simp: mbind_Ret mret_def hr_libvirt_def split: prod.splits option.splits)
    then have "hv_conditions hv' = hv_conditions ?hv0" using process_frame by (simp add: status_frame_def)
    then have "LibVirt_status hv' = Some ConditionTrue"
      using LibVirt_status_set [OF assms(1), of ConditionTrue "''Connected''" "[]" hv] by (simp add: LibVirt_status_def)
    with p cont show ?thesis by blast
  qed
qed

lemma Reconcile_published:
  assumes "condition_laws K" and "Reconcile K E S L sv (ns, name) r tr = (Ret (60, None), r', tr')"
  shows "\<exists>base obj pre. k_GetHypervisor K tr ns name = Inr base \<and> tr' = pre @ [KPatchHypervisorStatus obj base] \<and>
     continues (tr @ [KGetHypervisor ns name]) pre \<and> hv_Spec obj = hv_Spec base \<and>
     (LibVirt_status obj = Some ConditionFalse \<and> same_measurement base obj \<or>
      LibVirt_status obj = Some ConditionTrue \<and>
      (\<exists>hv0 hv1 l l' t t'. lvi_Process L hv0 l t = (Ret (hv1, None), l', t') \<and>
         continues tr t \<and> continues t' pre \<and> same_measurement hv1 obj))"
proof -
  let ?tr = "tr @ [KGetHypervisor ns name]"
  obtain base stored where base: "k_GetHypervisor K tr ns name = Inr base"
    and "sections K E S L sv base r ?tr = (Ret (Inr stored), r', tr')"
    using assms(2)
    by (auto simp: Reconcile_def mbind_Ret mext_def mret_def mpanic_def case_sum_app split: if_splits)
  then obtain hv1 r1 tr1 hv2 r2 tr2 hv3 r3 tr3 hv4 r4 tr4
    where s1: "reconcile_systemd K S base r ?tr = (Ret (Inr hv1), r1, tr1)"
      and s2: "reconcile_libvirt K L hv1 r1 tr1 = (Ret (Inr hv2), r2, tr2)"
      and s3: "reconcile_update K S base hv2 r2 tr2 = (Ret (Inr hv3), r3, tr3)"
      and s4: "ensure_certificate K E sv hv3 r3 tr3 = (Ret (Inr hv4), r4, tr4)"
      and s5: "patch_status K base hv4 r4 tr4 = (Ret (Inr stored), r', tr')"
    unfolding sections_def mstep_Inr by blast
  have k1: "keeps base hv1" "same_measurement base hv1" using triple_result [OF systemd_triple s1] by simp_all
  have k2: "keeps hv1 hv2" using triple_result [OF libvirt_triple s2] by simp
  have k3: "updated hv2 hv3" by (rule update_section [OF assms(1) s3])
  have k4: "hv4 = hv3" by (rule certificate_section [OF s4])
  have spec: "hv_Spec hv4 = hv_Spec base" using k1 k2 k3 k4 by (simp add: keeps_def updated_def)
  have c1: "continues ?tr tr1" by (rule only_calls_continues [OF triple_calls [OF systemd_triple] s1])
  have c2: "continues tr1 tr2" by (rule only_calls_continues [OF triple_calls [OF libvirt_triple] s2])
  have c3: "continues tr2 tr3" by (rule only_calls_continues [OF update_only s3])
  have c4: "continues tr3 tr4" by (rule only_calls_continues [OF triple_calls [OF ensure_certificate_triple] s4])
  have c0: "continues tr ?tr" by simp
  note c = extends_by_trans
  have "LibVirt_status hv4 = Some ConditionFalse \<and> same_measurement base hv4 \<or>
      LibVirt_status hv4 = Some ConditionTrue \<and>
      (\<exists>hv0 hv1 l l' t t'. lvi_Process L hv0 l t = (Ret (hv1, None), l', t') \<and>
         continues tr t \<and> continues t' tr4 \<and> same_measurement hv1 hv4)"
    using libvirt_section [OF assms(1) s2]
  proof (elim disjE conjE exE)
    assume "LibVirt_status hv2 = Some ConditionFalse" "same_measurement hv1 hv2"
    then show ?thesis using k1 k3 k4 updated_status [OF k3] by (auto simp: updated_def intro: same_measurement_trans)
  next
    fix hv0 l l' t
    assume "LibVirt_status hv2 = Some ConditionTrue" "lvi_Process L hv0 l t = (Ret (hv2, None), l', tr2)" "continues tr1 t"
    moreover have "continues tr t" using c [OF c [OF c0 c1]] \<open>continues tr1 t\<close> .
    moreover have "continues tr2 tr4" using c [OF c3 c4] .
    moreover have "same_measurement hv2 hv4" using k3 k4 by (simp add: updated_def)
    ultimately show ?thesis using k4 updated_status [OF k3] by metis
  qed
  moreover have "tr' = tr4 @ [KPatchHypervisorStatus hv4 base]" by (rule patch_section [OF s5])
  moreover have "continues ?tr tr4" using c [OF c1 c [OF c2 c [OF c3 c4]]] .
  ultimately show ?thesis using base spec by blast
qed

end

interpretation agent_real: agent "systemd_conn D un" "libvirt_conn V env Q oob ord (libvirt_clients V rd)"
  for D un V env Q oob ord rd ..

interpretation agent_emulated: agent "systemd_mock M" "libvirt_mock NewLibVirtEmulator" for M ..

section \<open>A sample agent\<close>

text \<open>
  An agent on which the witnesses run: every call of systemd and of the API server succeeds, and
  libvirtd accepts or refuses the connection as \<open>V\<close> says.
\<close>

definition sample_sv :: sys_vars where
  "sample_sv = \<lparr>Hostname = ''node1'', NodeLabelName = ''node1'', Namespace = ''monsoon3''\<rparr>"

definition sample_object :: "(int64 \<times> quantity_format) Hypervisor" where
  "sample_object = sample_hv (0, DecimalSI)"

definition sample_reconciler :: "(SystemdConn, LibVirt) HypervisorReconciler" where
  "sample_reconciler =
     \<lparr>hr_Systemd = fresh_conn, hr_Libvirt = NewLibVirt (\<lambda>_. []), hr_osDescriptor = None, hr_kernelParameters = None,
      hr_evacuateOnReboot = False\<rparr>"

abbreviation sample_systemd :: "(int64 \<times> quantity_format) dbus \<Rightarrow> (SystemdConn, int64 \<times> quantity_format) systemd_Interface" where
  "sample_systemd D \<equiv> systemd_conn D (\<lambda>_. Inl empty_err)"

abbreviation sample_libvirt :: "(int64 \<times> quantity_format) virt \<Rightarrow> (LibVirt, int64 \<times> quantity_format) libvirt_Interface" where
  "sample_libvirt V \<equiv>
     libvirt_conn V (\<lambda>_. None) int_quantity_api (\<lambda>_. 0) id
       (libvirt_clients V (\<lambda>_. Inl empty_err))"

definition refusing_virt :: "'q virt" where
  "refusing_virt = idle_virt\<lparr>v_ConnectToURI := (\<lambda>t u. Some empty_err)\<rparr>"

lemma fst_snd_snd: "p = (fst p, fst (snd p), snd (snd p))"
  by simp

lemma patch_stores_idle: "patch_stores (idle_k8s hv)"
  by (simp add: patch_stores_def idle_k8s_def)

lemma idle_k8s_simps [simp]:
  "k_GetHypervisor (idle_k8s hv) t ns n = Inr hv"
  "k_PatchHypervisorStatus (idle_k8s hv) t obj base = Inr obj"
  "k_SetStatusCondition (idle_k8s hv) = put_cond" "k_IsStatusConditionFalse (idle_k8s hv) = cond_false"
  by (simp_all add: idle_k8s_def)

lemma sample_Hostname [simp]: "Hostname sample_sv = ''node1''"
  by (simp add: sample_sv_def)

section \<open>Properties\<close>

text \<open>
  C4. The calls of a reconciliation: apart from talking to systemd, to libvirtd and to the certificate
  API it only patches the status, always against the object it fetched; a retry count between 0 and 3
  stays in that range, and no patch carries a spec other than the fetched one, except for an emptied
  version. (A patch is assumed to store the retry count it changes.)
\<close>

theorem Reconcile_calls_only:
  assumes "patch_stores K" and "k_GetHypervisor K tr ns (Hostname sv) = Inr base"
    and "Reconcile K E (systemd_conn D un) (libvirt_conn V env Q oob ord (libvirt_clients V rd)) sv
           (ns, Hostname sv) r tr = (out, r', tr')"
  shows "extends_by (reconcile_call base) (tr @ [KGetHypervisor ns (Hostname sv)]) tr'"
  using assms by (rule agent_real.Reconcile_calls)

theorem Reconcile_calls_only_witness:
  "extends_by (reconcile_call sample_object) [KGetHypervisor [] ''node1'']
     (snd (snd (Reconcile (idle_k8s sample_object) idle_os (sample_systemd idle_dbus) (sample_libvirt idle_virt) sample_sv
        ([], ''node1'') sample_reconciler [])))"
  using Reconcile_calls_only [OF patch_stores_idle [of sample_object], where tr = "[]" and ns = "[]" and sv = sample_sv
      and base = sample_object and D = idle_dbus and E = idle_os and V = idle_virt and r = sample_reconciler,
      unfolded sample_Hostname, OF _ fst_snd_snd]
  by simp

text \<open>
  C3. What a reconciliation publishes: when it ends with the requeue after a minute, its last call is the
  status patch against the object it fetched, with the same spec. Either the patch says that there is
  no connection to libvirt and the measured part of the status is the fetched one, or it says that
  there is one and the measured part is the result of a run of \<^verbatim>\<open>Process\<close> that succeeded during this
  reconciliation.
\<close>

theorem Reconcile_publishes:
  assumes "condition_laws K"
    and "Reconcile K E (systemd_conn D un) (libvirt_conn V env Q oob ord (libvirt_clients V rd)) sv
           (ns, name) r tr = (Ret (60, None), r', tr')"
  shows "\<exists>base obj pre. k_GetHypervisor K tr ns name = Inr base \<and> tr' = pre @ [KPatchHypervisorStatus obj base] \<and>
     continues (tr @ [KGetHypervisor ns name]) pre \<and> hv_Spec obj = hv_Spec base \<and>
     (LibVirt_status obj = Some ConditionFalse \<and> same_measurement base obj \<or>
      LibVirt_status obj = Some ConditionTrue \<and>
      (\<exists>hv0 hv1 l t t'. Process Q oob ord (libvirt_clients V rd) l hv0 t = (Ret (hv1, None), t') \<and>
         continues tr t \<and> continues t' pre \<and> same_measurement hv1 obj))"
proof -
  have "Process Q oob ord (libvirt_clients V rd) l hv0 t = (Ret (hv1, None), t')"
    if "lvi_Process (libvirt_conn V env Q oob ord (libvirt_clients V rd)) hv0 l t = (Ret (hv1, None), l', t')" for hv0 hv1 l l' t t'
    using that by (simp add: libvirt_conn_def split: prod.splits)
  then show ?thesis using agent_real.Reconcile_published [OF assms] by metis
qed

lemma refused_run:
  "\<exists>r' tr'. Reconcile (idle_k8s sample_object) idle_os (sample_systemd idle_dbus) (sample_libvirt refusing_virt) sample_sv
      ([], ''node1'') sample_reconciler [] = (Ret (60, None), r', tr')"
  by (simp add: Reconcile_def sections_def mstep_def mbind_def mext_def mret_def mtrace_def reconcile_systemd_def hr_systemd_def
      hr_read_def hr_libvirt_def systemd_conn_def libvirt_conn_def IsConnected_def idle_dbus_def ListUnitsByNames_def ext_def
      set_units_def set_os_def set_kernel_def switch_inhibit_def sample_reconciler_def sample_object_def sample_hv_def sample_spec_def
      reconcile_libvirt_def sample_status_def cond_false_def find_cond_def Connect_def refusing_virt_def idle_virt_def
      reconcile_update_def update_wanted_def set_condition_def ensure_certificate_def patch_status_def Let_def)

theorem Reconcile_publishes_witness:
  "\<exists>obj pre. snd (snd (Reconcile (idle_k8s sample_object) idle_os (sample_systemd idle_dbus) (sample_libvirt refusing_virt) sample_sv
      ([], ''node1'') sample_reconciler [])) = pre @ [KPatchHypervisorStatus obj sample_object] \<and> hv_Spec obj = hv_Spec sample_object"
proof -
  obtain r' tr' where run: "Reconcile (idle_k8s sample_object) idle_os (sample_systemd idle_dbus) (sample_libvirt refusing_virt) sample_sv
      ([], ''node1'') sample_reconciler [] = (Ret (60, None), r', tr')"
    using refused_run by blast
  from Reconcile_publishes [OF condition_laws_idle run] show ?thesis by (auto simp: run)
qed

end
