(* ===== verification/ControllerFaults.thy ===== *)
theory ControllerFaults
  imports ControllerProps
begin

text \<open>
  The error paths of the reconciliation of the hypervisor: what it does when the inhibitor could be
  taken only halfway, when the unit of an update is in a state the code does not expect, when the
  retries of an update are used up, and when the release data of the host is malformed; and the loop of
  \<^verbatim>\<open>Start\<close>.
\<close>

section \<open>Early returns\<close>


lemma hv_os_set_units [simp]: "hv_os (set_units K us hv) = hv_os hv"
proof -
  have "hv_os (foldl (\<lambda>hv u. set_condition K (unit_condition u) hv) hv us) = hv_os hv"
    by (induction us arbitrary: hv) (simp_all add: set_condition_def)
  then show ?thesis by (simp add: set_units_def)
qed

lemma hv_Spec_set_units [simp]: "hv_Spec (set_units K us hv) = hv_Spec hv"
  using keeps_set_units [of hv K us hv] by (simp add: keeps_def)

lemma hv_Spec_set_kernel [simp]: "hv_Spec (set_kernel p hv) = hv_Spec hv"
  using keeps_set_kernel [of hv p hv] by (simp add: keeps_def)

text \<open>When the operating system is not described or its version is known already, it is left alone.\<close>

definition os_settled :: "Descriptor option \<Rightarrow> 'q Hypervisor \<Rightarrow> bool" where
  "os_settled d hv \<longleftrightarrow> d = None \<or> os_Version (hv_os hv) \<noteq> []"


lemma os_settled_set_units [simp]: "os_settled d (set_units K us hv) = os_settled d hv"
  by (simp add: os_settled_def)




lemma mstep_go_on: "m s tr = (Ret (Inr a), s', tr') \<Longrightarrow> mstep m f s tr = f a s' tr'"
  by (simp add: mstep_def mbind_def)





section \<open>Release data, conditions and updates\<close>

text \<open>The names the release data is searched for; none of them contains an equals sign.\<close>

definition os_names :: "string list" where
  "os_names = [''PRETTY_NAME'', ''GARDENLINUX_VERSION'', ''GARDENLINUX_COMMIT_ID_LONG'', ''GARDENLINUX_FEATURES'', ''VARIANT_ID'']"

lemma os_keys_names: "map fst os_keys = os_names"
  by (simp add: os_keys_def os_names_def)

lemma os_line_cases:
  "os_line l os = Panic index_panic \<and> l \<in> set os_names \<or> (\<exists>os'. os_line l os = Ret os') \<and> l \<notin> set os_names"
proof -
  have no_eq: "k \<in> set os_names \<Longrightarrow> CHR ''='' \<notin> set k" for k by (auto simp: os_names_def)
  have key: "(\<exists>upd. map_of os_keys k = Some upd) \<longleftrightarrow> k \<in> set os_names" for k
    using map_of_eq_None_iff [of os_keys k] os_keys_names by (metis list.set_map not_None_eq)
  show ?thesis
  proof (cases "CHR ''='' \<in> set l")
    case True
    then have "l \<notin> set os_names" using no_eq by blast
    with True show ?thesis by (auto simp: os_line_def split_n2_def Let_def split: option.splits)
  next
    case False
    then have "split_n2 CHR ''='' l = [l]" by (simp add: split_n2_def)
    then show ?thesis using key [of l] by (cases "map_of os_keys l") (simp_all add: os_line_def)
  qed
qed

lemma os_lines_cases:
  "os_lines ls os = Panic index_panic \<and> set ls \<inter> set os_names \<noteq> {} \<or>
   (\<exists>os'. os_lines ls os = Ret os') \<and> set ls \<inter> set os_names = {}"
proof (induction ls arbitrary: os)
  case (Cons l ls)
  show ?case
  proof (cases "l \<in> set os_names")
    case True
    then have "os_line l os = Panic index_panic" using os_line_cases [of l os] by blast
    with True show ?thesis by simp
  next
    case False
    then obtain os' where "os_line l os = Ret os'" using os_line_cases [of l os] by blast
    with False Cons [of os'] show ?thesis by simp
  qed
qed simp

text \<open>What the custom resource definition demands of a condition (\<^verbatim>\<open>hack/crds/hypervisor-crd.yaml\<close>).\<close>

definition valid_condition :: "Condition \<Rightarrow> bool" where
  "valid_condition c \<longleftrightarrow> cond_Status c \<in> {''True'', ''False'', ''Unknown''} \<and> cond_Reason c \<noteq> []"

lemma ReconcileSysUpdate_transitional:
  assumes "IsConnected D tr" and "update_InProgress (hv_update hv)"
    and "d_ListUnitsByNames D tr [update_unit (spec_OperatingSystemVersion (hv_Spec hv))] = Inr (u # us)"
    and "unit_ActiveState u \<notin> {ACTIVE, INACTIVE, FAILED}"
  shows "ReconcileSysUpdate D hv tr =
    ((False, None), tr @ [DListUnitsByNames [update_unit (spec_OperatingSystemVersion (hv_Spec hv))]])"
  using assms by (simp add: ReconcileSysUpdate_def GetUnitByName_def ListUnitsByNames_def ext_def Let_def)

lemma record_update_done:
  "\<exists>c. cond_Type c = OSUpdateType \<and> cond_Reason c = ''Completed'' \<and> record_update K False None hv =
     map_update (update_InProgress_update (\<lambda>_. False))
       (map_update (update_Installed_update (\<lambda>_. spec_OperatingSystemVersion (hv_Spec hv))) (set_condition K c hv))"
  unfolding record_update_def Let_def update_condition_def
  by (rule exI [of _ "\<lparr>cond_Type = OSUpdateType, cond_Status = ConditionTrue, cond_Reason = ''Completed'',
        cond_Message = ''Operating system update '' @ spec_OperatingSystemVersion (hv_Spec hv) @ '' is installed''\<rparr>"]) simp

section \<open>The optimistic lock\<close>

text \<open>
  The API server and the option \<^verbatim>\<open>MergeFromWithOptimisticLock\<close>: the resource version \<open>rv\<close> of the
  stored object is a function of the calls so far; a patch succeeds only if its base has that version,
  and a patch that changes the status changes the version.
\<close>

definition optimistic_lock :: "('q trace \<Rightarrow> string) \<Rightarrow> 'q k8s \<Rightarrow> bool" where
  "optimistic_lock rv K \<longleftrightarrow>
     (\<forall>t obj base stored. k_PatchHypervisorStatus K t obj base = Inr stored \<longrightarrow>
        rv t = hv_ResourceVersion base \<and>
        (hv_Status obj \<noteq> hv_Status base \<longrightarrow> rv (t @ [KPatchHypervisorStatus obj base]) \<noteq> rv t))"

lemma retry_limit_conflict:
  assumes "optimistic_lock rv K" and "keeps base hv" and "update_Retry (hv_update hv) = 0"
  shows "fst (retry_limit K base hv r tr) \<noteq> Ret (Inl None)"
proof -
  let ?hv = "map_update (update_Retry_update (\<lambda>_. 3)) hv" and ?P = "k_PatchHypervisorStatus K"
  let ?tr = "tr @ [KPatchHypervisorStatus ?hv base]"
  have "update_Retry (hv_update ?hv) \<noteq> update_Retry (hv_update base)" using assms(2,3) by (simp add: keeps_def)
  then have "hv_Status ?hv \<noteq> hv_Status base" by metis
  then have conflict: "\<exists>e. ?P ?tr x base = Inl e" if "?P tr ?hv base = Inr stored" for stored x
    using assms(1) that unfolding optimistic_lock_def by (metis sum.exhaust)
  show ?thesis
  proof (cases "?P tr ?hv base")
    case (Inr stored)
    obtain e where "?P ?tr (hv_Spec_update (spec_OperatingSystemVersion_update (\<lambda>_. [])) stored) base = Inl e"
      using conflict [OF Inr] by blast
    with Inr show ?thesis by (simp add: retry_limit_def mstep_def mbind_def patch_status_def mext_def mret_def)
  qed (simp add: retry_limit_def mstep_def mbind_def patch_status_def mext_def mret_def)
qed

lemma mstep_Ret:
  "mstep m f s tr = (Ret x, s', tr') \<longleftrightarrow>
     (\<exists>e. x = Inl e \<and> m s tr = (Ret (Inl e), s', tr')) \<or>
     (\<exists>a s1 tr1. m s tr = (Ret (Inr a), s1, tr1) \<and> f a s1 tr1 = (Ret x, s', tr'))"
  unfolding mstep_def mbind_Ret case_sum_app by (auto simp: mret_def)

text \<open>No section but the one for the exhausted retries ends the reconciliation without an error.\<close>

abbreviation no_silent_end :: "goerr option + 'a \<Rightarrow> bool" where
  "no_silent_end x \<equiv> x \<noteq> Inl None"

lemma patch_status_no_silent_end: "triple (\<lambda>_. True) (patch_status K base hv) no_silent_end"
  unfolding patch_status_def by (rule triple_mbind [OF triple_only]) (auto intro: triple_mret split: sum.splits)

lemma certificate_no_silent_end: "triple (\<lambda>_. True) (ensure_certificate K E sv hv) no_silent_end"
  unfolding ensure_certificate_def
  by (auto intro!: triple_mret triple_mbind [OF triple_only] only_calls_mtrace
      simp: EnsureCertificate_def host_addresses_def ext_def Let_def extends_by_def split: option.splits sum.splits)

context agent
begin

lemma systemd_no_silent_end: "triple (\<lambda>_. True) (reconcile_systemd K S hv) no_silent_end"
proof -
  have inhibit: "triple (\<lambda>_. True) (switch_inhibit S hv') no_silent_end" for hv'
    unfolding switch_inhibit_def Let_def
    by (rule triple_mbind [OF triple_only], simp)
       (auto intro!: triple_mret triple_mbind [OF triple_only] only_calls_hr_systemd only_calls_mono [OF enable]
         only_calls_mono [OF disable] split: option.splits)
  have os: "only_calls (\<lambda>_. True) (set_os d hv')" for d hv'
    by (auto simp: set_os_def split: option.splits outcome.splits)
  show ?thesis
    unfolding reconcile_systemd_def
    by (simp add: triple_mret triple_mbind [OF triple_only] only_calls_hr_systemd only_calls_mono [OF connected]
        only_calls_mono [OF list_units] os inhibit split: sum.split)
qed

lemma libvirt_no_silent_end: "triple (\<lambda>_. True) (reconcile_libvirt K L hv) no_silent_end"
  unfolding reconcile_libvirt_def
  by (auto intro!: triple_mret triple_mbind [OF triple_only] only_calls_hr_libvirt only_calls_mono [OF connect]
      only_calls_mono [OF process] split: option.splits)

lemma sections_any: "only_calls (\<lambda>_. True) (sections K E S L sv base)"
  unfolding sections_def
  by (intro only_calls_mstep triple_calls [OF systemd_no_silent_end] triple_calls [OF libvirt_no_silent_end] update_only
      triple_calls [OF certificate_no_silent_end] triple_calls [OF patch_status_no_silent_end])

lemma update_no_silent_end:
  assumes "optimistic_lock rv K" and "keeps base hv" and "reconcile_update K S base hv r tr = (Ret x, r', tr')"
  shows "no_silent_end x"
  using assms(3) retry_limit_conflict [OF assms(1,2), of r tr]
  by (auto simp: reconcile_update_def mbind_Ret mret_def split: if_splits)

lemma sections_no_silent_end:
  assumes "optimistic_lock rv K" and "sections K E S L sv base r tr = (Ret x, r', tr')"
  shows "no_silent_end x"
  using assms(2) unfolding sections_def
proof (subst (asm) mstep_Ret, elim disjE exE conjE)
  fix hv1 r1 tr1 assume s1: "reconcile_systemd K S base r tr = (Ret (Inr hv1), r1, tr1)"
    and rest: "mstep (reconcile_libvirt K L hv1) (\<lambda>hv. mstep (reconcile_update K S base hv)
      (\<lambda>hv. mstep (ensure_certificate K E sv hv) (patch_status K base))) r1 tr1 = (Ret x, r', tr')"
  have k1: "keeps base hv1" using triple_result [OF systemd_triple s1] by simp
  show ?thesis using rest
  proof (subst (asm) mstep_Ret, elim disjE exE conjE)
    fix hv2 r2 tr2 assume s2: "reconcile_libvirt K L hv1 r1 tr1 = (Ret (Inr hv2), r2, tr2)"
      and rest: "mstep (reconcile_update K S base hv2)
        (\<lambda>hv. mstep (ensure_certificate K E sv hv) (patch_status K base)) r2 tr2 = (Ret x, r', tr')"
    have k2: "keeps base hv2" using triple_result [OF libvirt_triple s2] keeps_trans [OF k1] by simp
    show ?thesis
      using rest update_no_silent_end [OF assms(1) k2] triple_result [OF certificate_no_silent_end]
        triple_result [OF patch_status_no_silent_end]
      unfolding mstep_Ret by metis
  qed (use triple_result [OF libvirt_no_silent_end] in blast)
qed (use triple_result [OF systemd_no_silent_end] in blast)

lemma Reconcile_no_silent_end:
  assumes "optimistic_lock rv K" and "k_GetHypervisor K tr ns name = Inr base"
    and "Reconcile K E S L sv (ns, name) r tr = (Ret (n, e), r', tr')"
  shows "(n, e) \<noteq> (0, None)"
proof -
  obtain x where "sections K E S L sv base r (tr @ [KGetHypervisor ns name]) = (Ret x, r', tr')"
    and ne: "(n, e) = (case x of Inl err \<Rightarrow> (0, err) | Inr hv \<Rightarrow> (60, None))"
    using assms(2,3) by (auto simp: Reconcile_def mbind_Ret mext_def mret_def mpanic_def case_sum_app split: if_splits)
  then have "no_silent_end x" using sections_no_silent_end [OF assms(1)] by blast
  with ne show ?thesis by (auto split: sum.splits)
qed

end

section \<open>Waiting for libvirt\<close>

fun is_sleep :: "'q ext_call \<Rightarrow> bool" where
  "is_sleep (OSleep n) = True"
| "is_sleep c = False"

definition sleeps :: "'q trace \<Rightarrow> nat" where
  "sleeps tr = length (filter is_sleep tr)"

lemma Connect_fails:
  assumes "Connect V env l tr = ((Some err, started), l', tr')"
  shows "\<exists>uri. v_ConnectToURI V (tr @ [VIsConnected]) uri = Some err \<and> l' = l \<and> tr' = tr @ [VIsConnected, VConnectToURI uri]"
  using assms by (auto simp: Connect_cases Let_def split: if_splits option.splits)

text \<open>Every failed attempt sleeps once, so the loop connects within as many attempts as libvirtd stays away.\<close>

lemma connect_loop_connects:
  assumes ctx: "\<And>t. ctxErr t = None" and up: "\<And>t u. k \<le> sleeps t \<Longrightarrow> v_ConnectToURI V t u = None"
    and "k \<le> sleeps tr + n"
  shows "\<exists>r' tr'. connect_loop K (libvirt_conn V env Q oob ord C) ctxErr interval (Suc n) hv r tr = (Ret (Some None), r', tr')"
  using assms(3)
proof (induction n arbitrary: hv r tr)
  case (0 hv r tr)
  obtain x started l' tr' where c: "Connect V env (hr_Libvirt r) tr = ((x, started), l', tr')" by (metis prod.exhaust)
  have "x = None" using Connect_fails [of V env "hr_Libvirt r" tr] c up [of "tr @ [VIsConnected]"] 0
    by (cases x) (force simp: sleeps_def)+
  with c ctx show ?case by (simp add: mbind_def hr_libvirt_def libvirt_conn_def mret_def)
next
  case (Suc n hv r tr)
  obtain x started l' tr1 where c: "Connect V env (hr_Libvirt r) tr = ((x, started), l', tr1)" by (metis prod.exhaust)
  show ?case
  proof (cases x)
    case None
    with c ctx show ?thesis by (simp add: mbind_def hr_libvirt_def libvirt_conn_def mret_def)
  next
    case (Some err)
    then have "sleeps tr1 = sleeps tr" using Connect_fails [OF c [unfolded Some]] by (auto simp: sleeps_def)
    then have le: "k \<le> sleeps (tr1 @ [p, OSleep w]) + n" for p w using Suc.prems by (simp add: sleeps_def)
    show ?thesis using c Some ctx Suc.IH [OF le]
      by (simp add: mbind_def hr_libvirt_def libvirt_conn_def mext_def Let_def del: connect_loop.simps(2) add: connect_loop.simps(2) [of _ _ _ _ "Suc n"])
  qed
qed

section \<open>Properties\<close>





text \<open>
  C16. A running update is taken for a finished one: when the update is in progress and its unit is in any
  state but active, inactive and failed (a unit of type oneshot is activating while it runs), the
  version is recorded as installed and the update as completed, nothing is started, in particular not
  the reboot, and the update is no longer wanted.
\<close>

theorem running_update_recorded_as_installed:
  assumes "condition_laws K" and "update_wanted hv" and "update_Retry (hv_update hv) \<noteq> 0" and "update_InProgress (hv_update hv)"
    and "IsConnected D tr" and "version = spec_OperatingSystemVersion (hv_Spec hv)"
    and "d_ListUnitsByNames D tr [update_unit version] = Inr (u # us)" and "unit_ActiveState u \<notin> {ACTIVE, INACTIVE, FAILED}"
  shows "\<exists>hv' c. reconcile_update K (systemd_conn D un) base hv r tr = (Ret (Inr hv'), r, tr @ [DListUnitsByNames [update_unit version]]) \<and>
    update_Installed (hv_update hv') = version \<and> \<not> update_InProgress (hv_update hv') \<and> \<not> update_wanted hv' \<and>
    find_cond (hv_conditions hv') OSUpdateType = Some c \<and> cond_Reason c = ''Completed''"
proof -
  have "hr_systemd (sdi_ReconcileSysUpdate (systemd_conn D un) hv) r tr =
      (Ret (False, None), r, tr @ [DListUnitsByNames [update_unit version]])"
    using ReconcileSysUpdate_transitional [of D tr hv u us] assms by (simp add: hr_systemd_def systemd_conn_def mtrace_def)
  then have "reconcile_update K (systemd_conn D un) base hv r tr =
      (Ret (Inr (record_update K False None hv)), r, tr @ [DListUnitsByNames [update_unit version]])"
    using assms(2,3) by (simp add: reconcile_update_def mbind_def mret_def)
  moreover obtain c where c: "cond_Type c = OSUpdateType" "cond_Reason c = ''Completed''" "record_update K False None hv =
      map_update (update_InProgress_update (\<lambda>_. False)) (map_update (update_Installed_update (\<lambda>_. version)) (set_condition K c hv))"
    using record_update_done [of K hv] assms(6) by blast
  moreover have "find_cond (hv_conditions (record_update K False None hv)) OSUpdateType = Some c"
    using c assms(1) by (simp add: set_condition_def find_cond_set)
  moreover have "update_Installed (hv_update (record_update K False None hv)) = version"
    "\<not> update_InProgress (hv_update (record_update K False None hv))" "\<not> update_wanted (record_update K False None hv)"
    using assms(6) by (simp_all add: c(3) set_condition_def update_wanted_def)
  ultimately show ?thesis by blast
qed

theorem running_update_recorded_as_installed_witness:
  "\<exists>hv'. fst (reconcile_update (idle_k8s rebooting_hv) (systemd_conn (one_unit_dbus ACTIVATING) (\<lambda>_. Inl empty_err))
      rebooting_hv rebooting_hv sample_reconciler []) = Ret (Inr hv') \<and>
    update_Installed (hv_update hv') = ''2'' \<and> \<not> update_wanted hv'"
proof -
  let ?K = "idle_k8s rebooting_hv" and ?D = "one_unit_dbus ACTIVATING :: unit dbus"
  obtain u where u: "d_ListUnitsByNames ?D [] [update_unit ''2''] = Inr [u]" "unit_ActiveState u = ACTIVATING"
    by (simp add: one_unit_dbus_def)
  have "\<exists>hv' c. reconcile_update ?K (systemd_conn ?D (\<lambda>_. Inl empty_err)) rebooting_hv rebooting_hv sample_reconciler [] =
        (Ret (Inr hv'), sample_reconciler, [] @ [DListUnitsByNames [update_unit ''2'']]) \<and>
      update_Installed (hv_update hv') = ''2'' \<and> \<not> update_InProgress (hv_update hv') \<and> \<not> update_wanted hv' \<and>
      find_cond (hv_conditions hv') OSUpdateType = Some c \<and> cond_Reason c = ''Completed''"
    by (rule running_update_recorded_as_installed [OF condition_laws_idle _ _ _ _ _ u(1)])
       (simp_all add: rebooting_hv_def update_wanted_def sample_status_def sample_os_def u(2) ACTIVE_def ACTIVATING_def INACTIVE_def
         FAILED_def IsConnected_def one_unit_dbus_def idle_dbus_def)
  then show ?thesis by auto
qed

text \<open>
  The description of the operating system is read without panic exactly when no line of the release
  data consists of one of the five names alone, without an equals sign; such a line crashes the agent.
\<close>

lemma describe_os_panics_iff:
  "(describe_os d os = Panic index_panic \<longleftrightarrow> set (desc_OperatingSystemReleaseData d) \<inter> set os_names \<noteq> {}) \<and>
   ((\<exists>os'. describe_os d os = Ret os') \<longleftrightarrow> set (desc_OperatingSystemReleaseData d) \<inter> set os_names = {})"
  using os_lines_cases [of "desc_OperatingSystemReleaseData d" os] by (auto simp: describe_os_def)

text \<open>
  The condition of a unit is one the custom resource admits exactly when the unit is active, inactive
  or failed: for any other state of systemd (activating, deactivating, reloading) its status and its
  reason are empty.
\<close>

lemma unit_condition_valid_iff:
  "valid_condition (unit_condition u) \<longleftrightarrow> unit_ActiveState u \<in> {''active'', ''inactive'', ''failed''}"
  by (simp add: valid_condition_def unit_condition_def lookup_string_def)

text \<open>
  C15. Giving up an update never succeeds: with the optimistic lock of its status patches, a reconciliation
  of an existing object never ends with neither an error nor a requeue, which is how the branch for
  exhausted retries would end. Its second patch reuses the base of the first one and always conflicts, so
  the version is not removed from the spec, while the retries were reset to 3.
\<close>

theorem update_never_given_up:
  assumes "optimistic_lock rv K" and "k_GetHypervisor K tr ns name = Inr base"
    and "Reconcile K E (systemd_conn D un) (libvirt_conn V env Q oob ord (libvirt_clients V rd)) sv (ns, name) r tr
         = (Ret (n, e), r', tr')"
  shows "(n, e) \<noteq> (0, None)"
  using assms by (rule agent_real.Reconcile_no_silent_end)

text \<open>A server with the lock: the resource version counts the patches.\<close>

fun is_patch :: "'q ext_call \<Rightarrow> bool" where
  "is_patch (KPatchHypervisorStatus obj base) = True"
| "is_patch c = False"

definition patch_count :: "'q trace \<Rightarrow> string" where
  "patch_count t = map (\<lambda>_. CHR ''i'') (filter is_patch t)"

definition locking_k8s :: "'q Hypervisor \<Rightarrow> 'q k8s" where
  "locking_k8s hv = (idle_k8s hv)\<lparr>k_PatchHypervisorStatus := \<lambda>t obj base.
     if patch_count t = hv_ResourceVersion base then Inr (obj\<lparr>hv_ResourceVersion := CHR ''i'' # patch_count t\<rparr>) else Inl empty_err\<rparr>"

lemma optimistic_lock_locking: "optimistic_lock patch_count (locking_k8s hv)"
  by (simp add: optimistic_lock_def locking_k8s_def patch_count_def)

definition exhausted_object :: "(int64 \<times> quantity_format) Hypervisor" where
  "exhausted_object = sample_object\<lparr>hv_ResourceVersion := [], hv_Spec := sample_spec\<lparr>spec_OperatingSystemVersion := ''2''\<rparr>,
     hv_Status := (sample_status (0, DecimalSI))\<lparr>status_Update := \<lparr>update_InProgress = False, update_Installed = [], update_Retry = 0\<rparr>\<rparr>\<rparr>"

lemma exhausted_run:
  "\<exists>e r' tr'. Reconcile (locking_k8s exhausted_object) idle_os (sample_systemd idle_dbus) (sample_libvirt refusing_virt) sample_sv
      ([], ''node1'') sample_reconciler [] = (Ret (0, e), r', tr')"
  by (simp add: Reconcile_def sections_def mstep_def mbind_def mext_def mret_def mtrace_def reconcile_systemd_def hr_systemd_def
      hr_read_def hr_libvirt_def systemd_conn_def libvirt_conn_def IsConnected_def idle_dbus_def ListUnitsByNames_def ext_def
      set_units_def set_os_def set_kernel_def switch_inhibit_def sample_reconciler_def sample_object_def sample_hv_def sample_spec_def
      reconcile_libvirt_def sample_status_def cond_false_def find_cond_def Connect_def refusing_virt_def idle_virt_def
      reconcile_update_def update_wanted_def set_condition_def retry_limit_def patch_status_def Let_def exhausted_object_def
      locking_k8s_def patch_count_def sample_os_def)

theorem update_never_given_up_witness:
  "\<exists>e. e \<noteq> None \<and> fst (Reconcile (locking_k8s exhausted_object) idle_os (sample_systemd idle_dbus) (sample_libvirt refusing_virt)
      sample_sv ([], ''node1'') sample_reconciler []) = Ret (0, e)"
proof -
  obtain e r' tr' where run: "Reconcile (locking_k8s exhausted_object) idle_os (sample_systemd idle_dbus) (sample_libvirt refusing_virt)
      sample_sv ([], ''node1'') sample_reconciler [] = (Ret (0, e), r', tr')"
    using exhausted_run by blast
  have get: "k_GetHypervisor (locking_k8s exhausted_object) [] [] ''node1'' = Inr exhausted_object"
    by (simp add: locking_k8s_def)
  from update_never_given_up [OF optimistic_lock_locking get run] show ?thesis by (auto simp: run)
qed

text \<open>
  C34. \<^verbatim>\<open>Start\<close> gets through: if the object can be fetched, the context does not end and libvirtd accepts
  the connection after at most \<open>k\<close> waiting periods, then \<^verbatim>\<open>Start\<close> returns without an error after at
  most \<open>k + 1\<close> attempts, and the handler that triggers a reconciliation is registered for life cycle events.
\<close>

theorem Start_connects:
  assumes "k_GetHypervisor K tr [] (Hostname sv) = Inr hv" and "\<And>t. ctxErr t = None"
    and "\<And>t u. k \<le> sleeps t \<Longrightarrow> v_ConnectToURI V t u = None" and "k < fuel"
  shows "\<exists>r' tr'. Start K (libvirt_conn V env Q oob ord C) sv ctxErr interval fuel r tr = (Ret (Some None), r', tr') \<and>
    handlers_of (hr_Libvirt r') DomainEventIDLifecycle ''reconcile-on-domain-lifecycle'' = Some TriggerReconcile"
proof -
  obtain n where n: "fuel = Suc n" "k \<le> n" using assms(4) by (cases fuel) auto
  let ?tr = "tr @ [KGetHypervisor [] (Hostname sv)]"
  have "\<exists>r' tr'. connect_loop K (libvirt_conn V env Q oob ord C) ctxErr interval (Suc n) hv r ?tr = (Ret (Some None), r', tr')"
    by (rule connect_loop_connects [of ctxErr k V]) (use assms(2,3) n in simp_all)
  then obtain r1 tr1 where loop:
    "connect_loop K (libvirt_conn V env Q oob ord C) ctxErr interval fuel hv r ?tr = (Ret (Some None), r1, tr1)"
    unfolding n(1) by blast
  obtain l2 tr2 where watch: "WatchDomainChanges V DomainEventIDLifecycle ''reconcile-on-domain-lifecycle'' TriggerReconcile
      (hr_Libvirt r1) tr1 = (l2, tr2)" by (metis prod.exhaust)
  then have "handlers_of l2 DomainEventIDLifecycle ''reconcile-on-domain-lifecycle'' = Some TriggerReconcile"
    using WatchDomainChanges_handlers [of V DomainEventIDLifecycle "''reconcile-on-domain-lifecycle''" TriggerReconcile "hr_Libvirt r1" tr1]
    by simp
  with loop watch assms(1) show ?thesis
    by (simp add: Start_def mbind_def mext_def hr_libvirt_def libvirt_conn_def mret_def del: connect_loop.simps)
qed

definition late_virt :: "'q virt" where
  "late_virt = idle_virt\<lparr>v_ConnectToURI := (\<lambda>t u. if sleeps t < 2 then Some empty_err else None)\<rparr>"

theorem Start_connects_witness:
  "\<exists>r'. (\<exists>tr'. Start (idle_k8s sample_object) (sample_libvirt late_virt) sample_sv (\<lambda>_. None) 0 3 sample_reconciler []
        = (Ret (Some None), r', tr')) \<and>
    handlers_of (hr_Libvirt r') DomainEventIDLifecycle ''reconcile-on-domain-lifecycle'' = Some TriggerReconcile"
proof -
  have up: "v_ConnectToURI late_virt t u = None" if "2 \<le> sleeps t" for t u using that by (simp add: late_virt_def)
  have "\<exists>r' tr'. Start (idle_k8s sample_object) (sample_libvirt late_virt) sample_sv (\<lambda>_. None) 0 3 sample_reconciler []
        = (Ret (Some None), r', tr') \<and>
      handlers_of (hr_Libvirt r') DomainEventIDLifecycle ''reconcile-on-domain-lifecycle'' = Some TriggerReconcile"
    by (rule Start_connects [where k = 2 and hv = sample_object]) (simp_all add: up)
  then show ?thesis by blast
qed

end
