(* ===== verification/Migration.thy ===== *)
theory Migration
  imports LibvirtConn
begin

text \<open>
  \<^verbatim>\<open>internal/libvirt/libvirt_events.go\<close>: the handlers of libvirt's domain events, the watch of an
  outgoing migration and the translation of libvirt's job statistics into the status of the
  \<^verbatim>\<open>Migration\<close> object. A watch is a goroutine with a context of its own; contexts are numbered,
  and the table \<^verbatim>\<open>migrationJobs\<close> maps a domain's name to the number of its context. A failed
  type assertion panics.
\<close>

section \<open>Durations\<close>

text \<open>
  \<^verbatim>\<open>time.Duration.String\<close>. \<open>fmt_frac v prec\<close> is the fraction \<open>v / 10 ^ prec\<close> without trailing zeros,
  with its decimal point, empty if it is zero.
\<close>

definition fmt_frac :: "nat \<Rightarrow> nat \<Rightarrow> string" where
  "fmt_frac v prec =
     (let ds = rev (dropWhile (\<lambda>c. c = CHR ''0'') (map (\<lambda>i. digit_char (v div 10 ^ i mod 10)) [0..<prec]))
      in if ds = [] then [] else CHR ''.'' # ds)"

definition duration_abs :: "nat \<Rightarrow> string" where
  "duration_abs u =
     (if u = 0 then ''0s''
      else if u < 1000 then dec u @ ''ns''
      else if u < 1000000 then dec (u div 1000) @ fmt_frac u 3 @ map char_of [0xC2, 0xB5 :: nat] @ ''s''
      else if u < 1000000000 then dec (u div 1000000) @ fmt_frac u 6 @ ''ms''
      else (let s = u div 1000000000; m = s div 60; h = m div 60
            in (if 0 < m then (if 0 < h then dec h @ ''h'' else []) @ dec (m mod 60) @ ''m'' else [])
               @ dec (s mod 60) @ fmt_frac u 9 @ ''s''))"

definition Duration_String :: "int64 \<Rightarrow> string" where
  "Duration_String d = (if sint d < 0 then CHR ''-'' # duration_abs (nat (- sint d)) else duration_abs (nat (sint d)))"

section \<open>Job statistics\<close>

definition assert_fail :: string where
  "assert_fail = ''interface conversion: interface {} is of another type''"

fun as_int32 :: "any_value \<Rightarrow> int32 outcome" where
  "as_int32 (VInt32 i) = Ret i"
| "as_int32 v = Panic assert_fail"

fun as_int64 :: "any_value \<Rightarrow> int64 outcome" where
  "as_int64 (VInt64 i) = Ret i"
| "as_int64 v = Panic assert_fail"

fun as_uint32 :: "any_value \<Rightarrow> uint32 outcome" where
  "as_uint32 (VUint32 i) = Ret i"
| "as_uint32 v = Panic assert_fail"

fun as_uint64 :: "any_value \<Rightarrow> uint64 outcome" where
  "as_uint64 (VUint64 i) = Ret i"
| "as_uint64 v = Panic assert_fail"

fun as_string :: "any_value \<Rightarrow> string outcome" where
  "as_string (VString s) = Ret s"
| "as_string v = Panic assert_fail"

text \<open>The constants \<^verbatim>\<open>VIR_DOMAIN_JOB_*\<close> and \<^verbatim>\<open>VIR_DOMAIN_JOB_OPERATION_*\<close>, in the order of their \<^verbatim>\<open>iota\<close>.\<close>

definition job_types :: "string list" where
  "job_types = [''bounded'', ''unbounded'', ''completed'', ''failed'', ''cancelled'']" \<comment> \<open>from 1\<close>

definition job_operations :: "string list" where
  "job_operations = [''unknown'', ''start'', ''save'', ''restore'', ''migration_in'', ''migration_out'',
     ''snapshot'', ''snapshot_revert'', ''dump'', ''backup'', ''snapshot_delete'']" \<comment> \<open>from 0\<close>

definition set_operation :: "int32 \<Rightarrow> MigrationStatus \<Rightarrow> MigrationStatus" where
  "set_operation i st =
     (if 0 \<le> sint i \<and> sint i < int (length job_operations)
      then st\<lparr>mig_Operation := job_operations ! nat (sint i)\<rparr> else st)"

definition with_bytes :: "(string \<Rightarrow> MigrationStatus \<Rightarrow> MigrationStatus) \<Rightarrow> any_value \<Rightarrow> MigrationStatus \<Rightarrow> MigrationStatus outcome" where
  "with_bytes upd v st =
     outcome_bind (as_uint64 v) (\<lambda>n. outcome_bind (ByteCountIEC n) (\<lambda>t. Ret (upd t st)))"

definition with_count :: "(uint64 \<Rightarrow> MigrationStatus \<Rightarrow> MigrationStatus) \<Rightarrow> any_value \<Rightarrow> MigrationStatus \<Rightarrow> MigrationStatus outcome" where
  "with_count upd v st = outcome_bind (as_uint64 v) (\<lambda>n. Ret (upd n st))"

definition with_millis :: "(string \<Rightarrow> MigrationStatus \<Rightarrow> MigrationStatus) \<Rightarrow> any_value \<Rightarrow> MigrationStatus \<Rightarrow> MigrationStatus outcome" where
  "with_millis upd v st = outcome_bind (as_int64 v) (\<lambda>n. Ret (upd (Duration_String (n * 1000 * 1000)) st))"

text \<open>
  The remaining time: the value is a \<^verbatim>\<open>uint32\<close>, and so is its product with a million, before the
  conversion to a duration.
\<close>

definition with_millis32 :: "(string \<Rightarrow> MigrationStatus \<Rightarrow> MigrationStatus) \<Rightarrow> any_value \<Rightarrow> MigrationStatus \<Rightarrow> MigrationStatus outcome" where
  "with_millis32 upd v st = outcome_bind (as_uint32 v) (\<lambda>n. Ret (upd (Duration_String (ucast (n * 1000 * 1000))) st))"

text \<open>The branches of the switch on the parameter's name.\<close>

definition param_table :: "(string \<times> (any_value \<Rightarrow> MigrationStatus \<Rightarrow> MigrationStatus outcome)) list" where
  "param_table =
     [(''operation'', \<lambda>v st. outcome_bind (as_int32 v) (\<lambda>i. Ret (set_operation i st))),
      (''time_elapsed'', with_millis (\<lambda>t. mig_TimeElapsed_update (\<lambda>_. t))),
      (''time_remaining'', with_millis32 (\<lambda>t. mig_TimeRemaining_update (\<lambda>_. t))),
      (''downtime'', with_millis (\<lambda>t. mig_Downtime_update (\<lambda>_. t))),
      (''setup_time'', with_millis (\<lambda>t. mig_SetupTime_update (\<lambda>_. t))),
      (''data_total'', with_bytes (\<lambda>t. mig_DataTotal_update (\<lambda>_. t))),
      (''data_processed'', with_bytes (\<lambda>t. mig_DataProcessed_update (\<lambda>_. t))),
      (''data_remaining'', with_bytes (\<lambda>t. mig_DataRemaining_update (\<lambda>_. t))),
      (''memory_total'', with_bytes (\<lambda>t. mig_MemTotal_update (\<lambda>_. t))),
      (''memory_processed'', with_bytes (\<lambda>t. mig_MemProcessed_update (\<lambda>_. t))),
      (''memory_remaining'', with_bytes (\<lambda>t. mig_MemRemaining_update (\<lambda>_. t))),
      (''memory_constant'', with_count (\<lambda>n. mig_MemConstant_update (\<lambda>_. n))),
      (''memory_normal'', with_count (\<lambda>n. mig_MemNormal_update (\<lambda>_. n))),
      (''memory_normal_bytes'', with_bytes (\<lambda>t. mig_MemNormalBytes_update (\<lambda>_. t))),
      (''memory_bps'', with_bytes (\<lambda>t. mig_MemBps_update (\<lambda>_. t @ ''/s''))),
      (''memory_dirty_rate'', with_count (\<lambda>n. mig_MemDirtyRate_update (\<lambda>_. dec (unat n) @ ''/s''))),
      (''memory_page_size'', with_bytes (\<lambda>t. mig_MemPageSize_update (\<lambda>_. t))),
      (''memory_iteration'', with_count (\<lambda>n. mig_MemIteration_update (\<lambda>_. n))),
      (''memory_postcopy_requests'', with_count (\<lambda>n. mig_MemPostcopyRequests_update (\<lambda>_. n))),
      (''disk_total'', with_bytes (\<lambda>t. mig_DiskTotal_update (\<lambda>_. t))),
      (''disk_processed'', with_bytes (\<lambda>t. mig_DiskProcessed_update (\<lambda>_. t))),
      (''disk_remaining'', with_bytes (\<lambda>t. mig_DiskRemaining_update (\<lambda>_. t))),
      (''disk_bps'', with_bytes (\<lambda>t. mig_DiskBps_update (\<lambda>_. t @ ''/s''))),
      (''auto_converge_throttle'', with_count (\<lambda>n. mig_AutoConvergeThrottle_update (\<lambda>_. dec (unat n) @ ''%''))),
      (''success'', \<lambda>v st. Ret (st\<lparr>mig_Type := ''success''\<rparr>)),
      (''errmsg'', \<lambda>v st. outcome_bind (as_string v) (\<lambda>s. Ret (st\<lparr>mig_ErrMsg := s\<rparr>)))]"

definition apply_param :: "TypedParam \<Rightarrow> MigrationStatus \<Rightarrow> MigrationStatus outcome" where
  "apply_param p st =
     (case map_of param_table (param_Field p) of None \<Rightarrow> Ret st | Some h \<Rightarrow> h (param_Value p) st)"

fun apply_params :: "TypedParam list \<Rightarrow> MigrationStatus \<Rightarrow> MigrationStatus outcome" where
  "apply_params [] st = Ret st"
| "apply_params (p # ps) st = outcome_bind (apply_param p st) (apply_params ps)"

definition set_job_type :: "int32 \<Rightarrow> MigrationStatus \<Rightarrow> MigrationStatus" where
  "set_job_type t st =
     (if 1 \<le> sint t \<and> sint t \<le> int (length job_types) then st\<lparr>mig_Type := job_types ! nat (sint t - 1)\<rparr> else st)"

definition populateDomainJobInfo ::
    "'q virt \<Rightarrow> sys_vars \<Rightarrow> Domain \<Rightarrow> bool \<Rightarrow> MigrationStatus \<Rightarrow> 'q trace
     \<Rightarrow> (goerr option \<times> MigrationStatus) outcome \<times> 'q trace" where
  "populateDomainJobInfo V sv d completed st tr =
     (let st = st\<lparr>mig_Destination := NodeLabelName sv\<rparr>
      in case ext (VGetJobStats d completed) (\<lambda>t. v_GetJobStats V t d completed) tr of
           (Inl err, tr) \<Rightarrow> (Ret (Some err, st), tr)
         | (Inr (rType, params), tr) \<Rightarrow>
             if rType = 0 then (Ret (Some (Sentinel ErrDomainNotFound), st), tr)
             else (outcome_bind (apply_params params (set_job_type rType st)) (\<lambda>st. Ret (None, st)), tr))"

section \<open>Handlers\<close>

definition GetOpenstackUUID :: "Domain \<Rightarrow> string" where
  "GetOpenstackUUID d = UUID_String (domain_UUID d)"

definition patchMigration ::
    "'q k8s \<Rightarrow> 'q virt \<Rightarrow> sys_vars \<Rightarrow> Domain \<Rightarrow> bool \<Rightarrow> 'q trace \<Rightarrow> goerr option outcome \<times> 'q trace" where
  "patchMigration K V sv d completed tr =
     (case ext (KGetMigration (Namespace sv) (GetOpenstackUUID d))
             (\<lambda>t. k_GetMigration K t (Namespace sv) (GetOpenstackUUID d)) tr of
        (Inl err, tr) \<Rightarrow> (Ret (Some (Wrapped ''failed to get migration status: '' err [])), tr)
      | (Inr original, tr) \<Rightarrow>
          (case populateDomainJobInfo V sv d completed (migration_Status original) tr of
             (Panic msg, tr) \<Rightarrow> (Panic msg, tr)
           | (Blocked, tr) \<Rightarrow> (Blocked, tr)
           | (Ret (r, st), tr) \<Rightarrow>
               if (case r of Some err \<Rightarrow> has_suffix (error_text err) ''domain is not running'' | None \<Rightarrow> False)
               then (Ret None, tr)
               else (let st = (if completed \<and> (case r of Some err \<Rightarrow> errors_is err ErrDomainNotFound | None \<Rightarrow> False)
                               then st\<lparr>mig_Type := ''completed''\<rparr> else st);
                         migration = original\<lparr>migration_Status := st\<rparr>
                     in case ext (KPatchMigrationStatus migration original)
                               (\<lambda>t. k_PatchMigrationStatus K t migration original) tr of
                          (Some err, tr) \<Rightarrow> (Ret (Some (Wrapped ''failed to patch migration status: '' err [])), tr)
                        | (None, tr) \<Rightarrow> (Ret None, tr))))"

text \<open>
  \<^verbatim>\<open>startMigrationWatch\<close>: \<open>ctx\<close> is the number of the new context, \<open>now\<close> the current time. The result
  says, beside the error, whether a watch was started.
\<close>

definition startMigrationWatch ::
    "'q k8s \<Rightarrow> sys_vars \<Rightarrow> int \<Rightarrow> nat \<Rightarrow> Domain \<Rightarrow> LibVirt \<Rightarrow> 'q trace
     \<Rightarrow> (goerr option \<times> bool) \<times> LibVirt \<times> 'q trace" where
  "startMigrationWatch K sv now ctx d l tr =
     (let ns = Namespace sv; name = GetOpenstackUUID d in
      case ext (KCreateMigration ns name) (\<lambda>t. k_CreateMigration K t ns name) tr of
        (r, tr) \<Rightarrow>
          (case (if k_IgnoreAlreadyExists K r = None then None else r) of
             Some err \<Rightarrow> ((Some (Wrapped ''failed to create migration object: '' err []), False), l, tr)
           | None \<Rightarrow>
               if map_of (lv_migrationJobs l) (domain_Name d) \<noteq> None then ((None, False), l, tr)
               else (case ext (KGetMigration ns name) (\<lambda>t. k_GetMigration K t ns name) tr of
                       (Inl err, tr) \<Rightarrow> ((Some (Wrapped ''failed to get migration status: '' err []), False), l, tr)
                     | (Inr original, tr) \<Rightarrow>
                         (let patched = original\<lparr>migration_Status :=
                                (migration_Status original)\<lparr>mig_Started := now, mig_Origin := NodeLabelName sv\<rparr>\<rparr>
                          in case ext (KPatchMigrationStatus patched original)
                                    (\<lambda>t. k_PatchMigrationStatus K t patched original) tr of
                               (Some err, tr) \<Rightarrow>
                                 ((Some (Wrapped ''failed to patch migration status time: '' err []), False), l, tr)
                             | (None, tr) \<Rightarrow>
                                 ((None, True),
                                  l\<lparr>lv_migrationJobs := AList.update (domain_Name d) ctx (lv_migrationJobs l)\<rparr>, tr)))))"

text \<open>\<^verbatim>\<open>stopMigrationWatch\<close>: the context it cancels, if any.\<close>

definition stopMigrationWatch :: "Domain \<Rightarrow> LibVirt \<Rightarrow> nat option \<times> LibVirt" where
  "stopMigrationWatch d l =
     (case map_of (lv_migrationJobs l) (domain_Name d) of
        None \<Rightarrow> (None, l)
      | Some ctx \<Rightarrow> (Some ctx, l\<lparr>lv_migrationJobs := AList.delete (domain_Name d) (lv_migrationJobs l)\<rparr>))"

text \<open>
  \<^verbatim>\<open>watchMigrationLoop\<close>, for a sequence of rounds. In each the context is done, or a second has
  passed and the context has an error by then or not. The loop has ended (with the outcome of the
  goroutine) or still runs. It is a method of the connection, which no branch of it changes: its only deferred
  call cancels its context.
\<close>

datatype watch_round = CtxDone | Tick bool

fun watchMigrationLoop ::
    "'q k8s \<Rightarrow> 'q virt \<Rightarrow> sys_vars \<Rightarrow> Domain \<Rightarrow> watch_round list \<Rightarrow> LibVirt \<Rightarrow> 'q trace
     \<Rightarrow> unit outcome option \<times> LibVirt \<times> 'q trace" where
  "watchMigrationLoop K V sv d [] l tr = (None, l, tr)"
| "watchMigrationLoop K V sv d (CtxDone # rs) l tr = (Some (Ret ()), l, tr)"
| "watchMigrationLoop K V sv d (Tick ctxErr # rs) l tr =
     (if ctxErr then (Some (Ret ()), l, tr)
      else (case patchMigration K V sv d False tr of
              (Panic msg, tr) \<Rightarrow> (Some (Panic msg), l, tr)
            | (Blocked, tr) \<Rightarrow> (Some Blocked, l, tr)
            | (Ret (Some err), tr) \<Rightarrow>
                if errors_is err ErrDomainNotFound then (Some (Ret ()), l, tr)
                else watchMigrationLoop K V sv d rs l tr
            | (Ret None, tr) \<Rightarrow> watchMigrationLoop K V sv d rs l tr))"

text \<open>The messages of libvirt's events. \<^verbatim>\<open>onLifecycleEvent\<close> and the others assert their type.\<close>

datatype event_msg = LifecycleMsg Domain int32 int32 | MigrationIterationMsg Domain int32
  | JobCompletedMsg Domain | OtherMsg

text \<open>What a handler did to the watches: nothing, started one with a context, cancelled a context.\<close>

datatype watch_effect = NoEffect | Started nat | Cancelled nat

definition onMigrationIteration ::
    "'q k8s \<Rightarrow> sys_vars \<Rightarrow> int \<Rightarrow> nat \<Rightarrow> event_msg \<Rightarrow> LibVirt \<Rightarrow> 'q trace \<Rightarrow> watch_effect outcome \<times> LibVirt \<times> 'q trace" where
  "onMigrationIteration K sv now ctx e l tr =
     (case e of
        MigrationIterationMsg d n \<Rightarrow>
          (case startMigrationWatch K sv now ctx d l tr of
             ((r, started), l, tr) \<Rightarrow> (Ret (if started then Started ctx else NoEffect), l, tr))
      | _ \<Rightarrow> (Panic assert_fail, l, tr))"

definition onJobCompleted :: "event_msg \<Rightarrow> LibVirt \<Rightarrow> 'q trace \<Rightarrow> watch_effect outcome \<times> LibVirt \<times> 'q trace" where
  "onJobCompleted e l tr = (case e of JobCompletedMsg d \<Rightarrow> (Ret NoEffect, l, tr) | _ \<Rightarrow> (Panic assert_fail, l, tr))"

text \<open>The numbers of libvirt's lifecycle events that lead to more than a log message.\<close>

abbreviation DomainEventResumed :: int32 where "DomainEventResumed \<equiv> 4"
abbreviation DomainEventStopped :: int32 where "DomainEventStopped \<equiv> 5"
abbreviation DomainEventShutdown :: int32 where "DomainEventShutdown \<equiv> 6"

definition onLifecycleEvent ::
    "'q k8s \<Rightarrow> 'q virt \<Rightarrow> sys_vars \<Rightarrow> event_msg \<Rightarrow> LibVirt \<Rightarrow> 'q trace \<Rightarrow> watch_effect outcome \<times> LibVirt \<times> 'q trace" where
  "onLifecycleEvent K V sv e l tr =
     (case e of
        LifecycleMsg d event detail \<Rightarrow>
          if event = DomainEventResumed then
            (case patchMigration K V sv d True tr of
               (Ret r, tr) \<Rightarrow> (Ret NoEffect, l, tr)
             | (Panic msg, tr) \<Rightarrow> (Panic msg, l, tr)
             | (Blocked, tr) \<Rightarrow> (Blocked, l, tr))
          else if event = DomainEventStopped \<or> event = DomainEventShutdown then
            (case stopMigrationWatch d l of
               (None, l) \<Rightarrow> (Ret NoEffect, l, tr)
             | (Some ctx, l) \<Rightarrow> (Ret (Cancelled ctx), l, tr))
          else (Ret NoEffect, l, tr)
      | _ \<Rightarrow> (Panic assert_fail, l, tr))"

section \<open>Dynamic types of the parameters\<close>

datatype any_kind = KInt32 | KUint32 | KInt64 | KUint64 | KFloat64 | KBool | KString | KNil

fun kind_of :: "any_value \<Rightarrow> any_kind" where
  "kind_of (VInt32 i) = KInt32"
| "kind_of (VUint32 i) = KUint32"
| "kind_of (VInt64 i) = KInt64"
| "kind_of (VUint64 i) = KUint64"
| "kind_of (VFloat64 x) = KFloat64"
| "kind_of (VBool b) = KBool"
| "kind_of (VString s) = KString"
| "kind_of VNil = KNil"

text \<open>The type each field must have; \<^verbatim>\<open>success\<close> may have any.\<close>

definition field_kinds :: "(string \<times> any_kind) list" where
  "field_kinds =
     [(''operation'', KInt32), (''time_elapsed'', KInt64), (''time_remaining'', KUint32), (''downtime'', KInt64),
      (''setup_time'', KInt64), (''errmsg'', KString)]
     @ map (\<lambda>f. (f, KUint64))
         [''data_total'', ''data_processed'', ''data_remaining'', ''memory_total'', ''memory_processed'',
          ''memory_remaining'', ''memory_constant'', ''memory_normal'', ''memory_normal_bytes'', ''memory_bps'',
          ''memory_dirty_rate'', ''memory_page_size'', ''memory_iteration'', ''memory_postcopy_requests'',
          ''disk_total'', ''disk_processed'', ''disk_remaining'', ''disk_bps'', ''auto_converge_throttle'']"

definition well_typed :: "TypedParam \<Rightarrow> bool" where
  "well_typed p = (case map_of field_kinds (param_Field p) of None \<Rightarrow> True | Some k \<Rightarrow> kind_of (param_Value p) = k)"

lemma ByteCountIEC_total: "\<exists>s. ByteCountIEC b = Ret s"
proof (cases "1024 \<le> b")
  case True
  then show ?thesis using ByteCountIEC_prefix by blast
next
  case False
  then show ?thesis by (simp add: ByteCountIEC_def not_le)
qed

definition handler_ok :: "any_kind option \<Rightarrow> (any_value \<Rightarrow> MigrationStatus \<Rightarrow> MigrationStatus outcome) \<Rightarrow> bool" where
  "handler_ok k h \<longleftrightarrow> (\<forall>v st. if k = None \<or> k = Some (kind_of v) then (\<exists>st'. h v st = Ret st') else h v st = Panic assert_fail)"

definition asserts :: "any_kind \<Rightarrow> (any_value \<Rightarrow> 'a outcome) \<Rightarrow> bool" where
  "asserts k conv \<longleftrightarrow> (\<forall>v. if kind_of v = k then (\<exists>i. conv v = Ret i) else conv v = Panic assert_fail)"

lemma asserts:
  "asserts KInt32 as_int32" "asserts KInt64 as_int64" "asserts KUint32 as_uint32" "asserts KUint64 as_uint64"
  "asserts KString as_string"
  unfolding asserts_def by (rule allI, rename_tac v, case_tac v; simp)+

lemma handler_ok_bind:
  assumes "asserts k conv" and "\<And>i st. \<exists>st'. g i st = Ret st'"
  shows "handler_ok (Some k) (\<lambda>v st. outcome_bind (conv v) (\<lambda>i. g i st))"
  unfolding handler_ok_def
proof (intro allI)
  fix v st
  show "if Some k = None \<or> Some k = Some (kind_of v)
        then \<exists>st'. outcome_bind (conv v) (\<lambda>i. g i st) = Ret st'
        else outcome_bind (conv v) (\<lambda>i. g i st) = Panic assert_fail"
    using assms(1) [unfolded asserts_def, rule_format, of v] assms(2) by auto
qed

lemma with_bytes_ok: "handler_ok (Some KUint64) (with_bytes upd)"
  unfolding with_bytes_def
proof (rule handler_ok_bind [OF asserts(4)])
  fix n st
  show "\<exists>st'. outcome_bind (ByteCountIEC n) (\<lambda>t. Ret (upd t st)) = Ret st'"
    using ByteCountIEC_total [of n] by auto
qed

lemma handler_oks:
  "handler_ok (Some KUint64) (with_count updc)"
  "handler_ok (Some KInt64) (with_millis upd)" "handler_ok (Some KUint32) (with_millis32 upd)"
  "handler_ok (Some KInt32) (\<lambda>v st. outcome_bind (as_int32 v) (\<lambda>i. Ret (updi i st)))"
  "handler_ok (Some KString) (\<lambda>v st. outcome_bind (as_string v) (\<lambda>s. Ret (upds s st)))"
  "handler_ok None (\<lambda>v st. Ret (f st))"
  unfolding with_count_def with_millis_def with_millis32_def
  by (intro handler_ok_bind asserts; simp)+ (simp add: handler_ok_def)

lemma param_table_ok: "list_all (\<lambda>(f, h). handler_ok (map_of field_kinds f) h) param_table"
  by (simp add: param_table_def field_kinds_def handler_oks with_bytes_ok)

lemma unknown_field:
  "map_of param_table f = None \<Longrightarrow> map_of field_kinds f = None"
  unfolding map_of_eq_None_iff by (simp add: param_table_def field_kinds_def)

lemma apply_param_cases:
  "if well_typed p then (\<exists>st'. apply_param p st = Ret st') else apply_param p st = Panic assert_fail"
proof (cases "map_of param_table (param_Field p)")
  case None
  then show ?thesis using unknown_field by (auto simp: apply_param_def well_typed_def)
next
  case (Some h)
  then have "handler_ok (map_of field_kinds (param_Field p)) h"
    using param_table_ok by (auto simp: list_all_iff dest!: map_of_SomeD)
  with Some show ?thesis
    by (auto simp: apply_param_def well_typed_def handler_ok_def split: option.splits)
qed

lemma apply_params_cases:
  "if list_all well_typed ps then (\<exists>st'. apply_params ps st = Ret st') else apply_params ps st = Panic assert_fail"
proof (induction ps arbitrary: st)
  case (Cons p ps)
  show ?case
  proof (cases "well_typed p")
    case True
    then obtain st' where "apply_param p st = Ret st'" using apply_param_cases [of p st] by auto
    with True Cons.IH [of st'] show ?thesis by simp
  next
    case False
    then show ?thesis using apply_param_cases [of p st] by simp
  qed
qed simp

section \<open>The watches as a state machine\<close>

text \<open>
  The state: the connection (with its table of jobs), the number of the next context, the contexts that are not done
  yet, each with the name of the domain it is for, and the goroutines that run \<^verbatim>\<open>watchMigrationLoop\<close>, each with its
  context and its domain. The steps: a migration iteration event, which may start a goroutine; a lifecycle event, which may
  cancel a context; the end of a context's sixty minutes; and a round of a goroutine. A round
  finds its context done or not, according to the state; a goroutine whose context was cancelled runs on until a
  round of it sees that. When the loop returns its context is cancelled.
\<close>

record watches =
  w_lv :: LibVirt
  w_next :: nat
  w_live :: "(nat \<times> string) set"
  w_loops :: "(nat \<times> Domain) set"

datatype watch_label = Iteration Domain | Lifecycle Domain int32 int32 | Expired nat | Looped nat watch_round

fun round_possible :: "bool \<Rightarrow> watch_round \<Rightarrow> bool" where
  "round_possible live CtxDone = (\<not> live)"
| "round_possible live (Tick ctxErr) = (ctxErr = (\<not> live))"

definition without :: "nat \<Rightarrow> (nat \<times> 'a) set \<Rightarrow> (nat \<times> 'a) set" where
  "without c xs = {x \<in> xs. fst x \<noteq> c}"

inductive watch_step ::
    "'q k8s \<Rightarrow> 'q virt \<Rightarrow> sys_vars \<Rightarrow> watches \<times> 'q trace \<Rightarrow> watch_label \<Rightarrow> watches \<times> 'q trace \<Rightarrow> bool"
  for K V sv where
  IterStarted: "onMigrationIteration K sv now (w_next s) (MigrationIterationMsg d n) (w_lv s) tr = (Ret (Started c), l, tr') \<Longrightarrow>
     watch_step K V sv (s, tr) (Iteration d)
       (s\<lparr>w_lv := l, w_next := w_next s + 1, w_live := insert (c, domain_Name d) (w_live s),
          w_loops := insert (c, d) (w_loops s)\<rparr>, tr')"
| IterIgnored: "onMigrationIteration K sv now (w_next s) (MigrationIterationMsg d n) (w_lv s) tr = (Ret NoEffect, l, tr') \<Longrightarrow>
     watch_step K V sv (s, tr) (Iteration d) (s\<lparr>w_lv := l\<rparr>, tr')"
| LifeCancel: "onLifecycleEvent K V sv (LifecycleMsg d ev det) (w_lv s) tr = (Ret (Cancelled c), l, tr') \<Longrightarrow>
     watch_step K V sv (s, tr) (Lifecycle d ev det) (s\<lparr>w_lv := l, w_live := without c (w_live s)\<rparr>, tr')"
| LifeOther: "onLifecycleEvent K V sv (LifecycleMsg d ev det) (w_lv s) tr = (Ret NoEffect, l, tr') \<Longrightarrow>
     watch_step K V sv (s, tr) (Lifecycle d ev det) (s\<lparr>w_lv := l\<rparr>, tr')"
| Expire: "watch_step K V sv (s, tr) (Expired c) (s\<lparr>w_live := without c (w_live s)\<rparr>, tr)"
| LoopRound: "(c, d) \<in> w_loops s \<Longrightarrow> round_possible ((c, domain_Name d) \<in> w_live s) rnd \<Longrightarrow>
     watchMigrationLoop K V sv d [rnd] (w_lv s) tr = (None, l, tr') \<Longrightarrow>
     watch_step K V sv (s, tr) (Looped c rnd) (s\<lparr>w_lv := l\<rparr>, tr')"
| LoopReturn: "(c, d) \<in> w_loops s \<Longrightarrow> round_possible ((c, domain_Name d) \<in> w_live s) rnd \<Longrightarrow>
     watchMigrationLoop K V sv d [rnd] (w_lv s) tr = (Some (Ret ()), l, tr') \<Longrightarrow>
     watch_step K V sv (s, tr) (Looped c rnd)
       (s\<lparr>w_lv := l, w_live := without c (w_live s), w_loops := without c (w_loops s)\<rparr>, tr')"

inductive watch_steps ::
    "'q k8s \<Rightarrow> 'q virt \<Rightarrow> sys_vars \<Rightarrow> watches \<times> 'q trace \<Rightarrow> watch_label list \<Rightarrow> watches \<times> 'q trace \<Rightarrow> bool"
  for K V sv where
  none: "watch_steps K V sv x [] x"
| more: "watch_steps K V sv x ls y \<Longrightarrow> watch_step K V sv y lb z \<Longrightarrow> watch_steps K V sv x (ls @ [lb]) z"

definition no_watches :: "LibVirt \<Rightarrow> watches" where
  "no_watches l = \<lparr>w_lv = l, w_next = 0, w_live = {}, w_loops = {}\<rparr>"

text \<open>Every live context is the registered job of its domain.\<close>

definition watch_inv :: "watches \<Rightarrow> bool" where
  "watch_inv s \<longleftrightarrow> (\<forall>c n. (c, n) \<in> w_live s \<longrightarrow> map_of (lv_migrationJobs (w_lv s)) n = Some c \<and> c < w_next s)"

lemma startMigrationWatch_cases:
  assumes "startMigrationWatch K sv now ctx d l tr = ((r, started), l', tr')"
  shows "(started \<longrightarrow> r = None \<and> map_of (lv_migrationJobs l) (domain_Name d) = None
            \<and> l' = l\<lparr>lv_migrationJobs := AList.update (domain_Name d) ctx (lv_migrationJobs l)\<rparr>)
       \<and> (\<not> started \<longrightarrow> l' = l)"
  using assms by (auto simp: startMigrationWatch_def Let_def ext_def split: option.splits sum.splits if_splits prod.splits)

lemma onMigrationIteration_cases:
  assumes "onMigrationIteration K sv now ctx (MigrationIterationMsg d n) l tr = (Ret eff, l', tr')"
  shows "eff = Started ctx \<and> map_of (lv_migrationJobs l) (domain_Name d) = None
           \<and> l' = l\<lparr>lv_migrationJobs := AList.update (domain_Name d) ctx (lv_migrationJobs l)\<rparr>
       \<or> eff = NoEffect \<and> l' = l"
proof -
  obtain r b l1 tr1 where w: "startMigrationWatch K sv now ctx d l tr = ((r, b), l1, tr1)"
    by (metis prod.exhaust)
  from startMigrationWatch_cases [OF w] w assms show ?thesis
    by (cases b) (auto simp: onMigrationIteration_def)
qed

lemma onLifecycleEvent_cases:
  assumes "onLifecycleEvent K V sv (LifecycleMsg d ev det) l tr = (Ret eff, l', tr')"
  shows "(\<exists>c. eff = Cancelled c \<and> ev \<in> {DomainEventStopped, DomainEventShutdown}
            \<and> map_of (lv_migrationJobs l) (domain_Name d) = Some c
            \<and> l' = l\<lparr>lv_migrationJobs := AList.delete (domain_Name d) (lv_migrationJobs l)\<rparr>)
       \<or> eff = NoEffect \<and> l' = l"
  using assms
  by (auto simp: onLifecycleEvent_def stopMigrationWatch_def split: if_splits option.splits outcome.splits prod.splits)

text \<open>The loop leaves the connection alone.\<close>

lemma watchMigrationLoop_lv: "fst (snd (watchMigrationLoop K V sv d rounds l tr)) = l"
  by (induction K V sv d rounds l tr rule: watchMigrationLoop.induct) (auto split: prod.splits outcome.splits option.splits)

lemma loop_lvD: "watchMigrationLoop K V sv d rounds l tr = (res, l', tr') \<Longrightarrow> l' = l"
  using watchMigrationLoop_lv by (metis fst_conv snd_conv)

lemma watch_step_inv:
  assumes "watch_step K V sv (s, tr) lb (s', tr')" and "watch_inv s"
  shows "watch_inv s'"
  using assms(1)
proof (cases rule: watch_step.cases)
  case (IterStarted now d n c l)
  then show ?thesis
    using onMigrationIteration_cases [OF IterStarted(3)] assms(2)
    by (auto simp: watch_inv_def update_conv' less_Suc_eq)
next
  case (IterIgnored now d n l)
  then show ?thesis
    using onMigrationIteration_cases [OF IterIgnored(3)] assms(2) by (auto simp: watch_inv_def)
next
  case (LifeCancel d ev det c l)
  then show ?thesis
    using onLifecycleEvent_cases [OF LifeCancel(3)] assms(2) by (auto simp: watch_inv_def without_def delete_conv')
next
  case (LifeOther d ev det l)
  then show ?thesis
    using onLifecycleEvent_cases [OF LifeOther(3)] assms(2) by (auto simp: watch_inv_def)
qed (use assms(2) in \<open>auto simp: watch_inv_def without_def dest!: loop_lvD\<close>)

lemma watch_steps_inv:
  assumes "watch_steps K V sv (s, tr) ls (s', tr')" and "watch_inv s"
  shows "watch_inv s'"
  using assms
proof (induction "(s, tr)" ls "(s', tr')" arbitrary: s' tr' rule: watch_steps.induct)
  case (more ls y lb)
  then show ?case by (cases y) (auto intro: watch_step_inv)
qed simp

text \<open>As long as its domain does not stop, a registered job stays registered and no other context is made for it.\<close>

definition stops :: "string \<Rightarrow> watch_label \<Rightarrow> bool" where
  "stops n lb \<longleftrightarrow> (\<exists>d ev det. lb = Lifecycle d ev det \<and> domain_Name d = n \<and> ev \<in> {DomainEventStopped, DomainEventShutdown})"

definition registered :: "string \<Rightarrow> nat \<Rightarrow> watches \<Rightarrow> bool" where
  "registered n c s \<longleftrightarrow> map_of (lv_migrationJobs (w_lv s)) n = Some c \<and> (\<forall>c'. (c', n) \<in> w_live s \<longrightarrow> c' = c)"

lemma watch_inv_registered: "watch_inv s \<Longrightarrow> (c, n) \<in> w_live s \<Longrightarrow> registered n c s"
  unfolding watch_inv_def registered_def by (metis option.inject)

lemma registered_step:
  assumes "watch_step K V sv (s, tr) lb (s', tr')" and "registered n c s" and "\<not> stops n lb"
  shows "registered n c s'"
  using assms(1)
proof (cases rule: watch_step.cases)
  case (IterStarted now d m c' l)
  then show ?thesis
    using onMigrationIteration_cases [OF IterStarted(3)] assms(2) by (auto simp: registered_def update_conv')
next
  case (IterIgnored now d m l)
  then show ?thesis
    using onMigrationIteration_cases [OF IterIgnored(3)] assms(2) by (auto simp: registered_def)
next
  case (LifeCancel d ev det c' l)
  then show ?thesis
    using onLifecycleEvent_cases [OF LifeCancel(3)] assms(2,3) by (auto simp: registered_def without_def stops_def delete_conv')
next
  case (LifeOther d ev det l)
  then show ?thesis
    using onLifecycleEvent_cases [OF LifeOther(3)] assms(2) by (auto simp: registered_def)
qed (use assms(2) in \<open>auto simp: registered_def without_def dest!: loop_lvD\<close>)

lemma registered_steps:
  assumes "watch_steps K V sv (s, tr) ls (s', tr')" and "registered n c s" and "\<forall>lb \<in> set ls. \<not> stops n lb"
  shows "registered n c s'"
  using assms
proof (induction "(s, tr)" ls "(s', tr')" arbitrary: s' tr' rule: watch_steps.induct)
  case (more ls y lb)
  then show ?case by (cases y) (auto intro: registered_step)
qed simp

lemma registered_ignores:
  assumes "registered n c s" and "domain_Name d = n"
  shows "fst (onMigrationIteration K sv now ctx (MigrationIterationMsg d m) (w_lv s) tr) = Ret NoEffect"
proof -
  obtain r b l tr' where "startMigrationWatch K sv now ctx d (w_lv s) tr = ((r, b), l, tr')" by (metis prod.exhaust)
  with startMigrationWatch_cases [OF this] assms show ?thesis by (auto simp: onMigrationIteration_def registered_def)
qed

section \<open>The error of a patch\<close>

text \<open>The API server's errors do not contain the agent's own \<^verbatim>\<open>errDomainNotFoud\<close>.\<close>

definition foreign_migration_errors :: "'q k8s \<Rightarrow> bool" where
  "foreign_migration_errors K \<longleftrightarrow>
     (\<forall>t ns n e. k_GetMigration K t ns n = Inl e \<longrightarrow> \<not> errors_is e ErrDomainNotFound) \<and>
     (\<forall>t m b e. k_PatchMigrationStatus K t m b = Some e \<longrightarrow> \<not> errors_is e ErrDomainNotFound)"

lemma patchMigration_error:
  assumes "foreign_migration_errors K" and "patchMigration K V sv d completed tr = (Ret (Some err), tr')"
  shows "\<not> errors_is err ErrDomainNotFound"
  using assms
  by (auto simp: patchMigration_def foreign_migration_errors_def ext_def Let_def
      split: sum.splits outcome.splits option.splits prod.splits if_splits)

lemma patchMigration_reaped:
  assumes "\<And>t c. v_GetJobStats V t d c = Inr (0, ps)"
  shows "\<exists>r tr'. patchMigration K V sv d completed tr = (Ret r, tr')"
  using assms
  by (auto simp: patchMigration_def populateDomainJobInfo_def ext_def Let_def split: sum.splits option.splits)

lemma millis32_exact: "(int k * 1000000) mod 2 ^ 32 = int k * 1000000 \<longleftrightarrow> k < 4295"
proof
  assume "(int k * 1000000) mod 2 ^ 32 = int k * 1000000"
  moreover have "(int k * 1000000) mod 2 ^ 32 < 2 ^ 32" by (rule pos_mod_bound) simp
  ultimately show "k < 4295" by simp
next
  assume "k < 4295"
  then show "(int k * 1000000) mod 2 ^ 32 = int k * 1000000" by (intro mod_pos_pos_trivial) simp_all
qed

section \<open>Origin and destination\<close>

text \<open>No parameter changes the two nodes of a migration.\<close>

definition keeps_nodes :: "(MigrationStatus \<Rightarrow> MigrationStatus outcome) \<Rightarrow> bool" where
  "keeps_nodes f \<longleftrightarrow> (\<forall>st st'. f st = Ret st' \<longrightarrow> mig_Origin st' = mig_Origin st \<and> mig_Destination st' = mig_Destination st)"

lemma keeps_nodesD: "keeps_nodes f \<Longrightarrow> f st = Ret st' \<Longrightarrow> mig_Origin st' = mig_Origin st \<and> mig_Destination st' = mig_Destination st"
  by (simp add: keeps_nodes_def)

definition node_free :: "(MigrationStatus \<Rightarrow> MigrationStatus) \<Rightarrow> bool" where
  "node_free f \<longleftrightarrow> (\<forall>st. mig_Origin (f st) = mig_Origin st \<and> mig_Destination (f st) = mig_Destination st)"

lemma keeps_nodes_bind: "(\<And>i. keeps_nodes (g i)) \<Longrightarrow> keeps_nodes (\<lambda>st. outcome_bind c (\<lambda>i. g i st))"
  by (cases c) (simp_all add: keeps_nodes_def)

lemma keeps_nodes_Ret: "node_free f \<Longrightarrow> keeps_nodes (\<lambda>st. Ret (f st))"
  by (simp add: keeps_nodes_def node_free_def)

lemma keeps_nodes_handlers:
  "(\<And>t. node_free (upd t)) \<Longrightarrow> keeps_nodes (with_bytes upd v)" "(\<And>n. node_free (updc n)) \<Longrightarrow> keeps_nodes (with_count updc v)"
  "(\<And>t. node_free (upd t)) \<Longrightarrow> keeps_nodes (with_millis upd v)" "(\<And>t. node_free (upd t)) \<Longrightarrow> keeps_nodes (with_millis32 upd v)"
  unfolding with_bytes_def with_count_def with_millis_def with_millis32_def
  by (intro keeps_nodes_bind keeps_nodes_Ret; simp)+

lemma keeps_nodes_table: "list_all (\<lambda>(f, h). \<forall>v. keeps_nodes (h v)) param_table"
  by (simp add: param_table_def keeps_nodes_handlers keeps_nodes_bind keeps_nodes_Ret node_free_def set_operation_def)

lemma apply_param_keeps_nodes: "keeps_nodes (apply_param p)"
proof (cases "map_of param_table (param_Field p)")
  case None
  then show ?thesis by (simp add: apply_param_def keeps_nodes_def)
next
  case (Some h)
  then have "keeps_nodes (h (param_Value p))" using keeps_nodes_table by (auto simp: list_all_iff dest!: map_of_SomeD)
  with Some show ?thesis by (simp add: apply_param_def keeps_nodes_def)
qed

lemma apply_params_keeps_nodes: "keeps_nodes (apply_params ps)"
proof (induction ps)
  case (Cons p ps)
  then show ?case using keeps_nodesD [OF apply_param_keeps_nodes] by (fastforce simp: keeps_nodes_def outcome_bind_Ret)
qed (simp add: keeps_nodes_def)

lemma populateDomainJobInfo_nodes:
  assumes "populateDomainJobInfo V sv d completed st tr = (Ret (r, st'), tr')"
  shows "mig_Origin st' = mig_Origin st \<and> mig_Destination st' = NodeLabelName sv"
proof -
  have job: "mig_Origin (set_job_type t st0) = mig_Origin st0 \<and> mig_Destination (set_job_type t st0) = mig_Destination st0" for t st0
    by (simp add: set_job_type_def)
  show ?thesis
    using assms
    by (auto simp: populateDomainJobInfo_def ext_def Let_def outcome_bind_Ret job split: sum.splits if_splits
        dest!: keeps_nodesD [OF apply_params_keeps_nodes])
qed

text \<open>A call that patches a migration names this node as its destination and keeps the origin.\<close>

fun names_own_node :: "sys_vars \<Rightarrow> 'q ext_call \<Rightarrow> bool" where
  "names_own_node sv (KPatchMigrationStatus m b) \<longleftrightarrow>
     mig_Destination (migration_Status m) = NodeLabelName sv \<and> mig_Origin (migration_Status m) = mig_Origin (migration_Status b)"
| "names_own_node sv c = True"

lemma patchMigration_nodes: "extends_by (names_own_node sv) tr (snd (patchMigration K V sv d completed tr))"
proof (cases "k_GetMigration K tr (Namespace sv) (GetOpenstackUUID d)")
  case (Inl e)
  then show ?thesis by (simp add: patchMigration_def ext_def)
next
  case (Inr original)
  let ?tr = "tr @ [KGetMigration (Namespace sv) (GetOpenstackUUID d)]"
  obtain x t where p: "populateDomainJobInfo V sv d completed (migration_Status original) ?tr = (x, t)" by (metis prod.exhaust)
  have "snd (populateDomainJobInfo V sv d completed (migration_Status original) ?tr) = ?tr @ [VGetJobStats d completed]"
    by (simp add: populateDomainJobInfo_def ext_def Let_def split: sum.splits prod.splits)
  then have t: "t = ?tr @ [VGetJobStats d completed]" using p by simp
  have node: "mig_Destination st = NodeLabelName sv \<and> mig_Origin st = mig_Origin (migration_Status original)" if "x = Ret (r, st)" for r st
    using populateDomainJobInfo_nodes [of V sv d completed "migration_Status original" ?tr] p that by simp
  show ?thesis
  proof (cases x)
    case (Ret y)
    obtain r st where "y = (r, st)" by (metis prod.exhaust)
    with Ret Inr p t node show ?thesis
      by (simp add: patchMigration_def ext_def Let_def extends_by_def split: option.splits)
  qed (use Inr p t in \<open>simp_all add: patchMigration_def ext_def extends_by_def\<close>)
qed

section \<open>Properties\<close>

text \<open>
  C30. Translating the job statistics of a domain panics exactly when some parameter with a known
  name has a dynamic type other than the one the code asserts; otherwise it succeeds, sets the
  destination to this node, and the printing of the byte counts never fails.
\<close>

theorem populateDomainJobInfo_panics_iff:
  assumes "v_GetJobStats V tr d completed = Inr (rType, params)" and "rType \<noteq> 0"
  shows "(if list_all well_typed params
          then (\<exists>st'. populateDomainJobInfo V sv d completed st tr = (Ret (None, st'), tr @ [VGetJobStats d completed]))
          else populateDomainJobInfo V sv d completed st tr = (Panic assert_fail, tr @ [VGetJobStats d completed]))"
  using assms apply_params_cases [of params "set_job_type rType (st\<lparr>mig_Destination := NodeLabelName sv\<rparr>)"]
  by (auto simp: populateDomainJobInfo_def ext_def Let_def split: if_splits)

definition sample_vars :: sys_vars where
  "sample_vars = \<lparr>Hostname = ''node1'', NodeLabelName = ''label1'', Namespace = ''ns''\<rparr>"

definition sample_domain :: Domain where
  "sample_domain = \<lparr>domain_Name = ''vm'', domain_UUID = replicate 16 0, domain_ID = 1\<rparr>"

definition stats_virt :: "int32 \<Rightarrow> TypedParam list \<Rightarrow> 'q virt" where
  "stats_virt t ps = idle_virt\<lparr>v_GetJobStats := \<lambda>tr d c. Inr (t, ps)\<rparr>"

theorem populateDomainJobInfo_panics_iff_witness:
  "populateDomainJobInfo (stats_virt 2 [\<lparr>param_Field = ''data_total'', param_Value = VInt64 5\<rparr>] :: unit virt)
     sample_vars sample_domain False zero_MigrationStatus [] = (Panic assert_fail, [VGetJobStats sample_domain False])
   \<and> (\<exists>st'. populateDomainJobInfo (stats_virt 2 [\<lparr>param_Field = ''data_total'', param_Value = VUint64 5\<rparr>] :: unit virt)
     sample_vars sample_domain False zero_MigrationStatus [] = (Ret (None, st'), [VGetJobStats sample_domain False]))"
  using populateDomainJobInfo_panics_iff [of "stats_virt 2 [\<lparr>param_Field = ''data_total'', param_Value = VInt64 5\<rparr>] :: unit virt"
      "[]" sample_domain False 2 "[\<lparr>param_Field = ''data_total'', param_Value = VInt64 5\<rparr>]" sample_vars zero_MigrationStatus]
    populateDomainJobInfo_panics_iff [of "stats_virt 2 [\<lparr>param_Field = ''data_total'', param_Value = VUint64 5\<rparr>] :: unit virt"
      "[]" sample_domain False 2 "[\<lparr>param_Field = ''data_total'', param_Value = VUint64 5\<rparr>]" sample_vars zero_MigrationStatus]
  by (simp add: stats_virt_def well_typed_def field_kinds_def)

text \<open>
  C31. The remaining time of a migration is computed in 32 bits: the duration printed is the number
  of nanoseconds modulo \<open>2 ^ 32\<close>, so it is never 4.3 seconds or more, and from 4295 milliseconds
  on it is not the remaining time. The elapsed time, in 64 bits, is exact up to 292 years.
\<close>

theorem time_remaining_wraps:
  "(\<exists>d. apply_param \<lparr>param_Field = ''time_remaining'', param_Value = VUint32 ms\<rparr> st
          = Ret (st\<lparr>mig_TimeRemaining := Duration_String d\<rparr>)
        \<and> sint d = (int (unat ms) * 1000000) mod 2 ^ 32
        \<and> (sint d = int (unat ms) * 1000000 \<longleftrightarrow> unat ms < 4295)) \<and>
   (0 \<le> sint n \<and> sint n * 1000000 < 2 ^ 63 \<longrightarrow>
     (\<exists>d. apply_param \<lparr>param_Field = ''time_elapsed'', param_Value = VInt64 n\<rparr> st
          = Ret (st\<lparr>mig_TimeElapsed := Duration_String d\<rparr>) \<and> sint d = sint n * 1000000))"
proof (intro conjI impI)
  let ?d = "ucast (ms * 1000 * 1000) :: int64"
  have eq: "ms * 1000 * 1000 = ms * 1000000" by (simp add: mult.assoc)
  have u: "uint (ms * 1000000) = (int (unat ms) * 1000000) mod 2 ^ 32"
    by (simp add: uint_word_ariths(3))
  have "sint ?d = uint (ms * 1000000)"
  proof -
    have lt: "0 \<le> uint (ms * 1000000)" "uint (ms * 1000000) < 2 ^ 32" using uint_lt2p [of "ms * 1000000"] by simp_all
    have "uint ?d = take_bit 64 (uint (ms * 1000000))" by (simp add: eq unsigned_ucast_eq)
    also have "\<dots> = uint (ms * 1000000)" by (rule take_bit_int_eq_self) (use lt in simp_all)
    finally have "sint ?d = signed_take_bit 63 (uint (ms * 1000000))" by (simp add: sint_uint)
    also have "\<dots> = uint (ms * 1000000)"
      by (rule signed_take_bit_int_eq_self) (rule order_trans [OF _ lt(1)], simp, rule less_trans [OF lt(2)], simp)
    finally show ?thesis .
  qed
  with u have d: "sint ?d = (int (unat ms) * 1000000) mod 2 ^ 32" by simp
  note millis32_exact [of "unat ms"]
  with d have "sint ?d = int (unat ms) * 1000000 \<longleftrightarrow> unat ms < 4295" by simp
  moreover have "apply_param \<lparr>param_Field = ''time_remaining'', param_Value = VUint32 ms\<rparr> st
      = Ret (st\<lparr>mig_TimeRemaining := Duration_String ?d\<rparr>)"
    by (simp add: apply_param_def param_table_def with_millis32_def)
  ultimately show "\<exists>d. apply_param \<lparr>param_Field = ''time_remaining'', param_Value = VUint32 ms\<rparr> st
      = Ret (st\<lparr>mig_TimeRemaining := Duration_String d\<rparr>)
    \<and> sint d = (int (unat ms) * 1000000) mod 2 ^ 32 \<and> (sint d = int (unat ms) * 1000000 \<longleftrightarrow> unat ms < 4295)"
    using d by blast
next
  assume n: "0 \<le> sint n \<and> sint n * 1000000 < 2 ^ 63"
  have "int64_range (sint n * sint (1000000 :: int64))" using n by (simp add: int64_range_def)
  from sint_times_int64 [OF this] have "sint (n * 1000000) = sint n * 1000000" by simp
  moreover have "n * 1000 * 1000 = n * 1000000" by (simp add: mult.assoc)
  moreover have "apply_param \<lparr>param_Field = ''time_elapsed'', param_Value = VInt64 n\<rparr> st
      = Ret (st\<lparr>mig_TimeElapsed := Duration_String (n * 1000 * 1000)\<rparr>)"
    by (simp add: apply_param_def param_table_def with_millis_def)
  ultimately show "\<exists>d. apply_param \<lparr>param_Field = ''time_elapsed'', param_Value = VInt64 n\<rparr> st
      = Ret (st\<lparr>mig_TimeElapsed := Duration_String d\<rparr>) \<and> sint d = sint n * 1000000"
    by metis
qed

theorem time_remaining_wraps_witness:
  "apply_param \<lparr>param_Field = ''time_remaining'', param_Value = VUint32 60000\<rparr> zero_MigrationStatus
     = Ret (zero_MigrationStatus\<lparr>mig_TimeRemaining := ''4.165425152s''\<rparr>)
   \<and> (\<exists>d. apply_param \<lparr>param_Field = ''time_elapsed'', param_Value = VInt64 60000\<rparr> zero_MigrationStatus
          = Ret (zero_MigrationStatus\<lparr>mig_TimeElapsed := Duration_String d\<rparr>) \<and> sint d = 60000000000)"
proof -
  obtain d where d: "apply_param \<lparr>param_Field = ''time_remaining'', param_Value = VUint32 60000\<rparr> zero_MigrationStatus
      = Ret (zero_MigrationStatus\<lparr>mig_TimeRemaining := Duration_String d\<rparr>)" "sint d = 4165425152"
    using time_remaining_wraps [of 60000 zero_MigrationStatus 0] by auto
  have "Duration_String d = ''4.165425152s''"
    by (simp add: Duration_String_def d(2) duration_abs_def fmt_frac_def digit_char_def dec.simps upt_rec Let_def char_of_eq_iff of_char_def)
  with d time_remaining_wraps [of 60000 zero_MigrationStatus 60000] show ?thesis by auto
qed

text \<open>
  C7. At most one migration watch runs per domain name at any time (has a context that is not done), whatever the order of
  iteration events, lifecycle events, time-outs and rounds of the loops, and the one that runs is the one
  that a stop event of the domain would cancel.
\<close>

theorem one_watch_per_domain:
  assumes "watch_steps K V sv (no_watches l, tr0) ls (s, tr)"
    and "(c, n) \<in> w_live s" and "(c', n) \<in> w_live s"
  shows "c = c' \<and> map_of (lv_migrationJobs (w_lv s)) n = Some c"
proof -
  have "watch_inv (no_watches l)" by (simp add: watch_inv_def no_watches_def)
  from watch_steps_inv [OF assms(1) this]
  have "\<And>c n. (c, n) \<in> w_live s \<Longrightarrow> map_of (lv_migrationJobs (w_lv s)) n = Some c" by (simp add: watch_inv_def)
  from this [OF assms(2)] this [OF assms(3)] show ?thesis by simp
qed

lemma sample_iteration:
  "onMigrationIteration (idle_k8s (sample_hv ())) sample_vars 0 0 (MigrationIterationMsg sample_domain 1) (NewLibVirt (\<lambda>_. [])) []
     = (Ret (Started 0), (NewLibVirt (\<lambda>_. []))\<lparr>lv_migrationJobs := [(''vm'', 0)]\<rparr>,
        snd (snd (onMigrationIteration (idle_k8s (sample_hv ())) sample_vars 0 0 (MigrationIterationMsg sample_domain 1)
          (NewLibVirt (\<lambda>_. [])) [])))"
  by (simp add: onMigrationIteration_def startMigrationWatch_def idle_k8s_def ext_def sample_domain_def NewLibVirt_def Let_def)

lemma sample_watch:
  "\<exists>s tr. watch_steps (idle_k8s (sample_hv ())) idle_virt sample_vars (no_watches (NewLibVirt (\<lambda>_. [])), []) [Iteration sample_domain] (s, tr)
     \<and> w_live s = {(0, ''vm'')} \<and> w_loops s = {(0, sample_domain)} \<and> map_of (lv_migrationJobs (w_lv s)) ''vm'' = Some 0"
proof -
  let ?s = "no_watches (NewLibVirt (\<lambda>_. []))" and ?K = "idle_k8s (sample_hv ())"
  have "onMigrationIteration ?K sample_vars 0 (w_next ?s) (MigrationIterationMsg sample_domain 1) (w_lv ?s) []
      = (Ret (Started 0), (NewLibVirt (\<lambda>_. []))\<lparr>lv_migrationJobs := [(''vm'', 0)]\<rparr>,
         snd (snd (onMigrationIteration ?K sample_vars 0 0 (MigrationIterationMsg sample_domain 1) (NewLibVirt (\<lambda>_. [])) [])))"
    using sample_iteration by (simp add: no_watches_def)
  from watch_steps.more [OF watch_steps.none watch_step.IterStarted [OF this], of idle_virt]
  obtain tr where "watch_steps ?K idle_virt sample_vars (?s, []) [Iteration sample_domain]
      (\<lparr>w_lv = (NewLibVirt (\<lambda>_. []))\<lparr>lv_migrationJobs := [(''vm'', 0)]\<rparr>, w_next = 1, w_live = {(0, ''vm'')},
        w_loops = {(0, sample_domain)}\<rparr>, tr)"
    by (auto simp: no_watches_def sample_domain_def)
  then show ?thesis by fastforce
qed

theorem one_watch_per_domain_witness:
  "\<exists>s tr. watch_steps (idle_k8s (sample_hv ())) idle_virt sample_vars (no_watches (NewLibVirt (\<lambda>_. [])), []) [Iteration sample_domain] (s, tr)
     \<and> (0, ''vm'') \<in> w_live s \<and> map_of (lv_migrationJobs (w_lv s)) ''vm'' = Some 0"
proof -
  obtain s tr where s: "watch_steps (idle_k8s (sample_hv ())) idle_virt sample_vars (no_watches (NewLibVirt (\<lambda>_. [])), [])
      [Iteration sample_domain] (s, tr)" "(0, ''vm'') \<in> w_live s"
    using sample_watch by auto
  with one_watch_per_domain [OF s(1) s(2) s(2)] show ?thesis by blast
qed

text \<open>
  C32. A watch that ended by itself (its sixty minutes were over, or its loop returned) leaves its entry in the table of
  jobs: once its context is done, and as long as libvirt has not reported the domain stopped or shut down since, the entry
  is still there, no watch runs for the domain, and no iteration event of it starts one. So a further migration
  of a domain that kept running is not followed.
\<close>

theorem watch_not_restarted:
  assumes "watch_steps K V sv (no_watches l, tr0) ls (s, tr)" and "(c, n) \<in> w_live s"
    and "watch_steps K V sv (s, tr) ls' (s', tr')" and "(c, n) \<notin> w_live s'"
    and "\<forall>lb \<in> set ls'. \<not> stops n lb"
  shows "map_of (lv_migrationJobs (w_lv s')) n = Some c \<and> (\<forall>c'. (c', n) \<notin> w_live s')
    \<and> (\<forall>d now ctx m. domain_Name d = n \<longrightarrow>
         fst (onMigrationIteration K sv now ctx (MigrationIterationMsg d m) (w_lv s') tr') = Ret NoEffect)"
proof -
  have "watch_inv (no_watches l)" by (simp add: watch_inv_def no_watches_def)
  from watch_steps_inv [OF assms(1) this] have "registered n c s" using watch_inv_registered assms(2) by blast
  from registered_steps [OF assms(3) this assms(5)] have r: "registered n c s'" .
  then have "map_of (lv_migrationJobs (w_lv s')) n = Some c \<and> (\<forall>c'. (c', n) \<notin> w_live s')"
    using assms(4) unfolding registered_def by blast
  then show ?thesis using registered_ignores [OF r] by blast
qed

text \<open>The sixty minutes of the watch are over, and its loop sees that and returns.\<close>

theorem watch_not_restarted_witness:
  "\<exists>s tr s' tr'. watch_steps (idle_k8s (sample_hv ())) idle_virt sample_vars (no_watches (NewLibVirt (\<lambda>_. [])), []) [Iteration sample_domain] (s, tr)
     \<and> watch_steps (idle_k8s (sample_hv ())) idle_virt sample_vars (s, tr) [Expired 0, Looped 0 CtxDone] (s', tr')
     \<and> w_loops s' = {} \<and> map_of (lv_migrationJobs (w_lv s')) ''vm'' = Some 0 \<and> (\<forall>c'. (c', ''vm'') \<notin> w_live s')"
proof -
  let ?K = "idle_k8s (sample_hv ())"
  obtain s tr where s: "watch_steps ?K idle_virt sample_vars (no_watches (NewLibVirt (\<lambda>_. [])), []) [Iteration sample_domain] (s, tr)"
      "(0, ''vm'') \<in> w_live s" "w_loops s = {(0, sample_domain)}"
    using sample_watch by auto
  let ?s1 = "s\<lparr>w_live := without 0 (w_live s)\<rparr>"
  let ?s2 = "?s1\<lparr>w_lv := w_lv s, w_live := without 0 (w_live ?s1), w_loops := without 0 (w_loops ?s1)\<rparr>"
  have "watch_step ?K idle_virt sample_vars (s, tr) (Expired 0) (?s1, tr)" by (rule watch_step.Expire)
  moreover have "watch_step ?K idle_virt sample_vars (?s1, tr) (Looped 0 CtxDone) (?s2, tr)"
    using s(3) by (intro watch_step.LoopReturn [of 0 sample_domain]) (auto simp: without_def)
  ultimately have steps: "watch_steps ?K idle_virt sample_vars (s, tr) [Expired 0, Looped 0 CtxDone] (?s2, tr)"
    using watch_steps.more [OF watch_steps.more [OF watch_steps.none]] by fastforce
  have gone: "(0, ''vm'') \<notin> w_live ?s2" "w_loops ?s2 = {}" using s(3) by (auto simp: without_def)
  have "\<forall>lb \<in> set [Expired 0, Looped 0 CtxDone]. \<not> stops ''vm'' lb" by (simp add: stops_def)
  from watch_not_restarted [OF s(1,2) steps gone(1) this] show ?thesis using s(1) steps gone(2) by blast
qed

text \<open>
  When libvirt no longer knows a job of the domain (it was reaped), the watch does not stop:
  as long as its context is not done it goes on for ever, since \<^verbatim>\<open>patchMigration\<close> never
  returns the error the loop tests for.
\<close>

lemma watch_outlives_reaped_job:
  assumes "foreign_migration_errors K" and "\<And>t c. v_GetJobStats V t d c = Inr (0, ps)"
  shows "\<exists>tr'. watchMigrationLoop K V sv d (replicate n (Tick False)) l tr = (None, l, tr')"
proof (induction n arbitrary: tr)
  case (Suc n)
  obtain r tr' where p: "patchMigration K V sv d False tr = (Ret r, tr')"
    using patchMigration_reaped [OF assms(2)] by metis
  show ?case
  proof (cases r)
    case None
    with p Suc show ?thesis by simp
  next
    case (Some err)
    with p have "\<not> errors_is err ErrDomainNotFound" using patchMigration_error [OF assms(1)] by blast
    with p Some Suc show ?thesis by simp
  qed
qed simp

lemma watch_outlives_reaped_job_example:
  "\<exists>tr'. watchMigrationLoop (idle_k8s (sample_hv ())) (stats_virt 0 []) sample_vars sample_domain
            (replicate 3600 (Tick False)) l [] = (None, l, tr')"
  using watch_outlives_reaped_job [of "idle_k8s (sample_hv ())" "stats_virt 0 []" sample_domain "[]" sample_vars 3600 l "[]"]
  by (simp add: foreign_migration_errors_def idle_k8s_def stats_virt_def)

text \<open>
  C33. While a migration is running, the watch on its source publishes the source as destination: every
  status it writes names this node, the one \<^verbatim>\<open>startMigrationWatch\<close> has entered as origin.
\<close>

theorem watch_names_source_as_destination:
  assumes "watchMigrationLoop K V sv d rounds l tr = (res, l', tr')"
  shows "\<exists>cs. tr' = tr @ cs \<and> (\<forall>m b. KPatchMigrationStatus m b \<in> set cs \<longrightarrow>
     mig_Destination (migration_Status m) = NodeLabelName sv \<and>
     mig_Origin (migration_Status m) = mig_Origin (migration_Status b))"
proof -
  have "extends_by (names_own_node sv) tr (snd (snd (watchMigrationLoop K V sv d rounds l tr)))"
  proof (induction K V sv d rounds l tr rule: watchMigrationLoop.induct)
    case (3 K V sv d ctxErr rs l tr)
    obtain x t where p: "patchMigration K V sv d False tr = (x, t)" by (metis prod.exhaust)
    then have "extends_by (names_own_node sv) tr t" using patchMigration_nodes by (metis snd_conv)
    with p 3 show ?case by (auto split: outcome.splits option.splits intro: extends_by_trans)
  qed simp_all
  then obtain cs where "tr' = tr @ cs" "list_all (names_own_node sv) cs" using assms by (auto simp: extends_by_def)
  then show ?thesis unfolding list_all_iff by (metis names_own_node.simps(1))
qed

theorem watch_names_source_as_destination_witness:
  "\<exists>l tr' m b. watchMigrationLoop (idle_k8s (sample_hv ())) (stats_virt 1 []) sample_vars sample_domain [Tick False] l [] = (None, l, tr')
     \<and> KPatchMigrationStatus m b \<in> set tr' \<and> mig_Destination (migration_Status m) = NodeLabelName sample_vars"
proof -
  obtain l tr' m b where run: "watchMigrationLoop (idle_k8s (sample_hv ())) (stats_virt 1 []) sample_vars sample_domain [Tick False] l [] = (None, l, tr')"
    and p: "KPatchMigrationStatus m b \<in> set tr'"
    by (simp add: patchMigration_def populateDomainJobInfo_def ext_def Let_def idle_k8s_def stats_virt_def)
  have "mig_Destination (migration_Status m) = NodeLabelName sample_vars"
    using watch_names_source_as_destination [OF run] p by auto
  then show ?thesis using run p by blast
qed

end
