(* ===== verification/SecretController.thy ===== *)
theory SecretController
  imports Interfaces Certificates
begin

text \<open>
  \<^verbatim>\<open>internal/controller/secret_controller.go\<close>: the controller that installs the TLS certificate
  of libvirt from a Kubernetes secret and remembers the resource version it installed.
  \<^verbatim>\<open>retry.RetryOnConflict\<close> of client-go is an argument \<open>R\<close>; what is relied on is \<open>retry_law\<close>, that
  it runs its function at least once, again only after an error, and returns the last result.
\<close>

section \<open>Definitions\<close>

type_synonym 'q action = "'q trace \<Rightarrow> goerr option \<times> 'q trace"

record 's SecretReconciler =
  sr_Systemd :: 's
  sr_lastResourceVersion :: string

definition sr_systemd :: "('s, 'q, 'r) go_method \<Rightarrow> ('s SecretReconciler, 'q, 'r) go_method" where
  "sr_systemd m r tr = (case m (sr_Systemd r) tr of (x, s, tr) \<Rightarrow> (x, r\<lparr>sr_Systemd := s\<rparr>, tr))"

definition sr_get :: "('s SecretReconciler, 'q, string) go_method" where
  "sr_get r tr = (Ret (sr_lastResourceVersion r), r, tr)"

definition sr_put :: "string \<Rightarrow> ('s SecretReconciler, 'q, unit) go_method" where
  "sr_put v r tr = (Ret (), r\<lparr>sr_lastResourceVersion := v\<rparr>, tr)"

definition tls_condition :: "string \<Rightarrow> string \<Rightarrow> string \<Rightarrow> Condition" where
  "tls_condition status reason message =
     \<lparr>cond_Type = ''TLSCertificateInstalled'', cond_Status = status, cond_Reason = reason, cond_Message = message\<rparr>"

definition set_tls_attempt :: "'q k8s \<Rightarrow> sys_vars \<Rightarrow> Condition \<Rightarrow> 'q action" where
  "set_tls_attempt K sv c tr =
     (case ext (KGetHypervisor [] (Hostname sv)) (\<lambda>t. k_GetHypervisor K t [] (Hostname sv)) tr of
        (Inl err, tr) \<Rightarrow> (Some err, tr)
      | (Inr base, tr) \<Rightarrow>
          (let hv = map_status (status_Conditions_update (\<lambda>cs. k_SetStatusCondition K cs c)) base
           in case ext (KPatchHypervisorStatus hv base) (\<lambda>t. k_PatchHypervisorStatus K t hv base) tr of
                (Inl err, tr) \<Rightarrow> (Some err, tr)
              | (Inr hv, tr) \<Rightarrow> (None, tr)))"

definition setTLSStatusCondition ::
    "('q action \<Rightarrow> 'q action) \<Rightarrow> 'q k8s \<Rightarrow> sys_vars \<Rightarrow> string \<Rightarrow> string \<Rightarrow> string \<Rightarrow> 'q action" where
  "setTLSStatusCondition R K sv status reason message = R (set_tls_attempt K sv (tls_condition status reason message))"

text \<open>Starting the update service, and libvirtd when that fails.\<close>

definition reload_tls ::
    "('q action \<Rightarrow> 'q action) \<Rightarrow> 'q k8s \<Rightarrow> ('s, 'q) systemd_Interface \<Rightarrow> sys_vars \<Rightarrow> ('s SecretReconciler, 'q, goerr option) go_method" where
  "reload_tls R K S sv =
     mbind (sr_systemd (sdi_StartUnit S ''virt-admin-server-update-tls.service'')) (\<lambda>started.
       case started of
         Inr n \<Rightarrow> mret None
       | Inl err \<Rightarrow>
           mbind (mtrace (setTLSStatusCondition R K sv ConditionFalse ''FailedToStartUpdateTLSService''
                    (''Failed to start virt-admin-server-update-tls service: '' @ error_text err))) (\<lambda>r.
             case r of
               Some e \<Rightarrow> mret (Some e)
             | None \<Rightarrow>
                 mbind (sr_systemd (sdi_StartUnit S ''libvirtd.service'')) (\<lambda>started.
                   case started of Inl e \<Rightarrow> mret (Some e) | Inr n \<Rightarrow> mret None)))"

text \<open>What follows a successful installation of the files; the mode of the version file is 0600 in octal.\<close>

definition finish_tls ::
    "('q action \<Rightarrow> 'q action) \<Rightarrow> 'q k8s \<Rightarrow> 'q os_env \<Rightarrow> ('s, 'q) systemd_Interface \<Rightarrow> sys_vars \<Rightarrow> string
     \<Rightarrow> ('s SecretReconciler, 'q, goerr option) go_method" where
  "finish_tls R K E S sv version =
     mbind (reload_tls R K S sv) (\<lambda>r.
       case r of
         Some err \<Rightarrow> mret (Some err)
       | None \<Rightarrow>
           (let path = filepath_Join (os_Getenv E ''PKI_PATH'') ''CA/.last_resource_version''
            in mbind (mext (OWriteFile path (map of_char version) 384) (\<lambda>t. o_WriteFile E t path (map of_char version))) (\<lambda>_.
                 mbind (sr_put version) (\<lambda>_.
                   mtrace (setTLSStatusCondition R K sv ConditionTrue ''Ready'' ''TLS certificate is ready and updated'')))))"

text \<open>The installation, once the condition says that it is under way.\<close>

definition install_tls ::
    "('q action \<Rightarrow> 'q action) \<Rightarrow> 'q k8s \<Rightarrow> 'q os_env \<Rightarrow> ('s, 'q) systemd_Interface \<Rightarrow> map_order \<Rightarrow> sys_vars \<Rightarrow> Secret
     \<Rightarrow> ('s SecretReconciler, 'q, goerr option) go_method" where
  "install_tls R K E S ord sv secret =
     mbind (mtrace (UpdateTLSCertificate E ord (os_Getenv E ''PKI_PATH'') (secret_Data secret))) (\<lambda>r.
       case r of
         Some err \<Rightarrow>
           mbind (mtrace (setTLSStatusCondition R K sv ConditionFalse ''FailedToUpdateTLSCertificate''
                    (''Failed to update TLS certificate: '' @ error_text err))) (\<lambda>r.
             case r of Some e \<Rightarrow> mret (Some e) | None \<Rightarrow> mret (Some err))
       | None \<Rightarrow> finish_tls R K E S sv (secret_ResourceVersion secret))"

definition secret_Reconcile ::
    "('q action \<Rightarrow> 'q action) \<Rightarrow> 'q k8s \<Rightarrow> 'q os_env \<Rightarrow> ('s, 'q) systemd_Interface \<Rightarrow> map_order \<Rightarrow> sys_vars
     \<Rightarrow> string \<times> string \<Rightarrow> ('s SecretReconciler, 'q, goerr option) go_method" where
  "secret_Reconcile R K E S ord sv req =
     (case req of (ns, name) \<Rightarrow>
       mbind (mext (KGetSecret ns name) (\<lambda>t. k_GetSecret K t ns name)) (\<lambda>got.
         case got of
           Inl err \<Rightarrow> mret (k_IgnoreNotFound K (Some err))
         | Inr secret \<Rightarrow>
             mbind (mext (KGetHypervisor [] (Hostname sv)) (\<lambda>t. k_GetHypervisor K t [] (Hostname sv))) (\<lambda>got.
               case got of
                 Inl err \<Rightarrow> mret (Some err)
               | Inr hv \<Rightarrow>
                   if \<not> spec_InstallCertificate (hv_Spec hv) then mret None
                   else mbind sr_get (\<lambda>last.
                     if secret_ResourceVersion secret = last
                     then mtrace (setTLSStatusCondition R K sv ConditionTrue ''Ready'' ''TLS certificate is ready and up to date'')
                     else mbind (mtrace (setTLSStatusCondition R K sv ConditionFalse ''Installing'' ''Installing TLS certificate from Secret'')) (\<lambda>r.
                       case r of
                         Some err \<Rightarrow> mret (Some err)
                       | None \<Rightarrow> install_tls R K E S ord sv secret)))))"

text \<open>
  \<^verbatim>\<open>SetupWithManager\<close>: the remembered version is read back, and the secrets that lead to a
  request.
\<close>

definition secret_Setup :: "(string \<Rightarrow> goerr + string) \<Rightarrow> 'q os_env \<Rightarrow> 's SecretReconciler \<Rightarrow> 's SecretReconciler" where
  "secret_Setup readFile E r =
     (case readFile (filepath_Join (os_Getenv E ''PKI_PATH'') ''CA/.last_resource_version'') of
        Inl err \<Rightarrow> r
      | Inr buf \<Rightarrow> r\<lparr>sr_lastResourceVersion := buf\<rparr>)"

definition secret_requests :: "sys_vars \<Rightarrow> string \<Rightarrow> string \<Rightarrow> (string \<times> string) list" where
  "secret_requests sv ns name =
     (let secretName = fst (GetSecretAndCertName (Hostname sv))
      in if name = secretName then [(ns, secretName)] else [])"

section \<open>Retrying\<close>

fun attempts :: "nat \<Rightarrow> 'q action \<Rightarrow> 'q action" where
  "attempts 0 f tr = f tr"
| "attempts (Suc n) f tr = (case f tr of (None, tr) \<Rightarrow> (None, tr) | (Some e, tr) \<Rightarrow> attempts n f tr)"

definition retry_law :: "('q action \<Rightarrow> 'q action) \<Rightarrow> bool" where
  "retry_law R \<longleftrightarrow> (\<forall>f tr. \<exists>n. R f tr = attempts n f tr)"

lemma attempts_extends:
  assumes "\<And>tr. extends_by P tr (snd (f tr))"
  shows "extends_by P tr (snd (attempts n f tr))"
proof (induction n arbitrary: tr)
  case (Suc n)
  obtain r tr1 where f: "f tr = (r, tr1)" by (cases "f tr") auto
  with assms [of tr] have "extends_by P tr tr1" by simp
  with f Suc [of tr1] show ?case by (cases r) (auto intro: extends_by_trans)
qed (simp add: assms)

fun is_condition_call :: "'q ext_call \<Rightarrow> bool" where
  "is_condition_call (KGetHypervisor ns n) = True"
| "is_condition_call (KPatchHypervisorStatus hv base) = True"
| "is_condition_call c = False"

lemma set_tls_extends:
  assumes "retry_law R"
  shows "extends_by is_condition_call tr (snd (setTLSStatusCondition R K sv status reason message tr))"
proof -
  obtain n where "setTLSStatusCondition R K sv status reason message tr
      = attempts n (set_tls_attempt K sv (tls_condition status reason message)) tr"
    using assms by (auto simp: retry_law_def setTLSStatusCondition_def)
  moreover have "extends_by is_condition_call t (snd (set_tls_attempt K sv c t))" for c t
    by (auto simp: set_tls_attempt_def ext_def Let_def extends_by_def split: sum.splits)
  ultimately show ?thesis by (simp add: attempts_extends)
qed

section \<open>The remembered version\<close>

text \<open>A method that keeps the remembered version.\<close>

definition keeps_version :: "('s SecretReconciler, 'q, 'r) go_method \<Rightarrow> bool" where
  "keeps_version m \<longleftrightarrow> (\<forall>r tr. sr_lastResourceVersion (fst (snd (m r tr))) = sr_lastResourceVersion r)"

lemma keeps_version_simps [simp]:
  "keeps_version (mret x)" "keeps_version (mext c resp)" "keeps_version (mtrace f)" "keeps_version (sr_systemd m)"
  by (simp_all add: keeps_version_def mret_def mext_def mtrace_def sr_systemd_def split_beta)

lemma keeps_version_mbind [intro]:
  assumes "keeps_version m" and "\<And>x. keeps_version (f x)"
  shows "keeps_version (mbind m f)"
  unfolding keeps_version_def
proof (intro allI)
  fix r tr
  obtain x r1 tr1 where m: "m r tr = (x, r1, tr1)" by (metis prod.exhaust)
  have "sr_lastResourceVersion r1 = sr_lastResourceVersion r"
    using assms(1) m unfolding keeps_version_def by (metis fst_conv snd_conv)
  with m assms(2) show "sr_lastResourceVersion (fst (snd (mbind m f r tr))) = sr_lastResourceVersion r"
    by (cases x) (auto simp: mbind_def keeps_version_def)
qed

lemma reload_tls_keeps_version: "keeps_version (reload_tls R K S sv)"
  unfolding reload_tls_def by (auto intro!: keeps_version_mbind split: sum.splits option.splits)

lemma finish_tls_version:
  assumes "finish_tls R K E S sv version r tr = (x, r', tr')"
  shows "sr_lastResourceVersion r' \<in> {version, sr_lastResourceVersion r}"
proof -
  obtain y r1 tr1 where m: "reload_tls R K S sv r tr = (y, r1, tr1)" by (metis prod.exhaust)
  have "sr_lastResourceVersion r1 = sr_lastResourceVersion r"
    using reload_tls_keeps_version m unfolding keeps_version_def by (metis fst_conv snd_conv)
  with m assms show ?thesis
    by (auto simp: finish_tls_def mbind_def mret_def mext_def sr_put_def mtrace_def Let_def
        split: outcome.splits option.splits prod.splits)
qed

text \<open>
  A reconciliation that starts at \<open>tr\<close> reads this secret, finds that the host wants certificates, and can set the condition that
  announces an installation, after which the calls are \<open>t\<close>.
\<close>

definition can_install ::
    "('q action \<Rightarrow> 'q action) \<Rightarrow> 'q k8s \<Rightarrow> sys_vars \<Rightarrow> string \<times> string \<Rightarrow> 'q trace \<Rightarrow> Secret \<Rightarrow> 'q trace \<Rightarrow> bool" where
  "can_install R K sv req tr secret t \<longleftrightarrow>
     (case req of (ns, name) \<Rightarrow>
        k_GetSecret K tr ns name = Inr secret \<and>
        (\<exists>hv. k_GetHypervisor K (tr @ [KGetSecret ns name]) [] (Hostname sv) = Inr hv \<and> spec_InstallCertificate (hv_Spec hv)) \<and>
        setTLSStatusCondition R K sv ConditionFalse ''Installing'' ''Installing TLS certificate from Secret''
          (tr @ [KGetSecret ns name, KGetHypervisor [] (Hostname sv)]) = (None, t))"

lemma secret_Reconcile_installs:
  assumes "can_install R K sv req tr secret t" and "secret_ResourceVersion secret \<noteq> sr_lastResourceVersion r"
  shows "secret_Reconcile R K E S ord sv req r tr = install_tls R K E S ord sv secret r t"
  using assms
  by (auto simp: can_install_def secret_Reconcile_def mbind_def mext_def sr_get_def mtrace_def)

lemma secret_Reconcile_otherwise:
  assumes "\<nexists>secret t. can_install R K sv req tr secret t \<and> secret_ResourceVersion secret \<noteq> sr_lastResourceVersion r"
  shows "fst (snd (secret_Reconcile R K E S ord sv req r tr)) = r"
proof -
  obtain ns name where req: "req = (ns, name)" by (metis prod.collapse)
  let ?c = "setTLSStatusCondition R K sv ConditionFalse ''Installing'' ''Installing TLS certificate from Secret''
    (tr @ [KGetSecret ns name, KGetHypervisor [] (Hostname sv)])"
  obtain e t where "?c = (e, t)" by (metis prod.collapse)
  then show ?thesis
    using assms req
    by (auto simp: can_install_def secret_Reconcile_def mbind_def mext_def sr_get_def mtrace_def mret_def
        split: sum.splits prod.splits option.splits)
qed

lemma install_tls_cases:
  "install_tls R K E S ord sv secret r t =
     (case UpdateTLSCertificate E ord (os_Getenv E ''PKI_PATH'') (secret_Data secret) t of
        (Some err, t') \<Rightarrow>
          (let (c, t4) = setTLSStatusCondition R K sv ConditionFalse ''FailedToUpdateTLSCertificate''
                 (''Failed to update TLS certificate: '' @ error_text err) t'
           in (Ret (Some (case c of Some e \<Rightarrow> e | None \<Rightarrow> err)), r, t4))
      | (None, t') \<Rightarrow> finish_tls R K E S sv (secret_ResourceVersion secret) r t')"
  by (auto simp: install_tls_def mbind_def mtrace_def mret_def split: prod.splits option.splits)

lemma install_tls_fails:
  assumes "UpdateTLSCertificate E ord (os_Getenv E ''PKI_PATH'') (secret_Data secret) t = (Some err, t')"
  shows "\<exists>e t4. install_tls R K E S ord sv secret r t = (Ret (Some e), r, t4)"
  using assms by (simp add: install_tls_cases split: prod.splits)

section \<open>Properties\<close>

text \<open>
  A secret whose resource version was installed before is not installed again: no file is
  written, no unit is started, and the controller's state does not change; only the condition is
  refreshed.
\<close>

lemma secret_not_reinstalled:
  assumes "retry_law R" and "k_GetSecret K tr ns name = Inr secret"
    and "secret_ResourceVersion secret = sr_lastResourceVersion r"
    and "secret_Reconcile R K E S ord sv (ns, name) r tr = (x, r', tr')"
  shows "r' = r \<and> extends_by (\<lambda>c. is_condition_call c \<or> c = KGetSecret ns name) tr tr'"
proof -
  let ?P = "\<lambda>c. is_condition_call c \<or> c = KGetSecret ns name"
  let ?t1 = "tr @ [KGetSecret ns name, KGetHypervisor [] (Hostname sv)]"
  have t1: "extends_by ?P tr ?t1" by (auto simp: extends_by_def)
  have c: "extends_by ?P ?t1 (snd (setTLSStatusCondition R K sv s a b ?t1))" for s a b
    using set_tls_extends [OF assms(1)] by (rule extends_by_mono) simp
  have "r' = r \<and> (tr' = ?t1 \<or> (\<exists>s a b. tr' = snd (setTLSStatusCondition R K sv s a b ?t1)))"
    using assms(2-4)
    by (auto simp: secret_Reconcile_def mbind_def mext_def sr_get_def mtrace_def mret_def
        split: sum.splits if_splits prod.splits) (metis snd_conv)
  with t1 c show ?thesis by (blast intro: extends_by_trans)
qed

definition tls_hv :: "unit Hypervisor" where
  "tls_hv = (sample_hv ())\<lparr>hv_Spec := sample_spec\<lparr>spec_InstallCertificate := True\<rparr>\<rparr>"

lemma retry_once: "retry_law (\<lambda>f. f)"
  unfolding retry_law_def by (metis attempts.simps(1))

text \<open>
  C39. The controller remembers another resource version only if this run read the secret of that version, came to install it, and
  the installation of its data succeeded in this run. After an installation that failed the run ends with an error
  and the controller is as before, so that the next reconciliation that reads the same version and comes as far, for a host
  that still wants certificates, installs it again.
\<close>

theorem secret_version_installed:
  assumes run: "secret_Reconcile R K E S ord sv req r tr = (x, r', tr')"
  shows "(sr_lastResourceVersion r' \<noteq> sr_lastResourceVersion r \<longrightarrow>
       (\<exists>secret t t'. can_install R K sv req tr secret t
          \<and> UpdateTLSCertificate E ord (os_Getenv E ''PKI_PATH'') (secret_Data secret) t = (None, t')
          \<and> finish_tls R K E S sv (secret_ResourceVersion secret) r t' = (x, r', tr')
          \<and> sr_lastResourceVersion r' = secret_ResourceVersion secret))
    \<and> (\<forall>secret t err t'. can_install R K sv req tr secret t \<and> secret_ResourceVersion secret \<noteq> sr_lastResourceVersion r
          \<and> UpdateTLSCertificate E ord (os_Getenv E ''PKI_PATH'') (secret_Data secret) t = (Some err, t') \<longrightarrow>
        (\<exists>e. x = Ret (Some e)) \<and> r' = r
        \<and> (\<forall>tr2 again t2. can_install R K sv req tr2 again t2 \<and> secret_ResourceVersion again = secret_ResourceVersion secret \<longrightarrow>
           secret_Reconcile R K E S ord sv req r' tr2 = install_tls R K E S ord sv again r' t2))"
proof (intro conjI impI allI)
  assume changed: "sr_lastResourceVersion r' \<noteq> sr_lastResourceVersion r"
  then obtain secret t where c: "can_install R K sv req tr secret t" "secret_ResourceVersion secret \<noteq> sr_lastResourceVersion r"
    using secret_Reconcile_otherwise [of R K sv req tr r E S ord] run by fastforce
  then have i: "install_tls R K E S ord sv secret r t = (x, r', tr')" using secret_Reconcile_installs run by metis
  obtain u t' where u: "UpdateTLSCertificate E ord (os_Getenv E ''PKI_PATH'') (secret_Data secret) t = (u, t')"
    by (metis prod.collapse)
  have "u = None"
  proof (rule ccontr)
    assume "u \<noteq> None"
    then obtain err where err: "u = Some err" by blast
    show False using install_tls_fails [OF u [unfolded err], of R K S sv r] i changed by auto
  qed
  then have f: "finish_tls R K E S sv (secret_ResourceVersion secret) r t' = (x, r', tr')"
    using i u by (simp add: install_tls_cases)
  then have "sr_lastResourceVersion r' = secret_ResourceVersion secret" using finish_tls_version [OF f] changed by simp
  then show "\<exists>secret t t'. can_install R K sv req tr secret t
      \<and> UpdateTLSCertificate E ord (os_Getenv E ''PKI_PATH'') (secret_Data secret) t = (None, t')
      \<and> finish_tls R K E S sv (secret_ResourceVersion secret) r t' = (x, r', tr')
      \<and> sr_lastResourceVersion r' = secret_ResourceVersion secret"
    using c u f \<open>u = None\<close> by blast
next
  fix secret t err t'
  assume a: "can_install R K sv req tr secret t \<and> secret_ResourceVersion secret \<noteq> sr_lastResourceVersion r
    \<and> UpdateTLSCertificate E ord (os_Getenv E ''PKI_PATH'') (secret_Data secret) t = (Some err, t')"
  then obtain e t4 where "install_tls R K E S ord sv secret r t = (Ret (Some e), r, t4)" using install_tls_fails by blast
  then have failed: "x = Ret (Some e) \<and> r' = r" using a run secret_Reconcile_installs by (metis prod.inject)
  then show "\<exists>e. x = Ret (Some e)" and "r' = r" by blast+
  fix tr2 again t2
  assume "can_install R K sv req tr2 again t2 \<and> secret_ResourceVersion again = secret_ResourceVersion secret"
  then show "secret_Reconcile R K E S ord sv req r' tr2 = install_tls R K E S ord sv again r' t2"
    using a failed secret_Reconcile_installs by metis
qed

text \<open>The same secret read by two controllers: on a file system that works, and on one that refuses to write.\<close>

definition secret_k8s :: "unit k8s" where
  "secret_k8s = (idle_k8s tls_hv)\<lparr>k_GetSecret := \<lambda>t ns n. Inr \<lparr>secret_Name = n, secret_ResourceVersion = ''2'', secret_Data = \<lambda>k. Some [1]\<rparr>\<rparr>"

definition full_disk :: "unit os_env" where
  "full_disk = idle_os\<lparr>o_WriteFile := \<lambda>t p d. Some empty_err\<rparr>"

definition secret_run :: "unit os_env \<Rightarrow> goerr option outcome \<times> SystemdConn SecretReconciler \<times> unit trace" where
  "secret_run E = secret_Reconcile (\<lambda>f. f) secret_k8s E (systemd_conn idle_dbus (\<lambda>_. Inl empty_err)) id
     \<lparr>Hostname = ''h'', NodeLabelName = ''h'', Namespace = ''ns''\<rparr> (''ns'', ''s'')
     \<lparr>sr_Systemd = fresh_conn, sr_lastResourceVersion = ''1''\<rparr> []"

abbreviation secret_vars :: sys_vars where
  "secret_vars \<equiv> \<lparr>Hostname = ''h'', NodeLabelName = ''h'', Namespace = ''ns''\<rparr>"

lemma secret_run_cases:
  "sr_lastResourceVersion (fst (snd (secret_run idle_os))) = ''2''"
  "\<exists>t. can_install (\<lambda>f. f) secret_k8s secret_vars (''ns'', ''s'') []
     \<lparr>secret_Name = ''s'', secret_ResourceVersion = ''2'', secret_Data = \<lambda>k. Some [1]\<rparr> t"
  "\<exists>err t'. UpdateTLSCertificate full_disk id p (\<lambda>k. Some [1]) t = (Some err, t')"
proof -
  let ?secret = "\<lparr>secret_Name = ''s'', secret_ResourceVersion = ''2'', secret_Data = \<lambda>k. Some [1]\<rparr>"
  note up = UpdateTLSCertificate_def secretToFileMap_def symLinkMap_def pairs_def write_one_def link_one_def
    create_link_def ext_def idle_os_def Let_def
  show can: "\<exists>t. can_install (\<lambda>f. f) secret_k8s secret_vars (''ns'', ''s'') [] ?secret t"
    by (simp add: can_install_def secret_k8s_def idle_k8s_def tls_hv_def sample_spec_def setTLSStatusCondition_def
        set_tls_attempt_def ext_def Let_def)
  show "\<exists>err t'. UpdateTLSCertificate full_disk id p (\<lambda>k. Some [1]) t = (Some err, t')" by (simp add: up full_disk_def)
  obtain t where t: "can_install (\<lambda>f. f) secret_k8s secret_vars (''ns'', ''s'') [] ?secret t" using can by blast
  have "\<exists>t'. UpdateTLSCertificate (idle_os :: unit os_env) id p (\<lambda>k. Some [1]) t = (None, t')" for p by (simp add: up)
  then obtain t' where t': "UpdateTLSCertificate (idle_os :: unit os_env) id (os_Getenv (idle_os :: unit os_env) ''PKI_PATH'')
      (\<lambda>k. Some [1]) t = (None, t')" by blast
  have "secret_run idle_os = finish_tls (\<lambda>f. f) secret_k8s idle_os (systemd_conn idle_dbus (\<lambda>_. Inl empty_err)) secret_vars ''2''
      \<lparr>sr_Systemd = fresh_conn, sr_lastResourceVersion = ''1''\<rparr> t'"
    unfolding secret_run_def using t' by (subst secret_Reconcile_installs [OF t]) (simp_all add: install_tls_cases)
  then show "sr_lastResourceVersion (fst (snd (secret_run idle_os))) = ''2''"
    by (simp add: secret_k8s_def idle_k8s_def Let_def setTLSStatusCondition_def set_tls_attempt_def ext_def
         finish_tls_def reload_tls_def mbind_def sr_systemd_def systemd_conn_def mtrace_def StartUnit_def idle_dbus_def
         mret_def mext_def sr_put_def split: prod.splits option.splits)
qed

theorem secret_version_installed_witness:
  "(\<exists>x r' tr' t t'. secret_run idle_os = (x, r', tr') \<and> sr_lastResourceVersion r' = ''2''
      \<and> UpdateTLSCertificate idle_os id (os_Getenv (idle_os :: unit os_env) ''PKI_PATH'') (\<lambda>k. Some [1]) t = (None, t' :: unit trace))
   \<and> (\<exists>e r' tr'. secret_run full_disk = (Ret (Some e), r', tr') \<and> sr_lastResourceVersion r' = ''1'')"
proof
  let ?secret = "\<lparr>secret_Name = ''s'', secret_ResourceVersion = ''2'', secret_Data = \<lambda>k. Some [1]\<rparr>"
  obtain x r' tr' where run: "secret_run idle_os = (x, r', tr')" by (metis prod.exhaust)
  have two: "sr_lastResourceVersion r' = ''2''" using secret_run_cases(1) run by simp
  have "sr_lastResourceVersion r' \<noteq> sr_lastResourceVersion \<lparr>sr_Systemd = fresh_conn, sr_lastResourceVersion = ''1''\<rparr>"
    using two by simp
  then obtain secret t t' where s: "can_install (\<lambda>f. f) secret_k8s secret_vars (''ns'', ''s'') [] secret t"
      "UpdateTLSCertificate idle_os id (os_Getenv (idle_os :: unit os_env) ''PKI_PATH'') (secret_Data secret) t = (None, t')"
    using secret_version_installed [OF run [unfolded secret_run_def]] by blast
  then have "secret = ?secret" by (simp add: can_install_def secret_k8s_def)
  then show "\<exists>x r' tr' t t'. secret_run idle_os = (x, r', tr') \<and> sr_lastResourceVersion r' = ''2''
      \<and> UpdateTLSCertificate idle_os id (os_Getenv (idle_os :: unit os_env) ''PKI_PATH'') (\<lambda>k. Some [1]) t = (None, t' :: unit trace)"
    using run two s(2) by auto
next
  obtain x r' tr' where run: "secret_run full_disk = (x, r', tr')" by (metis prod.exhaust)
  obtain t where t: "can_install (\<lambda>f. f) secret_k8s secret_vars (''ns'', ''s'') []
      \<lparr>secret_Name = ''s'', secret_ResourceVersion = ''2'', secret_Data = \<lambda>k. Some [1]\<rparr> t" using secret_run_cases(2) by blast
  obtain err t' where u: "UpdateTLSCertificate full_disk id (os_Getenv full_disk ''PKI_PATH'') (\<lambda>k. Some [1]) t = (Some err, t')"
    using secret_run_cases(3) by blast
  show "\<exists>e r' tr'. secret_run full_disk = (Ret (Some e), r', tr') \<and> sr_lastResourceVersion r' = ''1''"
    using secret_version_installed [OF run [unfolded secret_run_def]] t u run by fastforce
qed

end
