(* ===== verification/Eviction.thy ===== *)
theory Eviction
  imports World
begin

text \<open>
  \<^verbatim>\<open>internal/evacuation/eviction.go\<close>: the callback run when the host is about to shut down. It
  creates an \<^verbatim>\<open>Eviction\<close> object for this host and polls it every ten seconds until it succeeded. The
  polling loop has no bound of its own, so it is modelled with fuel, \<open>None\<close> meaning that it is still
  polling; the error of the context is an arbitrary function of the trace.
\<close>

section \<open>Definitions\<close>

fun evict_poll ::
    "'q k8s \<Rightarrow> ('q trace \<Rightarrow> goerr option) \<Rightarrow> string \<Rightarrow> string \<Rightarrow> nat \<Rightarrow> 'q trace \<Rightarrow> goerr option option \<times> 'q trace" where
  "evict_poll K ctxErr ns name 0 tr = (None, tr)"
| "evict_poll K ctxErr ns name (Suc n) tr =
     (case ctxErr tr of
        Some err \<Rightarrow> (Some (Some err), tr)
      | None \<Rightarrow>
          (case ext (KGetEviction ns name) (\<lambda>t. k_GetEvictionState K t ns name) tr of
             (Inl err, tr) \<Rightarrow> (Some (Some err), tr)
           | (Inr (Inl err), tr) \<Rightarrow> (Some (Some err), tr)
           | (Inr (Inr state), tr) \<Rightarrow>
               if state = ''Succeeded'' then (Some None, tr)
               else evict_poll K ctxErr ns name n (snd (ext (OSleep 10) (\<lambda>_. ()) tr))))"

definition eviction_for :: "sys_vars \<Rightarrow> 'q Hypervisor \<Rightarrow> Eviction" where
  "eviction_for sv hv =
     \<lparr>ev_Name = Hostname sv, ev_Namespace = Namespace sv, ev_APIVersion = ''kvm.cloud.sap/v1'', ev_Kind = ''Eviction'',
      ev_Hypervisor = Hostname sv, ev_Reason = ''kvm-node-agent: emergency evacuation due to host reboot'',
      ev_Owners = [\<lparr>owner_APIVersion = hv_APIVersion hv, owner_Kind = hv_Kind hv, owner_Name = hv_Name hv, owner_UID = hv_UID hv\<rparr>]\<rparr>"

definition EvictCurrentHost ::
    "'q k8s \<Rightarrow> sys_vars \<Rightarrow> ('q trace \<Rightarrow> goerr option) \<Rightarrow> nat \<Rightarrow> 'q trace \<Rightarrow> goerr option option \<times> 'q trace" where
  "EvictCurrentHost K sv ctxErr fuel tr =
     (case ext (KGetHypervisor (Namespace sv) (Hostname sv)) (\<lambda>t. k_GetHypervisor K t (Namespace sv) (Hostname sv)) tr of
        (Inl err, tr) \<Rightarrow> (Some (Some (Wrapped ''could not get hypervisor: '' err [])), tr)
      | (Inr hv, tr) \<Rightarrow>
          if status_NumInstances (hv_Status hv) = 0 then (Some None, tr)
          else (let u = eviction_for sv hv in
                case ext (KCreateEviction u) (\<lambda>t. k_CreateEviction K t u) tr of
                  (r, tr) \<Rightarrow>
                    if k_IgnoreAlreadyExists K r \<noteq> None then (Some r, tr)
                    else evict_poll K ctxErr (Namespace sv) (Hostname sv) fuel tr))"

section \<open>Polling\<close>

definition polls :: "string \<Rightarrow> string \<Rightarrow> nat \<Rightarrow> 'q trace \<Rightarrow> 'q trace" where
  "polls ns name n tr = tr @ concat (replicate n [KGetEviction ns name, OSleep 10])"

lemma polls_0 [simp]: "polls ns name 0 tr = tr"
  by (simp add: polls_def)

lemma polls_Suc: "polls ns name (Suc n) tr = polls ns name n (tr @ [KGetEviction ns name, OSleep 10])"
  by (simp add: polls_def)

text \<open>The loop ends with the first round that has an error or finds the eviction succeeded.\<close>

definition pending :: "'q k8s \<Rightarrow> ('q trace \<Rightarrow> goerr option) \<Rightarrow> string \<Rightarrow> string \<Rightarrow> 'q trace \<Rightarrow> bool" where
  "pending K ctxErr ns name tr \<longleftrightarrow> ctxErr tr = None \<and>
     (\<exists>state. k_GetEvictionState K tr ns name = Inr (Inr state) \<and> state \<noteq> ''Succeeded'')"

lemma evict_poll_pending:
  assumes "\<And>i. i < n \<Longrightarrow> pending K ctxErr ns name (polls ns name i tr)"
  shows "evict_poll K ctxErr ns name (n + m) tr = evict_poll K ctxErr ns name m (polls ns name n tr)"
  using assms
proof (induction n arbitrary: tr)
  case (Suc n)
  have p: "pending K ctxErr ns name tr" using Suc.prems [of 0] by simp
  have "evict_poll K ctxErr ns name (n + m) (tr @ [KGetEviction ns name, OSleep 10])
      = evict_poll K ctxErr ns name m (polls ns name n (tr @ [KGetEviction ns name, OSleep 10]))"
  proof (rule Suc.IH)
    fix i assume "i < n"
    then show "pending K ctxErr ns name (polls ns name i (tr @ [KGetEviction ns name, OSleep 10]))"
      using Suc.prems [of "Suc i"] by (simp add: polls_Suc)
  qed
  with p show ?case by (auto simp: pending_def ext_def polls_Suc)
qed simp

lemma evict_poll_success:
  "evict_poll K ctxErr ns name n tr = (Some None, tr') \<Longrightarrow>
   \<exists>t. tr' = t @ [KGetEviction ns name] \<and> k_GetEvictionState K t ns name = Inr (Inr ''Succeeded'')
       \<and> (\<exists>cs. t = tr @ cs)"
proof (induction n arbitrary: tr)
  case (Suc n)
  then show ?case
    by (auto simp: ext_def split: option.splits sum.splits if_splits dest!: Suc.IH)
qed simp

section \<open>Properties\<close>

text \<open>
  C36. The shutdown callback reports success only when the host had no instances, or after the API
  server reported the eviction object of this host as succeeded.
\<close>

theorem EvictCurrentHost_success:
  assumes "EvictCurrentHost K sv ctxErr fuel tr = (Some None, tr')"
    and "\<And>r. k_IgnoreAlreadyExists K r \<noteq> None \<Longrightarrow> r \<noteq> None"
  shows "(\<exists>hv. k_GetHypervisor K tr (Namespace sv) (Hostname sv) = Inr hv \<and> status_NumInstances (hv_Status hv) = 0)
       \<or> (\<exists>t hv. k_GetHypervisor K tr (Namespace sv) (Hostname sv) = Inr hv
            \<and> tr' = t @ [KGetEviction (Namespace sv) (Hostname sv)]
            \<and> k_GetEvictionState K t (Namespace sv) (Hostname sv) = Inr (Inr ''Succeeded'')
            \<and> KCreateEviction (eviction_for sv hv) \<in> set t)"
proof (cases "k_GetHypervisor K tr (Namespace sv) (Hostname sv)")
  case (Inl err)
  then show ?thesis using assms(1) by (simp add: EvictCurrentHost_def ext_def)
next
  case (Inr hv)
  show ?thesis
  proof (cases "status_NumInstances (hv_Status hv) = 0")
    case False
    let ?tr = "tr @ [KGetHypervisor (Namespace sv) (Hostname sv), KCreateEviction (eviction_for sv hv)]"
    have "evict_poll K ctxErr (Namespace sv) (Hostname sv) fuel ?tr = (Some None, tr')"
      using assms Inr False by (auto simp: EvictCurrentHost_def ext_def Let_def split: if_splits)
    from evict_poll_success [OF this] obtain t cs where
      t: "tr' = t @ [KGetEviction (Namespace sv) (Hostname sv)]"
        "k_GetEvictionState K t (Namespace sv) (Hostname sv) = Inr (Inr ''Succeeded'')" "t = ?tr @ cs" by blast
    have "KCreateEviction (eviction_for sv hv) \<in> set t" unfolding t(3) by simp
    with t(1,2) Inr show ?thesis by blast
  qed (use Inr in auto)
qed

definition busy_hv :: "unit Hypervisor" where
  "busy_hv = (sample_hv ())\<lparr>hv_Status := (sample_status ())\<lparr>status_NumInstances := 2\<rparr>\<rparr>"

definition evict_vars :: sys_vars where
  "evict_vars = \<lparr>Hostname = ''node1'', NodeLabelName = ''node1'', Namespace = ''ns''\<rparr>"

definition already_k8s :: "unit k8s" where
  "already_k8s = (idle_k8s busy_hv)\<lparr>k_GetEvictionState := \<lambda>t ns n. Inr (Inr (if length t < 6 then ''Running'' else ''Succeeded''))\<rparr>"

theorem EvictCurrentHost_success_witness:
  "\<exists>tr'. EvictCurrentHost already_k8s evict_vars (\<lambda>_. None) 5 [] = (Some None, tr')
     \<and> (\<exists>t. tr' = t @ [KGetEviction ''ns'' ''node1''] \<and> KCreateEviction (eviction_for evict_vars busy_hv) \<in> set t)"
proof -
  obtain tr' where eq: "EvictCurrentHost already_k8s evict_vars (\<lambda>_. None) 5 [] = (Some None, tr')"
    by (simp add: EvictCurrentHost_def already_k8s_def idle_k8s_def busy_hv_def sample_hv_def evict_vars_def ext_def
        Let_def eval_nat_numeral)
  have ign: "k_IgnoreAlreadyExists already_k8s r \<noteq> None \<Longrightarrow> r \<noteq> None" for r
    by (simp add: already_k8s_def idle_k8s_def)
  from EvictCurrentHost_success [OF eq ign] eq show ?thesis
    by (auto simp: already_k8s_def idle_k8s_def busy_hv_def sample_hv_def evict_vars_def)
qed

text \<open>
  C37. The callback terminates as soon as the eviction succeeds: if it is pending for \<open>n\<close> polls and
  succeeded at the next one, then any fuel above \<open>n\<close> ends the loop with success, after the creation
  of the object, \<open>n\<close> pauses of ten seconds and \<open>n + 1\<close> polls. While it stays pending the callback
  never returns.
\<close>

theorem EvictCurrentHost_terminates:
  assumes hv: "k_GetHypervisor K tr (Namespace sv) (Hostname sv) = Inr hv" and "status_NumInstances (hv_Status hv) \<noteq> 0"
    and created: "\<And>t u. k_IgnoreAlreadyExists K (k_CreateEviction K t u) = None"
    and tr1: "tr1 = tr @ [KGetHypervisor (Namespace sv) (Hostname sv), KCreateEviction (eviction_for sv hv)]"
    and pend: "\<And>i. i < n \<Longrightarrow> pending K ctxErr (Namespace sv) (Hostname sv) (polls (Namespace sv) (Hostname sv) i tr1)"
    and "ctxErr (polls (Namespace sv) (Hostname sv) n tr1) = None"
    and "k_GetEvictionState K (polls (Namespace sv) (Hostname sv) n tr1) (Namespace sv) (Hostname sv) = Inr (Inr ''Succeeded'')"
  shows "EvictCurrentHost K sv ctxErr (Suc n + m) tr
           = (Some None, polls (Namespace sv) (Hostname sv) n tr1 @ [KGetEviction (Namespace sv) (Hostname sv)])
       \<and> EvictCurrentHost K sv ctxErr n tr = (None, polls (Namespace sv) (Hostname sv) n tr1)"
proof -
  have run: "EvictCurrentHost K sv ctxErr fuel tr = evict_poll K ctxErr (Namespace sv) (Hostname sv) fuel tr1" for fuel
    using assms(1-4) by (simp add: EvictCurrentHost_def ext_def Let_def)
  have poll: "evict_poll K ctxErr (Namespace sv) (Hostname sv) (n + k) tr1
      = evict_poll K ctxErr (Namespace sv) (Hostname sv) k (polls (Namespace sv) (Hostname sv) n tr1)" for k
    by (rule evict_poll_pending [OF pend])
  from poll [of "Suc m"] poll [of 0] assms(6,7) show ?thesis unfolding run by (simp add: ext_def)
qed

theorem EvictCurrentHost_terminates_witness:
  "\<exists>tr'. EvictCurrentHost already_k8s evict_vars (\<lambda>_. None) 3 [] = (Some None, tr')
       \<and> EvictCurrentHost already_k8s evict_vars (\<lambda>_. None) 2 [] = (None, butlast tr')"
proof -
  have "pending already_k8s (\<lambda>_. None) ''ns'' ''node1'' (polls ''ns'' ''node1'' i
      [KGetHypervisor ''ns'' ''node1'', KCreateEviction (eviction_for evict_vars busy_hv)])" if "i < 2" for i
    using that by (cases i) (auto simp: pending_def polls_def already_k8s_def idle_k8s_def less_Suc_eq numeral_2_eq_2)
  then show ?thesis
    using EvictCurrentHost_terminates [of already_k8s "[]" evict_vars busy_hv
        "[KGetHypervisor ''ns'' ''node1'', KCreateEviction (eviction_for evict_vars busy_hv)]" 2 "\<lambda>_. None" 0]
    by (simp add: already_k8s_def idle_k8s_def busy_hv_def evict_vars_def polls_def numeral_2_eq_2 numeral_3_eq_3 butlast_append)
qed

end
