(* ===== verification/NodeAgent.thy ===== *)
theory NodeAgent
  imports ControllerFaults Migration SecretController Eviction
begin

text \<open>
  The program itself, \<^verbatim>\<open>cmd/main.go\<close>: the scheme of the API types, the options of the manager, the
  choice between the real and the emulated connections, and the start of the two controllers; with it
  \<^verbatim>\<open>api/v1alpha1/groupversion_info.go\<close>, which registers the type \<^verbatim>\<open>Migration\<close>. Flags are given
  parsed; what the manager answers is an argument.
\<close>

section \<open>The scheme\<close>

text \<open>A scheme knows kinds by group, version and name.\<close>

type_synonym GroupVersionKind = "string \<times> string \<times> string"
type_synonym scheme = "GroupVersionKind list"

definition GroupVersion :: "string \<times> string" where
  "GroupVersion = (''kvm.cloud.sap'', ''v1alpha1'')"

definition AddKnownTypes :: "string \<times> string \<Rightarrow> string list \<Rightarrow> scheme \<Rightarrow> scheme" where
  "AddKnownTypes gv kinds s = s @ map (\<lambda>k. (fst gv, snd gv, k)) kinds"

text \<open>\<open>metaKinds\<close> are the common kinds that apimachinery's \<^verbatim>\<open>AddToGroupVersion\<close> adds to every group.\<close>

definition addKnownTypes :: "string list \<Rightarrow> scheme \<Rightarrow> scheme" where
  "addKnownTypes metaKinds s =
     AddKnownTypes GroupVersion metaKinds (AddKnownTypes GroupVersion [''Migration'', ''MigrationList''] s)"

text \<open>The three libraries whose types \<^verbatim>\<open>init\<close> registers, each as a function that may fail.\<close>

record scheme_builders =
  clientgoscheme_AddToScheme :: "scheme \<Rightarrow> goerr + scheme"
  kvmv1_AddToScheme :: "scheme \<Rightarrow> goerr + scheme"
  certmanagerv1_AddToScheme :: "scheme \<Rightarrow> goerr + scheme"

definition utilruntime_Must :: "goerr + 'a \<Rightarrow> 'a outcome" where
  "utilruntime_Must r = (case r of Inl err \<Rightarrow> Panic (error_text err) | Inr x \<Rightarrow> Ret x)"

definition init_scheme :: "scheme_builders \<Rightarrow> scheme outcome" where
  "init_scheme B =
     outcome_bind (utilruntime_Must (clientgoscheme_AddToScheme B [])) (\<lambda>s.
       outcome_bind (utilruntime_Must (kvmv1_AddToScheme B s)) (\<lambda>s.
         utilruntime_Must (certmanagerv1_AddToScheme B s)))"

section \<open>Flags and the manager\<close>

record main_flags =
  metricsAddr :: string
  enableLeaderElection :: bool
  probeAddr :: string
  secureMetrics :: bool
  enableHTTP2 :: bool
  versionFlag :: bool

definition default_flags :: main_flags where
  "default_flags = \<lparr>metricsAddr = ''0'', enableLeaderElection = False, probeAddr = '':8081'', secureMetrics = True,
     enableHTTP2 = False, versionFlag = False\<rparr>"

text \<open>A TLS configuration: the protocols it offers.\<close>

definition disableHTTP2 :: "string list \<Rightarrow> string list" where
  "disableHTTP2 nextProtos = [''http/1.1'']"

definition tlsOpts :: "main_flags \<Rightarrow> (string list \<Rightarrow> string list) list" where
  "tlsOpts fl = (if \<not> enableHTTP2 fl then [disableHTTP2] else [])"

record manager_options =
  opt_scheme :: scheme
  opt_BindAddress :: string
  opt_SecureServing :: bool
  opt_TLSOpts :: "(string list \<Rightarrow> string list) list" \<comment> \<open>for the metrics and for the webhook server\<close>
  opt_HealthProbeBindAddress :: string
  opt_LeaderElection :: bool
  opt_LeaderElectionID :: string
  opt_ByObject :: "(string \<times> string) list" \<comment> \<open>the cached kinds with the name they are restricted to\<close>

definition manager_options_of :: "main_flags \<Rightarrow> sys_vars \<Rightarrow> scheme \<Rightarrow> manager_options" where
  "manager_options_of fl sv s =
     (let secretName = fst (GetSecretAndCertName (Hostname sv)) in
      \<lparr>opt_scheme = s, opt_BindAddress = metricsAddr fl, opt_SecureServing = secureMetrics fl, opt_TLSOpts = tlsOpts fl,
       opt_HealthProbeBindAddress = probeAddr fl, opt_LeaderElection = enableLeaderElection fl,
       opt_LeaderElectionID = ''71df68e8.cloud.sap'',
       opt_ByObject = [(''Node'', Hostname sv), (''Hypervisor'', Hostname sv), (''Secret'', secretName)]\<rparr>)"

text \<open>What the manager answers to the calls of \<^verbatim>\<open>main\<close> and of the two set-up functions.\<close>

record manager_results =
  mgr_New :: "goerr option"
  mgr_Add :: "goerr option"
  mgr_HypervisorBuilt :: "goerr option"
  mgr_SecretBuilt :: "goerr option"
  mgr_Healthz :: "goerr option"
  mgr_Readyz :: "goerr option"
  mgr_Start :: "goerr option"

section \<open>main\<close>

text \<open>The process ends with an exit code; \<^verbatim>\<open>main\<close> returning is code 0.\<close>

definition zero_reconciler :: "'s \<Rightarrow> 'l \<Rightarrow> ('s, 'l) HypervisorReconciler" where
  "zero_reconciler s l =
     \<lparr>hr_Systemd = s, hr_Libvirt = l, hr_osDescriptor = None, hr_kernelParameters = None, hr_evacuateOnReboot = False\<rparr>"

text \<open>
  From the second controller to the end: it reads the version of the secret that was installed last, which
  is the second component of the result.
\<close>

definition start_manager :: "(string \<Rightarrow> goerr + string) \<Rightarrow> 'q os_env \<Rightarrow> manager_results \<Rightarrow> ('a, 'q, nat \<times> string) go_method" where
  "start_manager readFile E M =
     (let last = sr_lastResourceVersion (secret_Setup readFile E \<lparr>sr_Systemd = (), sr_lastResourceVersion = []\<rparr>)
      in if mgr_SecretBuilt M \<noteq> None then mret (1, last)
         else if mgr_Healthz M \<noteq> None then mret (1, last)
         else if mgr_Readyz M \<noteq> None then mret (1, last)
         else if mgr_Start M \<noteq> None then mret (1, last)
         else mret (0, last))"

definition run_controllers ::
    "('s, 'q) systemd_Interface \<Rightarrow> (string \<Rightarrow> goerr + string) \<Rightarrow> 'q os_env \<Rightarrow> manager_results
     \<Rightarrow> ('s, 'l, 'q, nat \<times> string) reconciler_method" where
  "run_controllers S readFile E M =
     mbind (SetupWithManager S readFile None (mgr_Add M) (mgr_HypervisorBuilt M)) (\<lambda>r.
       case r of Some err \<Rightarrow> mret (1, []) | None \<Rightarrow> start_manager readFile E M)"

text \<open>
  The two modes have different objects behind the interfaces, so the result is the exit code (with the
  version) and the trace only. \<open>conn\<close> and \<open>dial\<close> are the errors of the two D-Bus connections of
  \<^verbatim>\<open>NewSystemd\<close>.
\<close>

definition exit_of :: "('s, 'q, 'r) go_method \<Rightarrow> 's \<Rightarrow> 'q trace \<Rightarrow> 'r outcome \<times> 'q trace" where
  "exit_of m s tr = (case m s tr of (r, s, tr) \<Rightarrow> (r, tr))"

definition no_systemd_calls :: "'q systemd_calls" where
  "no_systemd_calls =
     \<lparr>calls_Close = [], calls_IsConnected = [], calls_ListUnitsByNames = [], calls_GetUnitByName = [],
      calls_StartUnit = [], calls_ReloadUnit = [], calls_ReconcileSysUpdate = [], calls_EnableShutdownInhibit = [],
      calls_DisableShutdownInhibit = [], calls_Describe = []\<rparr>"

definition no_libvirt_calls :: "'q libvirt_calls" where
  "no_libvirt_calls = \<lparr>lvcalls_Close = [], lvcalls_Connect = [], lvcalls_WatchDomainChanges = [], lvcalls_Process = []\<rparr>"

definition emulated_reconciler :: "('q systemd_calls, 'q libvirt_calls) HypervisorReconciler" where
  "emulated_reconciler = zero_reconciler no_systemd_calls no_libvirt_calls"

definition main ::
    "main_flags \<Rightarrow> (string \<Rightarrow> goerr + string) \<Rightarrow> 'q os_env \<Rightarrow> manager_results
     \<Rightarrow> 'q dbus \<Rightarrow> json_reader \<Rightarrow> goerr option \<Rightarrow> goerr option \<Rightarrow> 'q trace \<Rightarrow> (nat \<times> string) outcome \<times> 'q trace" where
  "main fl readFile E M D un conn dial tr =
     (if versionFlag fl then (Ret (0, []), tr)
      else if mgr_New M \<noteq> None then (Ret (1, []), tr)
      else if os_Getenv E ''EMULATE'' \<noteq> [] then
        exit_of (run_controllers (systemd_mock NewSystemdEmulator) readFile E M) emulated_reconciler tr
      else (case NewSystemd None conn dial of
              (Inl err, _) \<Rightarrow> (Ret (1, []), tr)
            | (Inr s, _) \<Rightarrow>
                exit_of (run_controllers (systemd_conn D un) readFile E M) (zero_reconciler s (NewLibVirt (os_Getenv E))) tr))"

section \<open>Migrations\<close>

definition MigrationKind :: GroupVersionKind where
  "MigrationKind = (''kvm.cloud.sap'', ''v1alpha1'', ''Migration'')"

lemma addKnownTypes_Migration: "MigrationKind \<in> set (addKnownTypes mk s)"
  by (simp add: addKnownTypes_def AddKnownTypes_def GroupVersion_def MigrationKind_def)

text \<open>The libraries register their own types, and the client refuses an object whose kind its scheme does not know.\<close>

definition foreign_builder :: "(scheme \<Rightarrow> goerr + scheme) \<Rightarrow> bool" where
  "foreign_builder f \<longleftrightarrow> (\<forall>s s'. f s = Inr s' \<longrightarrow> MigrationKind \<in> set s' \<longrightarrow> MigrationKind \<in> set s)"

definition foreign_builders :: "scheme_builders \<Rightarrow> bool" where
  "foreign_builders B \<longleftrightarrow> foreign_builder (clientgoscheme_AddToScheme B) \<and> foreign_builder (kvmv1_AddToScheme B) \<and>
     foreign_builder (certmanagerv1_AddToScheme B)"

definition scheme_client :: "scheme \<Rightarrow> 'q k8s \<Rightarrow> bool" where
  "scheme_client s K \<longleftrightarrow> (MigrationKind \<notin> set s \<longrightarrow>
     (\<forall>t ns n. \<exists>e. k_CreateMigration K t ns n = Some e \<and> k_IgnoreAlreadyExists K (Some e) = Some e))"

lemma utilruntime_Must_Ret: "utilruntime_Must r = Ret x \<longleftrightarrow> r = Inr x"
  by (simp add: utilruntime_Must_def split: sum.splits)

lemma init_scheme_foreign:
  assumes "init_scheme B = Ret s" and "foreign_builders B"
  shows "MigrationKind \<notin> set s"
proof -
  obtain s1 s2 where "clientgoscheme_AddToScheme B [] = Inr s1" "kvmv1_AddToScheme B s1 = Inr s2" "certmanagerv1_AddToScheme B s2 = Inr s"
    using assms(1) by (auto simp: init_scheme_def outcome_bind_Ret utilruntime_Must_Ret)
  with assms(2) show ?thesis unfolding foreign_builders_def foreign_builder_def by (metis empty_iff list.set(1))
qed

lemma refused_watch:
  assumes "scheme_client s K" and "MigrationKind \<notin> set s"
    and "onMigrationIteration K sv now ctx (MigrationIterationMsg d n) l tr = (Ret eff, l', tr')"
  shows "eff = NoEffect \<and> l' = l"
proof -
  obtain e where "k_CreateMigration K tr (Namespace sv) (GetOpenstackUUID d) = Some e" "k_IgnoreAlreadyExists K (Some e) = Some e"
    using assms(1,2) unfolding scheme_client_def by blast
  with assms(3) show ?thesis by (auto simp: onMigrationIteration_def startMigrationWatch_def ext_def Let_def)
qed

definition unwatched :: "watches \<Rightarrow> bool" where
  "unwatched w \<longleftrightarrow> lv_migrationJobs (w_lv w) = [] \<and> w_live w = {} \<and> w_loops w = {}"

lemma unwatched_step:
  assumes "scheme_client s K" and "MigrationKind \<notin> set s" and "watch_step K V sv (w, tr) lb (w', tr')" and "unwatched w"
  shows "unwatched w'"
  using assms(3)
proof (cases rule: watch_step.cases)
  case (IterStarted now d n c l)
  then show ?thesis using refused_watch [OF assms(1,2) IterStarted(3)] by simp
next
  case (IterIgnored now d n l)
  then show ?thesis using refused_watch [OF assms(1,2) IterIgnored(3)] assms(4) by (simp add: unwatched_def)
next
  case (LifeCancel d ev det c l)
  then show ?thesis using onLifecycleEvent_cases [OF LifeCancel(3)] assms(4) by (simp add: unwatched_def without_def)
next
  case (LifeOther d ev det l)
  then show ?thesis using onLifecycleEvent_cases [OF LifeOther(3)] assms(4) by (simp add: unwatched_def)
qed (use assms(4) in \<open>simp_all add: unwatched_def without_def\<close>)

lemma unwatched_steps:
  assumes "scheme_client s K" and "MigrationKind \<notin> set s" and "watch_steps K V sv (w, tr) ls (w', tr')" and "unwatched w"
  shows "unwatched w'"
  using assms(3,4)
proof (induction "(w, tr)" ls "(w', tr')" arbitrary: w' tr' rule: watch_steps.induct)
  case (more ls y lb)
  then show ?case using unwatched_step [OF assms(1,2)] by (cases y) blast
qed simp

section \<open>Properties\<close>

text \<open>
  C14. As \<^verbatim>\<open>main\<close> builds it, the agent never follows a migration: the scheme of its client does not know the
  type \<^verbatim>\<open>Migration\<close>, since \<^verbatim>\<open>v1alpha1.AddToScheme\<close> is not among the functions \<^verbatim>\<open>init\<close> calls, so the
  client refuses to create the object and no sequence of events starts a watch.
\<close>

theorem main_follows_no_migration:
  assumes "init_scheme B = Ret s" and "foreign_builders B" and "scheme_client s K"
    and "watch_steps K V sv (no_watches (NewLibVirt getenv), tr0) ls (w, tr)"
  shows "lv_migrationJobs (w_lv w) = [] \<and> w_live w = {} \<and> w_loops w = {}"
proof -
  have "unwatched (no_watches (NewLibVirt getenv))" by (simp add: unwatched_def no_watches_def NewLibVirt_def Let_def)
  from unwatched_steps [OF assms(3) init_scheme_foreign [OF assms(1,2)] assms(4) this] show ?thesis
    by (simp add: unwatched_def)
qed

definition sample_builders :: scheme_builders where
  "sample_builders =
     \<lparr>clientgoscheme_AddToScheme = (\<lambda>s. Inr (s @ [([], ''v1'', ''Secret'')])),
      kvmv1_AddToScheme = (\<lambda>s. Inr (s @ [(''kvm.cloud.sap'', ''v1'', ''Hypervisor'')])),
      certmanagerv1_AddToScheme = (\<lambda>s. Inr (s @ [(''cert-manager.io'', ''v1'', ''Certificate'')]))\<rparr>"

definition strict_k8s :: "unit k8s" where
  "strict_k8s = (idle_k8s (sample_hv ()))\<lparr>k_CreateMigration := \<lambda>t ns n. Some empty_err\<rparr>"

theorem main_follows_no_migration_witness:
  "\<exists>w tr. watch_steps strict_k8s idle_virt sample_vars (no_watches (NewLibVirt (\<lambda>_. [])), []) [Iteration sample_domain] (w, tr) \<and>
     lv_migrationJobs (w_lv w) = [] \<and> w_live w = {}"
proof -
  have init: "init_scheme sample_builders = Ret [([], ''v1'', ''Secret''), (''kvm.cloud.sap'', ''v1'', ''Hypervisor''),
      (''cert-manager.io'', ''v1'', ''Certificate'')]"
    by (simp add: init_scheme_def sample_builders_def utilruntime_Must_def)
  have foreign: "foreign_builders sample_builders"
    by (simp add: foreign_builders_def foreign_builder_def sample_builders_def MigrationKind_def)
  have client: "scheme_client s strict_k8s" for s by (simp add: scheme_client_def strict_k8s_def idle_k8s_def)
  let ?s = "no_watches (NewLibVirt (\<lambda>_. []))"
  obtain tr where "onMigrationIteration strict_k8s sample_vars 0 (w_next ?s) (MigrationIterationMsg sample_domain 1) (w_lv ?s) [] =
      (Ret NoEffect, NewLibVirt (\<lambda>_. []), tr)"
    by (auto simp: onMigrationIteration_def startMigrationWatch_def ext_def Let_def strict_k8s_def idle_k8s_def no_watches_def)
  from watch_steps.more [OF watch_steps.none watch_step.IterIgnored [OF this], of idle_virt]
  have steps: "watch_steps strict_k8s idle_virt sample_vars (?s, []) [Iteration sample_domain] (?s\<lparr>w_lv := NewLibVirt (\<lambda>_. [])\<rparr>, tr)"
    by simp
  from main_follows_no_migration [OF init foreign client steps] steps show ?thesis by blast
qed

text \<open>
  C35. In emulation mode the program does not come up: \<^verbatim>\<open>NewSystemdEmulator\<close> leaves \<^verbatim>\<open>Describe\<close> without a
  function and the set-up of the hypervisor controller calls it first, so \<^verbatim>\<open>main\<close> panics.
\<close>

theorem emulated_main_panics:
  assumes "\<not> versionFlag fl" and "mgr_New M = None" and "os_Getenv E ''EMULATE'' \<noteq> []"
  shows "main fl readFile E M D un conn dial tr = (Panic (nil_func ''Describe''), tr)"
  using assms
  by (simp add: main_def exit_of_def run_controllers_def SetupWithManager_def mbind_def hr_systemd_def systemd_mock_def
      mock_Describe_def mock_call_def NewSystemdEmulator_def)

definition quiet_manager :: manager_results where
  "quiet_manager = \<lparr>mgr_New = None, mgr_Add = None, mgr_HypervisorBuilt = None, mgr_SecretBuilt = None, mgr_Healthz = None,
     mgr_Readyz = None, mgr_Start = None\<rparr>"

definition emulating_os :: "unit os_env" where
  "emulating_os = idle_os\<lparr>o_LookupEnv := (\<lambda>n. if n = ''EMULATE'' then Some ''1'' else None)\<rparr>"

theorem emulated_main_panics_witness:
  "main default_flags (\<lambda>_. Inr []) emulating_os quiet_manager idle_dbus (\<lambda>_. Inl empty_err) None None []
     = (Panic (nil_func ''Describe''), [])"
  by (rule emulated_main_panics) (simp_all add: default_flags_def quiet_manager_def emulating_os_def os_Getenv_def)

text \<open>
  The hypervisor controller only works on its own node: whatever the manager's cache delivers, which is
  restricted to the objects of one name, and every event of \<^verbatim>\<open>triggerReconcile\<close>, leads to a reconciliation
  that fetches the object instead of panicking over a foreign host.
\<close>

lemma requests_for_own_host:
  assumes "(''Hypervisor'', name) \<in> set (opt_ByObject (manager_options_of fl sv s)) \<or> (ns, name) = event_request (triggerReconcile sv)"
  shows "\<exists>cs. snd (snd (Reconcile K E (systemd_conn D un) (libvirt_conn V env Q oob ord (libvirt_clients V rd)) sv (ns, name) r tr))
           = tr @ KGetHypervisor ns name # cs"
proof -
  let ?S = "systemd_conn D un" and ?L = "libvirt_conn V env Q oob ord (libvirt_clients V rd)"
  have name: "name = Hostname sv"
    using assms by (auto simp: manager_options_of_def Let_def event_request_def triggerReconcile_def)
  have sec: "continues t t'" if "sections K E ?S ?L sv base q t = (x, q', t')" for base q t x q' t'
    by (rule only_callsD [OF agent_real.sections_any that])
  have "continues (tr @ [KGetHypervisor ns name]) (snd (snd (Reconcile K E ?S ?L sv (ns, name) r tr)))"
    by (auto simp: Reconcile_def name mbind_def mext_def mret_def dest: sec split: sum.splits prod.splits outcome.splits)
  then show ?thesis by (auto simp: extends_by_def)
qed

lemma requests_for_own_host_example:
  "\<exists>cs. snd (snd (Reconcile (idle_k8s sample_object) idle_os (sample_systemd idle_dbus) (sample_libvirt refusing_virt) sample_sv
      (event_request (triggerReconcile sample_sv)) sample_reconciler [])) = [] @ KGetHypervisor ''monsoon3'' ''node1'' # cs"
proof -
  have r: "event_request (triggerReconcile sample_sv) = (''monsoon3'', ''node1'')"
    by (simp add: event_request_def triggerReconcile_def sample_sv_def)
  show ?thesis
    unfolding r by (rule requests_for_own_host [where fl = default_flags and s = "[]"]) (simp add: r)
qed

end
