(* ===== verification/Allocation.thy ===== *)
theory Allocation
  imports Process
begin

text \<open>
  What \<^verbatim>\<open>addCapabilities\<close>, \<^verbatim>\<open>addAllocationCapacity\<close> and \<^verbatim>\<open>addEffectiveCapacity\<close> compute: the
  totals of the host and of its domains, the allocation of each NUMA cell, and the effective
  capacity. The specification side is integer arithmetic on the documents libvirt returned.
\<close>

section \<open>Specification\<close>

definition memory_bytes :: "int64 \<Rightarrow> string \<Rightarrow> int" where
  "memory_bytes v u = (case unit_bytes u of None \<Rightarrow> 0 | Some k \<Rightarrow> sint v * k)"

definition memory_ok :: "int64 \<Rightarrow> string \<Rightarrow> bool" where
  "memory_ok v u \<longleftrightarrow> unit_bytes u \<noteq> None \<and> 0 \<le> sint v"

definition cell_bytes :: "CapabilitiesHostTopologyCell \<Rightarrow> int" where
  "cell_bytes c = memory_bytes (cellmem_Value (topocell_Memory c)) (cellmem_Unit (topocell_Memory c))"

definition cell_cpus :: "CapabilitiesHostTopologyCell \<Rightarrow> int" where
  "cell_cpus c = sint (cellcpus_Num (topocell_CPUs c))"

text \<open>A host whose totals are representable.\<close>

definition host_ok :: "CapabilitiesHostTopologyCell list \<Rightarrow> bool" where
  "host_ok cs \<longleftrightarrow>
     (\<forall>c \<in> set cs. memory_ok (cellmem_Value (topocell_Memory c)) (cellmem_Unit (topocell_Memory c))
                   \<and> 0 \<le> cell_cpus c) \<and>
     int64_range (\<Sum>c\<leftarrow>cs. cell_bytes c) \<and> int64_range (\<Sum>c\<leftarrow>cs. cell_cpus c)"

text \<open>The numbers of a domain: its memory, its pinned virtual CPUs and the cells of each.\<close>

definition dom_bytes :: "DomainInfo \<Rightarrow> int" where
  "dom_bytes d = (case dom_Memory d of None \<Rightarrow> 0 | Some m \<Rightarrow> memory_bytes (memory_Value m) (memory_Unit m))"

definition dom_vcpus :: "DomainInfo \<Rightarrow> int" where
  "dom_vcpus d = (case dom_CPUTune d of None \<Rightarrow> 0 | Some t \<Rightarrow> int (length (cpuTune_VCPUPins t)))"

definition mem_cells :: "DomainInfo \<Rightarrow> uint64 list" where
  "mem_cells d = (case dom_NumaTune d of None \<Rightarrow> [] | Some t \<Rightarrow> map numaMemNode_CellID (numaTune_MemNodes t))"

definition cpu_cells :: "DomainInfo \<Rightarrow> uint64 list" where
  "cpu_cells d =
     (case dom_CPU d of None \<Rightarrow> []
      | Some c \<Rightarrow> (case cpu_Numa c of None \<Rightarrow> [] | Some n \<Rightarrow> map cpuNumaCell_ID (cpuNuma_Cells n)))"

definition dom_complete :: "DomainInfo \<Rightarrow> bool" where
  "dom_complete d \<longleftrightarrow>
     (case dom_Memory d of None \<Rightarrow> False | Some m \<Rightarrow> memory_ok (memory_Value m) (memory_Unit m)) \<and>
     dom_CPUTune d \<noteq> None \<and> dom_NumaTune d \<noteq> None \<and>
     (case dom_CPU d of None \<Rightarrow> False | Some c \<Rightarrow> cpu_Numa c \<noteq> None)"

text \<open>What cell \<open>i\<close> gets: of each domain, its even share for every mention of the cell.\<close>

definition share_of :: "int \<Rightarrow> uint64 list \<Rightarrow> uint64 \<Rightarrow> int" where
  "share_of v is i = int (count_list is i) * (v div int (length is))"

definition cell_share :: "ResourceName \<Rightarrow> DomainInfo list \<Rightarrow> uint64 \<Rightarrow> int" where
  "cell_share res ds i =
     (\<Sum>d\<leftarrow>ds. if res = ResourceMemory then share_of (dom_bytes d) (mem_cells d) i
             else share_of (dom_vcpus d) (cpu_cells d) i)"

text \<open>A resource map holds a whole quantity of a given value.\<close>

definition has_qty :: "'q quantity_api \<Rightarrow> ('q \<Rightarrow> bool) \<Rightarrow> (ResourceName \<rightharpoonup> 'q) \<Rightarrow> ResourceName \<Rightarrow> int \<Rightarrow> bool" where
  "has_qty Q whole m res v \<longleftrightarrow> (\<exists>q. m res = Some q \<and> whole q \<and> qint Q q = v)"

section \<open>Totals of the host\<close>

lemma unit_bytes_pos: "unit_bytes u = Some k \<Longrightarrow> 0 < k"
  by (auto split: if_splits)

lemma memory_bytes_nonneg: "memory_ok v u \<Longrightarrow> 0 \<le> memory_bytes v u"
  by (auto simp: memory_ok_def memory_bytes_def simp del: unit_bytes.simps split: option.splits dest!: unit_bytes_pos)

lemma MemoryToResource_bytes:
  assumes "quantity_laws Q whole" and "memory_ok v u" and "int64_range (memory_bytes v u)"
  obtains q where "MemoryToResource Q v u = Inr q" and "whole q" and "qint Q q = memory_bytes v u"
proof -
  obtain k where k: "unit_bytes u = Some k" using assms(2) by (auto simp: memory_ok_def)
  with assms(3) have "int64_range (sint v * k)" by (simp add: memory_bytes_def del: unit_bytes.simps)
  from MemoryToResource_value [OF assms(1) k this] that k show thesis
    by (auto simp: memory_bytes_def simp del: unit_bytes.simps)
qed

lemma range_head:
  assumes "0 \<le> (a::int)" "0 \<le> x" "0 \<le> r" "int64_range (a + (x + r))"
  shows "int64_range x" "int64_range (a + x)" "int64_range (a + x + r)"
  using assms by (auto simp: int64_range_def)

lemma sum_cells_exact:
  assumes Q: "quantity_laws Q whole"
    and "\<forall>c \<in> set cs. memory_ok (cellmem_Value (topocell_Memory c)) (cellmem_Unit (topocell_Memory c)) \<and> 0 \<le> cell_cpus c"
    and "whole m" "whole p" "0 \<le> qint Q m" "0 \<le> qint Q p"
    and "int64_range (qint Q m + (\<Sum>c\<leftarrow>cs. cell_bytes c))" "int64_range (qint Q p + (\<Sum>c\<leftarrow>cs. cell_cpus c))"
  shows "\<exists>m' p'. sum_cells Q cs m p = Inr (m', p') \<and> whole m' \<and> whole p'
           \<and> qint Q m' = qint Q m + (\<Sum>c\<leftarrow>cs. cell_bytes c) \<and> qint Q p' = qint Q p + (\<Sum>c\<leftarrow>cs. cell_cpus c)"
  using assms(2-)
proof (induction cs arbitrary: m p)
  case Nil
  then show ?case by simp
next
  case (Cons c cs)
  let ?v = "cellmem_Value (topocell_Memory c)" and ?u = "cellmem_Unit (topocell_Memory c)"
  have nn: "0 \<le> (\<Sum>c\<leftarrow>cs. cell_bytes c)" "0 \<le> (\<Sum>c\<leftarrow>cs. cell_cpus c)"
    using Cons.prems(1) by (auto intro!: sum_list_nonneg simp: cell_bytes_def memory_bytes_nonneg)
  have c: "memory_ok ?v ?u" "0 \<le> cell_cpus c" "0 \<le> cell_bytes c"
    using Cons.prems(1) by (auto simp: cell_bytes_def memory_bytes_nonneg)
  note rm = range_head [OF Cons.prems(4) c(3) nn(1)] and rp = range_head [OF Cons.prems(5) c(2) nn(2)]
  obtain q where q: "MemoryToResource Q ?v ?u = Inr q" "whole q" "qint Q q = cell_bytes c"
    using MemoryToResource_bytes [OF Q c(1)] rm(1) Cons.prems(6) by (auto simp: cell_bytes_def)
  define n where "n = NewQuantity Q (cellcpus_Num (topocell_CPUs c)) DecimalSI"
  have n: "whole n" "qint Q n = cell_cpus c"
    using quantity_lawsD [OF Q] by (simp_all add: n_def cell_cpus_def)
  have am: "whole (QuantityAdd Q m q)" "qint Q (QuantityAdd Q m q) = qint Q m + cell_bytes c"
    using quantity_lawsD(4) [OF Q] Cons.prems q rm by auto
  have ap: "whole (QuantityAdd Q p n)" "qint Q (QuantityAdd Q p n) = qint Q p + cell_cpus c"
    using quantity_lawsD(4) [OF Q] Cons.prems n rp by auto
  have "\<exists>m' p'. sum_cells Q cs (QuantityAdd Q m q) (QuantityAdd Q p n) = Inr (m', p') \<and> whole m' \<and> whole p'
      \<and> qint Q m' = qint Q (QuantityAdd Q m q) + (\<Sum>c\<leftarrow>cs. cell_bytes c)
      \<and> qint Q p' = qint Q (QuantityAdd Q p n) + (\<Sum>c\<leftarrow>cs. cell_cpus c)"
    using Cons.prems c am ap rm rp by (intro Cons.IH) (auto simp: add.assoc)
  then show ?case using q(1) am(2) ap(2) by (auto simp: n_def add.assoc)
qed

lemma sum_cells_total:
  assumes Q: "quantity_laws Q whole" and "host_ok cs"
  obtains m p where "sum_cells Q cs (NewQuantity Q 0 BinarySI) (NewQuantity Q 0 DecimalSI) = Inr (m, p)"
    and "whole m" and "whole p" and "qint Q m = (\<Sum>c\<leftarrow>cs. cell_bytes c)" and "qint Q p = (\<Sum>c\<leftarrow>cs. cell_cpus c)"
  using sum_cells_exact [OF Q, of cs "NewQuantity Q 0 BinarySI" "NewQuantity Q 0 DecimalSI"]
    assms(2) quantity_lawsD [OF Q] by (auto simp: host_ok_def)

text \<open>The first loop of \<^verbatim>\<open>addAllocationCapacity\<close> computes the same totals, and fails on the same hosts.\<close>

lemma cells_by_id_sums:
  "cells_by_id Q cs m p cells = Inr (m', p', cells') \<Longrightarrow> sum_cells Q cs m p = Inr (m', p')"
  "cells_by_id Q cs m p cells = Inl e \<longleftrightarrow> sum_cells Q cs m p = Inl e"
  by (induction cs arbitrary: m p cells) (auto simp: Let_def split: sum.splits)

section \<open>The map of cells\<close>

text \<open>
  Every cell of the map carries its key as identifier, its capacity \<open>cap i\<close>, and the allocation
  \<open>F res i\<close> of both resources.
\<close>

definition cells_rep ::
    "'q quantity_api \<Rightarrow> ('q \<Rightarrow> bool) \<Rightarrow> (uint64 \<Rightarrow> ResourceName \<rightharpoonup> 'q) \<Rightarrow> (ResourceName \<Rightarrow> uint64 \<Rightarrow> int) \<Rightarrow> 'q cells \<Rightarrow> bool" where
  "cells_rep Q whole cap F cells \<longleftrightarrow>
     distinct (map fst cells) \<and>
     (\<forall>i c. map_of cells i = Some c \<longrightarrow>
        cell_CellID c = i \<and> cell_Capacity c = cap i \<and>
        has_qty Q whole (cell_Allocation c) ResourceMemory (F ResourceMemory i) \<and>
        has_qty Q whole (cell_Allocation c) ResourceCPU (F ResourceCPU i))"

lemma alloc_in_cell_fields:
  "cell_CellID (alloc_in_cell Q res s c) = cell_CellID c"
  "cell_Capacity (alloc_in_cell Q res s c) = cell_Capacity c"
  "r \<noteq> res \<Longrightarrow> cell_Allocation (alloc_in_cell Q res s c) r = cell_Allocation c r"
  by (simp_all add: alloc_in_cell_def Let_def)

lemma alloc_in_cell_adds:
  assumes "quantity_laws Q whole" and "has_qty Q whole (cell_Allocation c) res v" and "whole s"
    and "int64_range (v + qint Q s)"
  shows "has_qty Q whole (cell_Allocation (alloc_in_cell Q res s c)) res (v + qint Q s)"
  using assms quantity_lawsD(4) [OF assms(1)] by (auto simp: has_qty_def alloc_in_cell_def)

lemma cells_rep_alloc:
  assumes Q: "quantity_laws Q whole" and rep: "cells_rep Q whole cap F cells" and i: "map_of cells i = Some c"
    and "whole s" and "int64_range (F res i + qint Q s)" and "res \<in> {ResourceMemory, ResourceCPU}"
  shows "cells_rep Q whole cap (F(res := (F res)(i := F res i + qint Q s)))
           (AList.update i (alloc_in_cell Q res s c) cells)"
proof -
  have c: "cell_CellID c = i" "cell_Capacity c = cap i" "has_qty Q whole (cell_Allocation c) res (F res i)"
    "r \<in> {ResourceMemory, ResourceCPU} \<Longrightarrow> has_qty Q whole (cell_Allocation c) r (F r i)" for r
    using rep i assms(6) by (auto simp: cells_rep_def)
  have new: "has_qty Q whole (cell_Allocation (alloc_in_cell Q res s c)) res (F res i + qint Q s)"
    using alloc_in_cell_adds [OF Q c(3) assms(4,5)] .
  have other: "has_qty Q whole (cell_Allocation (alloc_in_cell Q res s c)) r (F r i)"
    if "r \<in> {ResourceMemory, ResourceCPU}" "r \<noteq> res" for r
    using c(4) [OF that(1)] that(2) by (simp add: has_qty_def alloc_in_cell_fields)
  show ?thesis
    using rep c(1,2) new other assms(6)
    by (auto simp: cells_rep_def distinct_update update_conv' alloc_in_cell_fields split: if_splits)
qed

lemma map_of_update_keys: "map_of cells i = Some c \<Longrightarrow> map fst (AList.update i c' cells) = map fst cells"
  by (induction cells) (auto split: if_splits)

lemma spread_rep:
  assumes Q: "quantity_laws Q whole" and s: "whole s" "0 \<le> qint Q s" and res: "res \<in> {ResourceMemory, ResourceCPU}"
    and "cells_rep Q whole cap F cells" and "set is \<subseteq> fst ` set cells"
    and "\<forall>i. 0 \<le> F res i \<and> int64_range (F res i + int (count_list is i) * qint Q s)"
  shows "\<exists>cells'. spread Q res what name s is cells = Inr cells' \<and> map fst cells' = map fst cells
           \<and> cells_rep Q whole cap (F(res := \<lambda>i. F res i + int (count_list is i) * qint Q s)) cells'"
  using assms(5-)
proof (induction "is" arbitrary: cells F)
  case Nil
  then show ?case by (simp add: fun_upd_idem)
next
  case (Cons j "is")
  obtain c where c: "map_of cells j = Some c"
    using Cons.prems(2) by (metis map_of_eq_None_iff insert_subset list.simps(15) not_Some_eq)
  let ?F = "F(res := (F res)(j := F res j + qint Q s))"
  let ?cells = "AList.update j (alloc_in_cell Q res s c) cells"
  have r: "0 \<le> F res j" "int64_range (F res j + (1 + int (count_list is j)) * qint Q s)"
    using Cons.prems(3) [rule_format, of j] by (simp_all add: algebra_simps)
  have "0 \<le> int (count_list is j) * qint Q s" using s(2) by simp
  then have "int64_range (F res j + qint Q s)"
    by (intro int64_range_leI [OF _ _ r(2)]) (use r(1) s(2) in \<open>simp_all add: distrib_right\<close>)
  then have rep: "cells_rep Q whole cap ?F ?cells"
    by (intro cells_rep_alloc [OF Q Cons.prems(1) c s(1) _ res])
  have keys: "map fst ?cells = map fst cells" using c by (rule map_of_update_keys)
  have cnt: "?F res i + int (count_list is i) * qint Q s = F res i + int (count_list (j # is) i) * qint Q s" for i
    by (simp add: algebra_simps)
  have "\<exists>cells'. spread Q res what name s is ?cells = Inr cells' \<and> map fst cells' = map fst ?cells
      \<and> cells_rep Q whole cap (?F(res := \<lambda>i. ?F res i + int (count_list is i) * qint Q s)) cells'"
  proof (rule Cons.IH [OF rep])
    show "set is \<subseteq> fst ` set ?cells" using Cons.prems(2) by (auto simp: dom_update)
    show "\<forall>i. 0 \<le> ?F res i \<and> int64_range (?F res i + int (count_list is i) * qint Q s)"
      unfolding cnt using Cons.prems(3) s(2) by simp
  qed
  moreover have "?F(res := \<lambda>i. ?F res i + int (count_list is i) * qint Q s)
      = F(res := \<lambda>i. F res i + int (count_list (j # is) i) * qint Q s)"
    unfolding cnt by (rule fun_upd_upd)
  ultimately show ?case using c keys by (simp del: fun_upd_apply count_list.simps)
qed

text \<open>The cells after the first loop: nothing allocated yet.\<close>

lemma cells_by_id_rep:
  assumes Q: "quantity_laws Q whole" and "cells_by_id Q cs m p cells = Inr (m', p', cells')"
    and "distinct (map topocell_ID cs)" and "fst ` set cells \<inter> topocell_ID ` set cs = {}"
    and "cells_rep Q whole cap (\<lambda>_ _. 0) cells"
    and "\<And>c. c \<in> set cs \<Longrightarrow> cap (topocell_ID c) =
           [ResourceMemory \<mapsto> projr (MemoryToResource Q (cellmem_Value (topocell_Memory c)) (cellmem_Unit (topocell_Memory c))),
            ResourceCPU \<mapsto> NewQuantity Q (cellcpus_Num (topocell_CPUs c)) DecimalSI]"
  shows "map fst cells' = map fst cells @ map topocell_ID cs \<and> cells_rep Q whole cap (\<lambda>_ _. 0) cells'"
  using assms(2-)
proof (induction cs arbitrary: m p cells)
  case Nil
  then show ?case by simp
next
  case (Cons c cs)
  let ?i = "topocell_ID c" and ?n = "NewQuantity Q (cellcpus_Num (topocell_CPUs c)) DecimalSI"
  obtain q where q: "MemoryToResource Q (cellmem_Value (topocell_Memory c)) (cellmem_Unit (topocell_Memory c)) = Inr q"
    using Cons.prems(1) by (auto split: sum.splits)
  let ?cells = "AList.update ?i (new_cell Q ?i q ?n) cells"
  have fresh: "?i \<notin> fst ` set cells" using Cons.prems(3) by auto
  have rec: "cells_by_id Q cs (QuantityAdd Q m q) (QuantityAdd Q p ?n) ?cells = Inr (m', p', cells')"
    using Cons.prems(1) q by (simp add: Let_def)
  have "cells_rep Q whole cap (\<lambda>_ _. 0) ?cells"
    using Cons.prems(4) Cons.prems(5) [of c] q quantity_lawsD [OF Q]
    by (auto simp: cells_rep_def distinct_update update_conv' new_cell_def has_qty_def)
  moreover have "map fst ?cells = map fst cells @ [?i]"
    using fresh by (simp add: update_keys)
  moreover have "fst ` set ?cells \<inter> topocell_ID ` set cs = {}"
    using Cons.prems(2,3) by (auto simp: dom_update)
  ultimately show ?case
    using Cons.IH [OF rec] Cons.prems(2,5) by simp
qed

section \<open>Allocating the domains\<close>

lemma div_nat_bounds:
  assumes "0 \<le> (v::int)"
  shows "0 \<le> v div int n" and "int n * (v div int n) \<le> v" and "v div int n \<le> v"
proof -
  show nn: "0 \<le> v div int n" using assms by (simp add: div_int_pos_iff)
  show le: "int n * (v div int n) \<le> v"
    using assms pos_mod_sign [of "int n" v] by (cases "n = 0") (simp_all add: minus_mod_eq_mult_div [symmetric])
  have "1 * (v div int n) \<le> int n * (v div int n)" if "0 < n"
    using that nn by (intro mult_right_mono) simp_all
  then show "v div int n \<le> v" using le assms by (cases "n = 0") simp_all
qed

lemma share_of_bounds:
  assumes "0 \<le> v"
  shows "0 \<le> share_of v is i \<and> share_of v is i \<le> v"
proof -
  note q = div_nat_bounds(1) [OF assms, of "length is"]
  have "share_of v is i \<le> int (length is) * (v div int (length is))"
    unfolding share_of_def using q count_le_length [of "is" i] by (intro mult_right_mono) simp_all
  also have "\<dots> \<le> v" using assms by (rule div_nat_bounds(2))
  finally show ?thesis using q by (simp add: share_of_def)
qed

lemma even_share_value:
  assumes "0 \<le> sint v" and "is \<noteq> []"
  shows "sint (even_share v (length is)) = sint v div int (length is)"
proof -
  have "go_quot (sint v) (int (length is)) = sint v div int (length is)"
    using assms by (intro go_quot_nonneg) simp_all
  moreover have "int64_range (sint v div int (length is))"
    by (rule int64_range_leI [OF div_nat_bounds(1,3) [OF assms(1)] sint_int64_range])
  ultimately show ?thesis unfolding even_share_def by (simp add: sint_word_of_int64)
qed

text \<open>One resource of one domain, spread over the cells it names.\<close>

lemma spread_domain:
  assumes Q: "quantity_laws Q whole" and res: "res \<in> {ResourceMemory, ResourceCPU}"
    and rep: "cells_rep Q whole cap F cells" and "set is \<subseteq> fst ` set cells" and v: "0 \<le> qint Q q"
    and F: "\<forall>i. 0 \<le> F res i \<and> F res i \<le> T" and T: "int64_range (T + qint Q q)"
  shows "\<exists>cells'. spread Q res what name (NewQuantity Q (even_share (QuantityValue Q q) (length is)) fmt) is cells
             = Inr cells' \<and> map fst cells' = map fst cells
           \<and> cells_rep Q whole cap (F(res := \<lambda>i. F res i + share_of (qint Q q) is i)) cells'"
proof (cases "is = []")
  case True
  then show ?thesis using rep by (simp add: share_of_def fun_upd_idem)
next
  case False
  let ?s = "NewQuantity Q (even_share (QuantityValue Q q) (length is)) fmt"
  have s: "whole ?s" "qint Q ?s = qint Q q div int (length is)"
    using quantity_lawsD [OF Q] even_share_value [OF v False] by simp_all
  have share: "int (count_list is i) * qint Q ?s = share_of (qint Q q) is i" for i
    by (simp add: s(2) share_of_def)
  have r: "\<forall>i. 0 \<le> F res i \<and> int64_range (F res i + int (count_list is i) * qint Q ?s)"
    unfolding share using F share_of_bounds [OF v, of "is"]
    by (auto intro!: int64_range_leI [OF _ _ T] add_mono)
  have "0 \<le> qint Q ?s" using v s(2) by (simp add: div_int_pos_iff)
  from spread_rep [OF Q s(1) this res rep assms(4) r] show ?thesis unfolding share .
qed

definition alloc_rep ::
    "'q quantity_api \<Rightarrow> ('q \<Rightarrow> bool) \<Rightarrow> (uint64 \<Rightarrow> ResourceName \<rightharpoonup> 'q) \<Rightarrow> uint64 list \<Rightarrow> DomainInfo list
     \<Rightarrow> 'q \<times> 'q \<times> 'q cells \<Rightarrow> bool" where
  "alloc_rep Q whole cap keys ds st \<longleftrightarrow>
     (case st of (mem, cpus, cells) \<Rightarrow>
        whole mem \<and> whole cpus \<and> qint Q mem = (\<Sum>d\<leftarrow>ds. dom_bytes d) \<and> qint Q cpus = (\<Sum>d\<leftarrow>ds. dom_vcpus d)
        \<and> map fst cells = keys \<and> cells_rep Q whole cap (\<lambda>res. cell_share res ds) cells)"

definition dom_ok :: "uint64 list \<Rightarrow> DomainInfo \<Rightarrow> bool" where
  "dom_ok keys d \<longleftrightarrow> dom_complete d \<and> set (mem_cells d) \<subseteq> set keys \<and> set (cpu_cells d) \<subseteq> set keys"

definition doms_fit :: "DomainInfo list \<Rightarrow> bool" where
  "doms_fit ds \<longleftrightarrow> int64_range (\<Sum>d\<leftarrow>ds. dom_bytes d) \<and> int64_range (\<Sum>d\<leftarrow>ds. dom_vcpus d)"

lemma dom_nonneg: "dom_complete d \<Longrightarrow> 0 \<le> dom_bytes d" "0 \<le> dom_vcpus d"
  by (auto simp: dom_complete_def dom_bytes_def dom_vcpus_def memory_bytes_nonneg split: option.splits)

lemma cell_share_bounds:
  assumes "\<forall>d \<in> set ds. dom_complete d"
  shows "0 \<le> cell_share res ds i \<and>
         cell_share res ds i \<le> (if res = ResourceMemory then \<Sum>d\<leftarrow>ds. dom_bytes d else \<Sum>d\<leftarrow>ds. dom_vcpus d)"
  using assms
proof (induction ds)
  case Nil
  then show ?case by (simp add: cell_share_def)
next
  case (Cons d ds)
  then show ?case
    using share_of_bounds [OF dom_nonneg(1), of d "mem_cells d" i] share_of_bounds [OF dom_nonneg(2), of d "cpu_cells d" i]
    by (auto simp: cell_share_def)
qed

lemma dom_complete_cases:
  assumes "dom_complete d"
  obtains m t n c u where "dom_Memory d = Some m" and "memory_ok (memory_Value m) (memory_Unit m)"
    and "dom_bytes d = memory_bytes (memory_Value m) (memory_Unit m)"
    and "dom_CPUTune d = Some t" and "dom_vcpus d = int (length (cpuTune_VCPUPins t))"
    and "dom_NumaTune d = Some n" and "mem_cells d = map numaMemNode_CellID (numaTune_MemNodes n)"
    and "dom_CPU d = Some c" and "cpu_Numa c = Some u" and "cpu_cells d = map cpuNumaCell_ID (cpuNuma_Cells u)"
  using assms
  by (auto simp: dom_complete_def dom_bytes_def dom_vcpus_def mem_cells_def cpu_cells_def split: option.splits)

lemma alloc_domain_rep:
  assumes Q: "quantity_laws Q whole" and rep: "alloc_rep Q whole cap keys ds st"
    and ds: "\<forall>d \<in> set ds. dom_complete d" and d: "dom_ok keys d" and fit: "doms_fit (ds @ [d])"
  shows "\<exists>st'. alloc_domain Q d st = Ret (Inr st') \<and> alloc_rep Q whole cap keys (ds @ [d]) st'"
proof -
  obtain mem cpus cells where st: "st = (mem, cpus, cells)" by (cases st) auto
  note rep' = rep [unfolded st alloc_rep_def prod.case]
  have dc: "dom_complete d" using d by (simp add: dom_ok_def)
  from dom_complete_cases [OF dc] obtain m t n c u where
    mem: "dom_Memory d = Some m" "memory_ok (memory_Value m) (memory_Unit m)"
      "dom_bytes d = memory_bytes (memory_Value m) (memory_Unit m)"
    and tune: "dom_CPUTune d = Some t" "dom_vcpus d = int (length (cpuTune_VCPUPins t))"
    and numa: "dom_NumaTune d = Some n" "mem_cells d = map numaMemNode_CellID (numaTune_MemNodes n)"
    and cpu: "dom_CPU d = Some c" "cpu_Numa c = Some u" "cpu_cells d = map cpuNumaCell_ID (cpuNuma_Cells u)" by metis
  have sums: "0 \<le> (\<Sum>d\<leftarrow>ds. dom_bytes d)" "0 \<le> (\<Sum>d\<leftarrow>ds. dom_vcpus d)"
    using ds dom_nonneg by (auto intro!: sum_list_nonneg)
  have rng: "int64_range (dom_bytes d)" "int64_range (dom_vcpus d)"
    "int64_range (qint Q mem + dom_bytes d)" "int64_range (qint Q cpus + dom_vcpus d)"
    using fit rep' dom_nonneg(1) [OF dc] dom_nonneg(2) [of d] sums
    by (auto simp: doms_fit_def int64_range_def)
  obtain q where q: "MemoryToResource Q (memory_Value m) (memory_Unit m) = Inr q" "whole q" "qint Q q = dom_bytes d"
    using MemoryToResource_bytes [OF Q mem(2)] rng(1) mem(3) by metis
  define p where "p = NewQuantity Q (of_nat (length (cpuTune_VCPUPins t))) DecimalSI"
  have p: "whole p" "qint Q p = dom_vcpus d"
    using quantity_lawsD(1,2) [OF Q] sint_word_of_int64 [OF rng(2)] by (simp_all add: p_def tune(2))
  have bnd: "\<forall>i. 0 \<le> cell_share ResourceMemory ds i \<and> cell_share ResourceMemory ds i \<le> qint Q mem"
    "\<forall>i. 0 \<le> cell_share ResourceCPU ds i \<and> cell_share ResourceCPU ds i \<le> qint Q cpus"
    using cell_share_bounds [OF ds, of ResourceMemory] cell_share_bounds [OF ds, of ResourceCPU] rep' by simp_all
  let ?F = "\<lambda>res. cell_share res ds"
  have in1: "set (mem_cells d) \<subseteq> fst ` set cells"
    using d rep' by (metis dom_ok_def list.set_map)
  obtain cells1 where c1: "alloc_mem_cells Q d q cells = Ret (Inr cells1)" "map fst cells1 = keys"
      "cells_rep Q whole cap (?F(ResourceMemory := \<lambda>i. ?F ResourceMemory i + share_of (dom_bytes d) (mem_cells d) i)) cells1"
    using spread_domain [OF Q, of ResourceMemory cap ?F cells "mem_cells d" q "qint Q mem" "''memory''" "dom_Name d" BinarySI]
      rep' in1 bnd(1) rng(3) q(3) dom_nonneg(1) [OF dc] numa by (auto simp: alloc_mem_cells_def Let_def)
  let ?G = "?F(ResourceMemory := \<lambda>i. ?F ResourceMemory i + share_of (dom_bytes d) (mem_cells d) i)"
  have in2: "set (cpu_cells d) \<subseteq> fst ` set cells1"
    using d c1(2) by (metis dom_ok_def list.set_map)
  obtain cells2 where c2: "alloc_cpu_cells Q d p cells1 = Ret (Inr cells2)" "map fst cells2 = keys"
      "cells_rep Q whole cap (?G(ResourceCPU := \<lambda>i. ?G ResourceCPU i + share_of (dom_vcpus d) (cpu_cells d) i)) cells2"
    using spread_domain [OF Q, of ResourceCPU cap ?G cells1 "cpu_cells d" p "qint Q cpus" "''cpu''" "dom_Name d" DecimalSI]
      c1 in2 bnd(2) rng(4) p(2) dom_nonneg(2) [of d] cpu by (auto simp: alloc_cpu_cells_def Let_def)
  have G: "cells_rep Q whole cap (\<lambda>res. cell_share res (ds @ [d])) cells2"
    using c2(3) by (simp add: cells_rep_def cell_share_def)
  have add: "whole (QuantityAdd Q mem q) \<and> qint Q (QuantityAdd Q mem q) = qint Q mem + dom_bytes d"
    "whole (QuantityAdd Q cpus p) \<and> qint Q (QuantityAdd Q cpus p) = qint Q cpus + dom_vcpus d"
    using quantity_lawsD(4) [OF Q] rep' q p rng by auto
  have "alloc_domain Q d st = Ret (Inr (QuantityAdd Q mem q, QuantityAdd Q cpus p, cells2))"
    using mem(1) q(1) tune(1) c1(1) c2(1) by (simp add: st alloc_domain_def p_def Let_def)
  then show ?thesis using add c2(2) G rep' by (simp add: alloc_rep_def)
qed

lemma doms_fit_prefix:
  assumes "\<forall>d \<in> set (xs @ ys). dom_complete d" and "doms_fit (xs @ ys)"
  shows "doms_fit xs"
proof -
  have "0 \<le> (\<Sum>d\<leftarrow>zs. dom_bytes d) \<and> 0 \<le> (\<Sum>d\<leftarrow>zs. dom_vcpus d)" if "\<forall>d \<in> set zs. dom_complete d" for zs
    using that dom_nonneg by (auto intro!: sum_list_nonneg)
  from this [of xs] this [of ys] assms show ?thesis
    by (auto simp: doms_fit_def int64_range_def)
qed

lemma alloc_domains_rep:
  assumes Q: "quantity_laws Q whole" and "alloc_rep Q whole cap keys ds0 st"
    and "\<forall>d \<in> set ds0. dom_complete d" and "\<forall>d \<in> set ds. dom_ok keys d" and "doms_fit (ds0 @ ds)"
  shows "\<exists>st'. alloc_domains Q ds st = Ret (Inr st') \<and> alloc_rep Q whole cap keys (ds0 @ ds) st'"
  using assms(2-)
proof (induction ds arbitrary: ds0 st)
  case Nil
  then show ?case by simp
next
  case (Cons d ds)
  have c: "\<forall>d \<in> set ((ds0 @ [d]) @ ds). dom_complete d" using Cons.prems(2,3) by (auto simp: dom_ok_def)
  then have "doms_fit (ds0 @ [d])" using Cons.prems(4) doms_fit_prefix [of "ds0 @ [d]" ds] by simp
  then obtain st' where st': "alloc_domain Q d st = Ret (Inr st')" "alloc_rep Q whole cap keys (ds0 @ [d]) st'"
    using alloc_domain_rep [OF Q Cons.prems(1,2)] Cons.prems(3) by (meson list.set_intros(1))
  moreover have "\<exists>st''. alloc_domains Q ds st' = Ret (Inr st'') \<and> alloc_rep Q whole cap keys ((ds0 @ [d]) @ ds) st''"
    by (rule Cons.IH [OF st'(2)]) (use c Cons.prems in auto)
  ultimately show ?case by simp
qed

section \<open>The whole processor\<close>

definition host_cap :: "'q quantity_api \<Rightarrow> CapabilitiesHostTopologyCell list \<Rightarrow> uint64 \<Rightarrow> ResourceName \<rightharpoonup> 'q" where
  "host_cap Q cs i =
     the (map_of (map (\<lambda>c. (topocell_ID c,
            [ResourceMemory \<mapsto> projr (MemoryToResource Q (cellmem_Value (topocell_Memory c)) (cellmem_Unit (topocell_Memory c))),
             ResourceCPU \<mapsto> NewQuantity Q (cellcpus_Num (topocell_CPUs c)) DecimalSI])) cs) i)"

lemma host_cap_cell:
  assumes "distinct (map topocell_ID cs)" and "c \<in> set cs"
  shows "host_cap Q cs (topocell_ID c) =
           [ResourceMemory \<mapsto> projr (MemoryToResource Q (cellmem_Value (topocell_Memory c)) (cellmem_Unit (topocell_Memory c))),
            ResourceCPU \<mapsto> NewQuantity Q (cellcpus_Num (topocell_CPUs c)) DecimalSI]"
  unfolding host_cap_def using assms by (subst map_of_is_SomeI) (auto simp: comp_def image_iff)

lemma sum_list_member_le:
  assumes "\<forall>x \<in> set xs. (0::int) \<le> f x" and "x \<in> set xs"
  shows "f x \<le> (\<Sum>x\<leftarrow>xs. f x)"
proof -
  obtain ys zs where xs: "xs = ys @ x # zs" using assms(2) by (meson split_list)
  have "0 \<le> (\<Sum>x\<leftarrow>ys. f x)" "0 \<le> (\<Sum>x\<leftarrow>zs. f x)"
    using assms(1) xs by (auto intro!: sum_list_nonneg)
  then show ?thesis by (simp add: xs)
qed

lemma host_cap_values:
  assumes Q: "quantity_laws Q whole" and ok: "host_ok cs" and "distinct (map topocell_ID cs)" and c: "c \<in> set cs"
  shows "has_qty Q whole (host_cap Q cs (topocell_ID c)) ResourceMemory (cell_bytes c)"
    and "has_qty Q whole (host_cap Q cs (topocell_ID c)) ResourceCPU (cell_cpus c)"
proof -
  have mok: "memory_ok (cellmem_Value (topocell_Memory c)) (cellmem_Unit (topocell_Memory c))"
    using ok c by (simp add: host_ok_def)
  have nn: "\<forall>c \<in> set cs. 0 \<le> cell_bytes c"
    using ok by (auto simp: host_ok_def cell_bytes_def memory_bytes_nonneg)
  have "int64_range (cell_bytes c)"
    using ok sum_list_member_le [OF nn c] nn c by (auto simp: host_ok_def intro: int64_range_leI)
  then obtain q where "MemoryToResource Q (cellmem_Value (topocell_Memory c)) (cellmem_Unit (topocell_Memory c)) = Inr q"
      "whole q" "qint Q q = cell_bytes c"
    using MemoryToResource_bytes [OF Q mok] by (auto simp: cell_bytes_def)
  then show "has_qty Q whole (host_cap Q cs (topocell_ID c)) ResourceMemory (cell_bytes c)"
    and "has_qty Q whole (host_cap Q cs (topocell_ID c)) ResourceCPU (cell_cpus c)"
    using quantity_lawsD [OF Q] by (simp_all add: host_cap_cell [OF assms(3) c] has_qty_def cell_cpus_def)
qed

lemma cells_rep_ids: "cells_rep Q whole cap F cells \<Longrightarrow> map cell_CellID (map snd cells) = map fst cells"
  by (auto simp: cells_rep_def)

lemma cell_share_Nil: "(\<lambda>res. cell_share res []) = (\<lambda>_ _. 0)"
  by (simp add: cell_share_def fun_eq_iff)

lemma alloc_rep_init:
  assumes Q: "quantity_laws Q whole" and "distinct (map topocell_ID cs)"
    and "cells_by_id Q cs m p [] = Inr (m', p', cells)"
  shows "alloc_rep Q whole (host_cap Q cs) (map topocell_ID cs) [] (NewQuantity Q 0 BinarySI, NewQuantity Q 0 DecimalSI, cells)"
proof -
  have "cells_rep Q whole (host_cap Q cs) (\<lambda>_ _. 0) []" by (simp add: cells_rep_def)
  from cells_by_id_rep [OF Q assms(3,2) _ this host_cap_cell [OF assms(2)]]
  have "map fst cells = map topocell_ID cs \<and> cells_rep Q whole (host_cap Q cs) (\<lambda>_ _. 0) cells" by simp
  then show ?thesis using quantity_lawsD [OF Q] by (simp add: alloc_rep_def cell_share_Nil)
qed

text \<open>The status that the processor writes, against the specification.\<close>

definition allocation_spec ::
    "'q quantity_api \<Rightarrow> ('q \<Rightarrow> bool) \<Rightarrow> CapabilitiesHostTopologyCell list \<Rightarrow> DomainInfo list \<Rightarrow> 'q HypervisorStatus \<Rightarrow> bool" where
  "allocation_spec Q whole cs ds s \<longleftrightarrow>
     has_qty Q whole (status_Capacity s) ResourceMemory (\<Sum>c\<leftarrow>cs. cell_bytes c) \<and>
     has_qty Q whole (status_Capacity s) ResourceCPU (\<Sum>c\<leftarrow>cs. cell_cpus c) \<and>
     has_qty Q whole (status_Allocation s) ResourceMemory (\<Sum>d\<leftarrow>ds. dom_bytes d) \<and>
     has_qty Q whole (status_Allocation s) ResourceCPU (\<Sum>d\<leftarrow>ds. dom_vcpus d) \<and>
     mset (map cell_CellID (status_Cells s)) = mset (map topocell_ID cs) \<and>
     (\<forall>c \<in> set cs. \<forall>cell \<in> set (status_Cells s). cell_CellID cell = topocell_ID c \<longrightarrow>
        has_qty Q whole (cell_Capacity cell) ResourceMemory (cell_bytes c) \<and>
        has_qty Q whole (cell_Capacity cell) ResourceCPU (cell_cpus c) \<and>
        has_qty Q whole (cell_Allocation cell) ResourceMemory (cell_share ResourceMemory ds (topocell_ID c)) \<and>
        has_qty Q whole (cell_Allocation cell) ResourceCPU (cell_share ResourceCPU ds (topocell_ID c)))"

lemma cells_rep_spec:
  assumes "cells_rep Q whole cap F cells" and "cell \<in> set (map snd cells)"
  shows "cell_Capacity cell = cap (cell_CellID cell)
    \<and> has_qty Q whole (cell_Allocation cell) ResourceMemory (F ResourceMemory (cell_CellID cell))
    \<and> has_qty Q whole (cell_Allocation cell) ResourceCPU (F ResourceCPU (cell_CellID cell))"
  using assms by (force simp: cells_rep_def)

section \<open>Properties of the totals\<close>

text \<open>The run of \<^verbatim>\<open>addAllocationCapacity\<close> on a host and domains without defects.\<close>

lemma allocation_exact:
  assumes Q: "quantity_laws Q whole" and ord: "\<And>xs. mset (ord xs) = mset xs"
    and "capabilitiesClient C tr = (Inr caps, tr1)" and "domainInfoClient C [] tr1 = (Inr ds, tr2)"
    and host: "host_ok (caps_cells caps)" and dist: "distinct (map topocell_ID (caps_cells caps))"
    and doms: "\<And>d. d \<in> set ds \<Longrightarrow> dom_ok (map topocell_ID (caps_cells caps)) d" and fit: "doms_fit ds"
  shows "\<exists>hv'. addAllocationCapacity Q ord C hv tr = (Ret (hv', None), tr2)
           \<and> allocation_spec Q whole (caps_cells caps) ds (hv_Status hv')"
proof -
  let ?cs = "caps_cells caps"
  obtain m p where mp: "sum_cells Q ?cs (NewQuantity Q 0 BinarySI) (NewQuantity Q 0 DecimalSI) = Inr (m, p)"
      "whole m" "whole p" "qint Q m = (\<Sum>c\<leftarrow>?cs. cell_bytes c)" "qint Q p = (\<Sum>c\<leftarrow>?cs. cell_cpus c)"
    using sum_cells_total [OF Q host] .
  then obtain cells where cells: "cells_by_id Q ?cs (NewQuantity Q 0 BinarySI) (NewQuantity Q 0 DecimalSI) [] = Inr (m, p, cells)"
    using cells_by_id_sums [of Q ?cs "NewQuantity Q 0 BinarySI" "NewQuantity Q 0 DecimalSI" "[]"]
    by (cases "cells_by_id Q ?cs (NewQuantity Q 0 BinarySI) (NewQuantity Q 0 DecimalSI) []") auto
  obtain st where st: "alloc_domains Q ds (NewQuantity Q 0 BinarySI, NewQuantity Q 0 DecimalSI, cells) = Ret (Inr st)"
      "alloc_rep Q whole (host_cap Q ?cs) (map topocell_ID ?cs) ds st"
    using alloc_domains_rep [OF Q alloc_rep_init [OF Q dist cells], of ds] doms fit by auto
  obtain ma pa cells' where st_eq: "st = (ma, pa, cells')" by (cases st) auto
  note rep = st(2) [unfolded st_eq alloc_rep_def prod.case]
  then have rep': "cells_rep Q whole (host_cap Q ?cs) (\<lambda>res. cell_share res ds) cells'" by simp
  let ?hv = "map_status (\<lambda>s. s\<lparr>status_Capacity := [ResourceMemory \<mapsto> m, ResourceCPU \<mapsto> p],
      status_Allocation := [ResourceMemory \<mapsto> ma, ResourceCPU \<mapsto> pa], status_Cells := ord (map snd cells')\<rparr>) hv"
  have "addAllocationCapacity Q ord C hv tr = (Ret (?hv, None), tr2)"
    using assms(3,4) cells st(1) by (simp add: addAllocationCapacity_def st_eq)
  moreover have "mset (map cell_CellID (ord (map snd cells'))) = mset (map topocell_ID ?cs)"
    using ord [of "map snd cells'"] cells_rep_ids [OF rep'] rep by (metis mset_map)
  moreover have "set (ord (map snd cells')) = set (map snd cells')" using ord by (metis set_mset_mset)
  then have "\<forall>c \<in> set ?cs. \<forall>cell \<in> set (ord (map snd cells')). cell_CellID cell = topocell_ID c \<longrightarrow>
      has_qty Q whole (cell_Capacity cell) ResourceMemory (cell_bytes c) \<and>
      has_qty Q whole (cell_Capacity cell) ResourceCPU (cell_cpus c) \<and>
      has_qty Q whole (cell_Allocation cell) ResourceMemory (cell_share ResourceMemory ds (topocell_ID c)) \<and>
      has_qty Q whole (cell_Allocation cell) ResourceCPU (cell_share ResourceCPU ds (topocell_ID c))"
    using cells_rep_spec [OF rep'] host_cap_values [OF Q host dist] by (metis (no_types, lifting))
  ultimately show ?thesis
    using mp(2-) rep by (intro exI [of _ ?hv]) (simp add: allocation_spec_def has_qty_def)
qed

text \<open>
  C1. On a host whose cells have known memory units and whose totals are \<^verbatim>\<open>int64\<close> values, with
  distinct cell identifiers, and with domains that are completely described and only use cells of the
  host, \<^verbatim>\<open>addAllocationCapacity\<close> succeeds; capacity and allocation are the exact sums over
  cells and domains; there is one cell in the status per cell of the host, with its own capacity;
  and each cell is charged, for each domain, the domain's even share once per mention of the cell.
\<close>

theorem addAllocationCapacity_correct:
  assumes Q: "quantity_laws Q whole" and ord: "\<And>xs. mset (ord xs) = mset xs"
    and "capabilitiesClient C tr = (Inr caps, tr1)" and "domainInfoClient C [] tr1 = (Inr ds, tr2)"
    and host: "host_ok (caps_cells caps)" and dist: "distinct (map topocell_ID (caps_cells caps))"
    and doms: "\<And>d. d \<in> set ds \<Longrightarrow> dom_ok (map topocell_ID (caps_cells caps)) d" and fit: "doms_fit ds"
  shows "\<exists>hv'. addAllocationCapacity Q ord C hv tr = (Ret (hv', None), tr2)
           \<and> allocation_spec Q whole (caps_cells caps) ds (hv_Status hv')"
  using assms by (rule allocation_exact)

text \<open>A host with two cells and one domain on both of them, for the witnesses.\<close>

definition sample_cell :: "uint64 \<Rightarrow> int64 \<Rightarrow> int64 \<Rightarrow> CapabilitiesHostTopologyCell" where
  "sample_cell i kib cpus =
     \<lparr>topocell_ID = i, topocell_Memory = \<lparr>cellmem_Unit = ''KiB'', cellmem_Value = kib\<rparr>, topocell_Pages = [],
      topocell_Distances = \<lparr>distances_Siblings = []\<rparr>, topocell_CPUs = \<lparr>cellcpus_Num = cpus, cellcpus_CPUs = []\<rparr>\<rparr>"

definition sample_caps :: Capabilities where
  "sample_caps =
     \<lparr>caps_Host = \<lparr>host_CPU = \<lparr>hostcpu_Arch = ''x86_64''\<rparr>, host_IOMMU = \<lparr>iommu_Support = ''no''\<rparr>,
        host_Topology = \<lparr>topology_CellSpec = \<lparr>cells_Num = 2, cells_Cells = [sample_cell 0 8 3, sample_cell 1 8 3]\<rparr>,
          topology_Interconnects = \<lparr>interconnects_Latencies = [], interconnects_Bandwidths = []\<rparr>\<rparr>,
        host_Cache = \<lparr>cache_Banks = []\<rparr>\<rparr>,
      caps_Guest = \<lparr>guest_OSType = [], guest_Arch = \<lparr>garch_Name = [], garch_WordSize = 64, garch_Domain = \<lparr>garchdom_Type = []\<rparr>\<rparr>\<rparr>\<rparr>"

definition sample_dom :: DomainInfo where
  "sample_dom =
     \<lparr>dom_Type = ''kvm'', dom_ID = ''1'', dom_Name = ''vm'', dom_UUID = ''u'', dom_Metadata = None,
      dom_Memory = Some \<lparr>memory_Unit = ''KiB'', memory_Value = 3\<rparr>, dom_CurrentMemory = None,
      dom_MemoryBacking = None, dom_VCPU = None,
      dom_CPUTune = Some \<lparr>cpuTune_VCPUPins = [\<lparr>vcpuPin_VCPU = 0, vcpuPin_CPUSet = ''0''\<rparr>,
        \<lparr>vcpuPin_VCPU = 1, vcpuPin_CPUSet = ''1''\<rparr>], cpuTune_EmulatorPin = None\<rparr>,
      dom_NumaTune = Some \<lparr>numaTune_Memory = None,
        numaTune_MemNodes = [\<lparr>numaMemNode_CellID = 0, numaMemNode_Mode = [], numaMemNode_Nodeset = []\<rparr>,
                             \<lparr>numaMemNode_CellID = 1, numaMemNode_Mode = [], numaMemNode_Nodeset = []\<rparr>]\<rparr>,
      dom_Resource = None, dom_OS = None,
      dom_CPU = Some \<lparr>cpu_Mode = [], cpu_Topology = None, cpu_Numa = Some \<lparr>cpuNuma_Cells =
        [\<lparr>cpuNumaCell_ID = 0, cpuNumaCell_CPUs = [], cpuNumaCell_Memory = 0, cpuNumaCell_Unit = [], cpuNumaCell_MemAccess = []\<rparr>]\<rparr>\<rparr>,
      dom_Clock = None, dom_OnPoweroff = [], dom_OnReboot = [], dom_OnCrash = [], dom_Devices = None\<rparr>"

definition sample_dcaps :: DomainCapabilities where
  "sample_dcaps =
     \<lparr>dcaps_Domain = ''kvm'', dcaps_Arch = ''x86_64'',
      dcaps_OS = \<lparr>dcos_Supported = ''yes'', dcos_Loader = \<lparr>loader_Supported = ''yes'', loader_Enums = []\<rparr>\<rparr>,
      dcaps_CPU = \<lparr>dccpu_Modes =
        [\<lparr>mode_Name = ''example'', mode_Supported = ''yes'', mode_Enums = [\<lparr>enum_Name = ''1'', enum_Values = []\<rparr>]\<rparr>,
         \<lparr>mode_Name = ''custom'', mode_Supported = ''yes'', mode_Enums = [\<lparr>enum_Name = ''m'', enum_Values = [''a'', ''b'']\<rparr>]\<rparr>]\<rparr>,
      dcaps_Devices = \<lparr>devices_Devices = []\<rparr>, dcaps_Features = \<lparr>features_Features = []\<rparr>\<rparr>"

definition sample_clients :: "DomainInfo list \<Rightarrow> 'q clients" where
  "sample_clients ds =
     \<lparr>capabilitiesClient = (\<lambda>tr. (Inr sample_caps, tr)), domainCapabilitiesClient = (\<lambda>tr. (Inr sample_dcaps, tr)),
      domainInfoClient = (\<lambda>fs tr. (Inr ds, tr))\<rparr>"

lemma sample_host: "caps_cells sample_caps = [sample_cell 0 8 3, sample_cell 1 8 3]"
  by (simp add: sample_caps_def)

lemma sample_host_ok: "host_ok (caps_cells sample_caps) \<and> distinct (map topocell_ID (caps_cells sample_caps))"
  by (simp add: sample_host sample_cell_def host_ok_def memory_ok_def cell_bytes_def memory_bytes_def cell_cpus_def int64_range_def)

lemma sample_dom_ok: "dom_ok (map topocell_ID (caps_cells sample_caps)) sample_dom \<and> doms_fit [sample_dom]"
  by (simp add: sample_host sample_cell_def dom_ok_def dom_complete_def sample_dom_def mem_cells_def cpu_cells_def
      memory_ok_def doms_fit_def dom_bytes_def dom_vcpus_def memory_bytes_def int64_range_def)

theorem addAllocationCapacity_correct_witness:
  "\<exists>hv'. addAllocationCapacity int_quantity_api rev (sample_clients [sample_dom]) (sample_hv (0, DecimalSI)) []
           = (Ret (hv', None), [])
       \<and> allocation_spec int_quantity_api (\<lambda>_. True) (caps_cells sample_caps) [sample_dom] (hv_Status hv')
       \<and> cell_share ResourceMemory [sample_dom] 1 = 1536"
proof -
  have "cell_share ResourceMemory [sample_dom] 1 = 1536"
    by (simp add: cell_share_def share_of_def sample_dom_def dom_bytes_def memory_bytes_def mem_cells_def)
  with addAllocationCapacity_correct [OF int_quantity_laws, of rev "sample_clients [sample_dom]" "[]" sample_caps "[]"
      "[sample_dom]" "[]" "sample_hv (0, DecimalSI)"] sample_host_ok sample_dom_ok
  show ?thesis by (simp add: sample_clients_def)
qed

text \<open>
  \<^verbatim>\<open>addCapabilities\<close> reports the host's CPU architecture and the exact sums of memory and CPUs
  over the NUMA cells, when the units are known and the sums are \<^verbatim>\<open>int64\<close> values; on an unknown unit
  it returns an error and the hypervisor unchanged.
\<close>

lemma addCapabilities_correct:
  assumes Q: "quantity_laws Q whole" and "capabilitiesClient C tr = (Inr caps, tr1)"
  shows "(host_ok (caps_cells caps) \<longrightarrow>
            (\<exists>hv'. addCapabilities Q C hv tr = (Ret (hv', None), tr1) \<and>
               (let s = status_Capabilities (hv_Status hv')
                in scaps_HostCpuArch s = hostcpu_Arch (host_CPU (caps_Host caps))
                   \<and> qint Q (scaps_HostMemory s) = (\<Sum>c\<leftarrow>caps_cells caps. cell_bytes c)
                   \<and> qint Q (scaps_HostCpus s) = (\<Sum>c\<leftarrow>caps_cells caps. cell_cpus c))))
       \<and> ((\<exists>c \<in> set (caps_cells caps). unit_bytes (cellmem_Unit (topocell_Memory c)) = None) \<longrightarrow>
            (\<exists>err. addCapabilities Q C hv tr = (Ret (hv, Some err), tr1)))"
proof (intro conjI impI)
  assume "host_ok (caps_cells caps)"
  then obtain m p where
    "sum_cells Q (caps_cells caps) (NewQuantity Q 0 BinarySI) (NewQuantity Q 0 DecimalSI) = Inr (m, p)"
    "qint Q m = (\<Sum>c\<leftarrow>caps_cells caps. cell_bytes c)" "qint Q p = (\<Sum>c\<leftarrow>caps_cells caps. cell_cpus c)"
    using sum_cells_total [OF Q] by metis
  with assms(2) show "\<exists>hv'. addCapabilities Q C hv tr = (Ret (hv', None), tr1) \<and>
          (let s = status_Capabilities (hv_Status hv')
           in scaps_HostCpuArch s = hostcpu_Arch (host_CPU (caps_Host caps))
              \<and> qint Q (scaps_HostMemory s) = (\<Sum>c\<leftarrow>caps_cells caps. cell_bytes c)
              \<and> qint Q (scaps_HostCpus s) = (\<Sum>c\<leftarrow>caps_cells caps. cell_cpus c))"
    by (simp add: addCapabilities_def Let_def)
next
  have err: "\<exists>err. sum_cells Q cs m p = Inl err"
    if "\<exists>c \<in> set cs. unit_bytes (cellmem_Unit (topocell_Memory c)) = None" for cs m p
    using that
  proof (induction cs arbitrary: m p)
    case (Cons c cs)
    show ?case
    proof (cases "unit_bytes (cellmem_Unit (topocell_Memory c)) = None")
      case True
      then show ?thesis
        using MemoryToResource_error [of Q "cellmem_Value (topocell_Memory c)" "cellmem_Unit (topocell_Memory c)"] by auto
    next
      case False
      then show ?thesis using Cons by (auto simp del: unit_bytes.simps split: sum.splits)
    qed
  qed simp
  assume "\<exists>c \<in> set (caps_cells caps). unit_bytes (cellmem_Unit (topocell_Memory c)) = None"
  from err [OF this, of "NewQuantity Q 0 BinarySI" "NewQuantity Q 0 DecimalSI"] assms(2) show "\<exists>err. addCapabilities Q C hv tr = (Ret (hv, Some err), tr1)"
    by (auto simp: addCapabilities_def)
qed

lemma addCapabilities_correct_example:
  "\<exists>hv'. addCapabilities int_quantity_api (sample_clients []) (sample_hv (0, DecimalSI)) [] = (Ret (hv', None), [])
       \<and> qint int_quantity_api (scaps_HostMemory (status_Capabilities (hv_Status hv'))) = 16384"
  using addCapabilities_correct [OF int_quantity_laws, of "sample_clients []" "[]" sample_caps "[]" "sample_hv (0, DecimalSI)"]
    sample_host_ok
  by (auto simp: sample_clients_def Let_def sample_host sample_cell_def cell_bytes_def memory_bytes_def)

end
