(* ===== verification/ProcessProps.thy ===== *)
theory ProcessProps
  imports Allocation
begin

text \<open>
  Properties of \<^verbatim>\<open>Process\<close> as a whole and of the processors beside the totals: what an error and
  a panic leave behind, the list of instances, the lists of domain capabilities and the effective
  capacity.
\<close>

section \<open>Outcomes of one domain\<close>

lemma spread_cases:
  "(\<exists>e. spread Q res what name s is cells = Inl e) \<and> \<not> set is \<subseteq> fst ` set cells \<or>
   (\<exists>cells'. spread Q res what name s is cells = Inr cells' \<and> set is \<subseteq> fst ` set cells
           \<and> fst ` set cells' = fst ` set cells)"
proof (induction "is" arbitrary: cells)
  case (Cons i "is")
  show ?case
  proof (cases "map_of cells i")
    case None
    then have "i \<notin> fst ` set cells" by (simp add: map_of_eq_None_iff)
    with None show ?thesis by simp
  next
    case (Some c)
    then have i: "i \<in> fst ` set cells" by (metis map_of_eq_None_iff option.distinct(1))
    then have "fst ` set (AList.update i (alloc_in_cell Q res s c) cells) = fst ` set cells"
      by (auto simp: dom_update)
    with Some Cons.IH [of "AList.update i (alloc_in_cell Q res s c) cells"] i show ?thesis by simp
  qed
qed simp

text \<open>What stops the loop over the domains, in the order of the code.\<close>

datatype stop = Crashes | Fails

definition domain_stop :: "uint64 set \<Rightarrow> DomainInfo \<Rightarrow> stop option" where
  "domain_stop keys d =
     (case dom_Memory d of
        None \<Rightarrow> Some Crashes
      | Some m \<Rightarrow>
          if unit_bytes (memory_Unit m) = None \<or> dom_CPUTune d = None then Some Fails
          else if dom_NumaTune d = None then Some Crashes
          else if \<not> set (mem_cells d) \<subseteq> keys then Some Fails
          else (case dom_CPU d of
                  None \<Rightarrow> Some Crashes
                | Some c \<Rightarrow> if cpu_Numa c = None \<or> \<not> set (cpu_cells d) \<subseteq> keys then Some Fails else None))"

lemma MemoryToResource_Inl: "MemoryToResource Q v u = Inl e \<Longrightarrow> unit_bytes u = None"
  using MemoryToResource_error by blast

lemma alloc_mem_cells_cases:
  "dom_NumaTune d = None \<and> alloc_mem_cells Q d q cells = Panic nil_deref \<or>
   dom_NumaTune d \<noteq> None \<and> \<not> set (mem_cells d) \<subseteq> fst ` set cells \<and> (\<exists>e. alloc_mem_cells Q d q cells = Ret (Inl e)) \<or>
   dom_NumaTune d \<noteq> None \<and> set (mem_cells d) \<subseteq> fst ` set cells \<and>
     (\<exists>cells'. alloc_mem_cells Q d q cells = Ret (Inr cells') \<and> fst ` set cells' = fst ` set cells)"
proof (cases "dom_NumaTune d")
  case (Some t)
  then have ids: "mem_cells d = map numaMemNode_CellID (numaTune_MemNodes t)" by (simp add: mem_cells_def)
  show ?thesis
    using spread_cases [of Q ResourceMemory "''memory''" "dom_Name d"
        "NewQuantity Q (even_share (QuantityValue Q q) (length (mem_cells d))) BinarySI" "mem_cells d" cells]
    unfolding alloc_mem_cells_def Some option.case ids Let_def by auto
qed (simp add: alloc_mem_cells_def)

lemma alloc_cpu_cells_cases:
  "dom_CPU d = None \<and> alloc_cpu_cells Q d q cells = Panic nil_deref \<or>
   (\<exists>c. dom_CPU d = Some c \<and> (cpu_Numa c = None \<or> \<not> set (cpu_cells d) \<subseteq> fst ` set cells)
      \<and> (\<exists>e. alloc_cpu_cells Q d q cells = Ret (Inl e))) \<or>
   (\<exists>c. dom_CPU d = Some c \<and> cpu_Numa c \<noteq> None \<and> set (cpu_cells d) \<subseteq> fst ` set cells
      \<and> (\<exists>cells'. alloc_cpu_cells Q d q cells = Ret (Inr cells') \<and> fst ` set cells' = fst ` set cells))"
proof (cases "dom_CPU d")
  case (Some c)
  note cpu = this
  show ?thesis
  proof (cases "cpu_Numa c")
    case (Some n)
    with cpu have ids: "cpu_cells d = map cpuNumaCell_ID (cpuNuma_Cells n)" by (simp add: cpu_cells_def)
    show ?thesis
      using spread_cases [of Q ResourceCPU "''cpu''" "dom_Name d"
          "NewQuantity Q (even_share (QuantityValue Q q) (length (cpu_cells d))) DecimalSI" "cpu_cells d" cells]
      unfolding alloc_cpu_cells_def cpu Some option.case ids Let_def by (auto simp: Some)
  qed (simp add: alloc_cpu_cells_def cpu)
qed (simp add: alloc_cpu_cells_def)

lemma alloc_domain_outcome:
  "case domain_stop (fst ` set cells) d of
     Some Crashes \<Rightarrow> alloc_domain Q d (mem, cpus, cells) = Panic nil_deref
   | Some Fails \<Rightarrow> (\<exists>err. alloc_domain Q d (mem, cpus, cells) = Ret (Inl err))
   | None \<Rightarrow> (\<exists>mem' cpus' cells'. alloc_domain Q d (mem, cpus, cells) = Ret (Inr (mem', cpus', cells'))
                \<and> fst ` set cells' = fst ` set cells)"
proof (cases "dom_Memory d")
  case None
  then show ?thesis by (simp add: domain_stop_def alloc_domain_def)
next
  case (Some m)
  note mem = this
  show ?thesis
  proof (cases "unit_bytes (memory_Unit m) = None \<or> dom_CPUTune d = None")
    case True
    then show ?thesis using mem MemoryToResource_error [of Q "memory_Value m" "memory_Unit m"]
      by (auto simp: domain_stop_def alloc_domain_def simp del: unit_bytes.simps split: sum.splits option.splits)
  next
    case False
    then obtain t where t: "dom_CPUTune d = Some t" by auto
    obtain q where q: "MemoryToResource Q (memory_Value m) (memory_Unit m) = Inr q"
      using False MemoryToResource_Inl by (cases "MemoryToResource Q (memory_Value m) (memory_Unit m)") blast+
    let ?p = "NewQuantity Q (of_nat (length (cpuTune_VCPUPins t))) DecimalSI"
    show ?thesis
      using alloc_mem_cells_cases [of d Q q cells] alloc_cpu_cells_cases [of d Q ?p "projr (case alloc_mem_cells Q d q cells of Ret r \<Rightarrow> r)"] mem q t False
      by (auto simp: domain_stop_def alloc_domain_def Let_def simp del: unit_bytes.simps)
  qed
qed

text \<open>The first domain that stops the loop decides.\<close>

lemma alloc_domains_outcome:
  "case List.find (\<lambda>d. domain_stop (fst ` set cells) d \<noteq> None) ds of
     None \<Rightarrow> (\<exists>st'. alloc_domains Q ds (mem, cpus, cells) = Ret (Inr st'))
   | Some d \<Rightarrow> (if domain_stop (fst ` set cells) d = Some Crashes
                then alloc_domains Q ds (mem, cpus, cells) = Panic nil_deref
                else (\<exists>err. alloc_domains Q ds (mem, cpus, cells) = Ret (Inl err)))"
proof (induction ds arbitrary: mem cpus cells)
  case Nil
  then show ?case by simp
next
  case (Cons d ds)
  note out = alloc_domain_outcome [of Q d mem cpus cells]
  show ?case
  proof (cases "domain_stop (fst ` set cells) d")
    case None
    then obtain mem' cpus' cells' where d: "alloc_domain Q d (mem, cpus, cells) = Ret (Inr (mem', cpus', cells'))"
        "fst ` set cells' = fst ` set cells"
      using out by auto
    with None Cons.IH [of mem' cpus' cells'] show ?thesis by (simp split: option.splits)
  next
    case (Some s)
    with out show ?thesis by (cases s) auto
  qed
qed

text \<open>The whole step: the first domain that stops it decides.\<close>

lemma allocation_outcome:
  assumes "quantity_laws Q whole" and "host_ok (caps_cells caps)" and "distinct (map topocell_ID (caps_cells caps))"
    and "capabilitiesClient C tr = (Inr caps, tr1)" and "domainInfoClient C [] tr1 = (Inr ds, tr2)"
  shows "case List.find (\<lambda>d. domain_stop (topocell_ID ` set (caps_cells caps)) d \<noteq> None) ds of
           None \<Rightarrow> (\<exists>hv'. addAllocationCapacity Q ord C hv tr = (Ret (hv', None), tr2))
         | Some d \<Rightarrow>
             (if domain_stop (topocell_ID ` set (caps_cells caps)) d = Some Crashes
              then addAllocationCapacity Q ord C hv tr = (Panic nil_deref, tr2)
              else (\<exists>err. addAllocationCapacity Q ord C hv tr = (Ret (hv, Some err), tr2)))"
proof -
  let ?cs = "caps_cells caps"
  obtain m p where "sum_cells Q ?cs (NewQuantity Q 0 BinarySI) (NewQuantity Q 0 DecimalSI) = Inr (m, p)"
    using sum_cells_total [OF assms(1,2)] .
  then obtain cells where cells: "cells_by_id Q ?cs (NewQuantity Q 0 BinarySI) (NewQuantity Q 0 DecimalSI) [] = Inr (m, p, cells)"
    using cells_by_id_sums [of Q ?cs "NewQuantity Q 0 BinarySI" "NewQuantity Q 0 DecimalSI" "[]"]
    by (cases "cells_by_id Q ?cs (NewQuantity Q 0 BinarySI) (NewQuantity Q 0 DecimalSI) []") auto
  have "map fst cells = map topocell_ID ?cs"
    using alloc_rep_init [OF assms(1,3) cells] by (simp add: alloc_rep_def)
  then have keys: "fst ` set cells = topocell_ID ` set ?cs" by (metis list.set_map)
  have eq: "addAllocationCapacity Q ord C hv tr =
      (outcome_bind (alloc_domains Q ds (NewQuantity Q 0 BinarySI, NewQuantity Q 0 DecimalSI, cells)) (\<lambda>r.
         case r of Inl err \<Rightarrow> Ret (hv, Some err)
         | Inr (memAlloc, cpuAlloc, cells) \<Rightarrow>
             Ret (map_status (\<lambda>s. s\<lparr>status_Capacity := [ResourceMemory \<mapsto> m, ResourceCPU \<mapsto> p],
                status_Allocation := [ResourceMemory \<mapsto> memAlloc, ResourceCPU \<mapsto> cpuAlloc],
                status_Cells := ord (map snd cells)\<rparr>) hv, None)), tr2)"
    using assms(4,5) cells by (simp add: addAllocationCapacity_def)
  show ?thesis
    using alloc_domains_outcome [where cells = cells and ds = ds and Q = Q and mem = "NewQuantity Q 0 BinarySI"
        and cpus = "NewQuantity Q 0 DecimalSI"]
    unfolding keys eq by (auto split: option.splits if_splits)
qed

section \<open>Effective capacity\<close>

definition ratio_of :: "(ResourceName \<rightharpoonup> float64) \<Rightarrow> ResourceName \<Rightarrow> float64" where
  "ratio_of oc res = (case oc res of Some x \<Rightarrow> x | None \<Rightarrow> Finite 1 0)"

text \<open>
  The effective capacity of a capacity below \<open>2 ^ 53\<close>: without an overcommit ratio it is the capacity; for a ratio
  \<open>r * 2 ^ k\<close> it is the product; for a ratio \<open>r / 2 ^ k\<close> it is the floor of the exact product, except that a product within
  a relative distance of \<open>2 ^ - 53\<close> below the next integer may be rounded up to it (the product is rounded to a
  \<^verbatim>\<open>float64\<close> before it is truncated).
\<close>

definition floored :: "int \<Rightarrow> int \<Rightarrow> nat \<Rightarrow> int \<Rightarrow> bool" where
  "floored v r k v' \<longleftrightarrow>
     (let n = v * r div 2 ^ k
      in v' = n \<or> v' = n + 1 \<and> ((n + 1) * 2 ^ k - v * r) * 2 ^ 53 \<le> v * r)"

definition effective_spec ::
    "'q quantity_api \<Rightarrow> (ResourceName \<rightharpoonup> float64) \<Rightarrow> (ResourceName \<rightharpoonup> 'q) \<Rightarrow> (ResourceName \<rightharpoonup> 'q) \<Rightarrow> bool" where
  "effective_spec Q oc capacity eff \<longleftrightarrow>
     dom eff = dom capacity \<and>
     (\<forall>res q q'. capacity res = Some q \<and> eff res = Some q' \<longrightarrow>
        QuantityFormat Q q' = QuantityFormat Q q \<and>
        (oc res = None \<and> \<bar>qint Q q\<bar> < 2 ^ 53 \<longrightarrow> qint Q q' = qint Q q) \<and>
        (\<forall>r k. oc res = Some (Finite r (int k)) \<and> 0 \<le> r \<and> 0 \<le> qint Q q \<and> qint Q q < 2 ^ 53
               \<and> qint Q q * r * 2 ^ k < 2 ^ 53 \<longrightarrow> qint Q q' = qint Q q * r * 2 ^ k) \<and>
        (\<forall>r k. oc res = Some (Finite r (- int k)) \<and> 0 \<le> r \<and> 0 \<le> qint Q q \<and> qint Q q < 2 ^ 53
               \<and> qint Q q * r div 2 ^ k < 2 ^ 53 \<longrightarrow> floored (qint Q q) r k (qint Q q')))"

lemma effective_spec_dom: "effective_spec Q oc capacity eff \<Longrightarrow> dom eff = dom capacity"
  unfolding effective_spec_def by blast

lemma effective_spec_default:
  assumes "effective_spec Q oc capacity eff" "capacity res = Some q" "eff res = Some q'" "oc res = None" "\<bar>qint Q q\<bar> < 2 ^ 53"
  shows "qint Q q' = qint Q q"
  using assms unfolding effective_spec_def by blast

lemma effective_spec_ratio:
  assumes "effective_spec Q oc capacity eff" "capacity res = Some q" "eff res = Some q'" "oc res = Some (Finite r (- int k))"
    and "0 \<le> r" "0 \<le> qint Q q" "qint Q q < 2 ^ 53" "qint Q q * r div 2 ^ k < 2 ^ 53"
  shows "floored (qint Q q) r k (qint Q q')"
  using assms unfolding effective_spec_def by blast

lemma int64_of_float_trunc:
  "int64_range (float_trunc m e) \<Longrightarrow> sint (int64_of_float oob (Finite m e)) = float_trunc m e"
  by (simp add: sint_word_of_int64)

lemma scaled_floor:
  assumes "0 \<le> v" "v < 2 ^ 53" "0 \<le> r" "v * r div 2 ^ k < 2 ^ 53"
  shows "floored v r k (sint (int64_of_float oob (fmul (float_of_int v) (Finite r (- int k)))))"
proof -
  have v: "float_of_int v = Finite v 0" using assms by (simp add: float_of_int_small)
  have nn: "0 \<le> v * r" using assms by simp
  obtain m e where me: "round64 (v * r) (- int k) = Finite m e" "v * r div 2 ^ k \<le> float_trunc m e"
      "float_trunc m e \<le> v * r div 2 ^ k + 1"
      "float_trunc m e = v * r div 2 ^ k + 1 \<longrightarrow> ((v * r div 2 ^ k + 1) * 2 ^ k - v * r) * 2 ^ 53 \<le> v * r"
    using round64_trunc_neg_exp [OF nn, of "- int k"] assms(4) by auto
  have "0 \<le> v * r div 2 ^ k" using nn by (simp add: pos_imp_zdiv_nonneg_iff)
  then have "int64_range (float_trunc m e)" using me(2,3) assms(4) by (simp add: int64_range_def)
  then have t: "sint (int64_of_float oob (fmul (float_of_int v) (Finite r (- int k)))) = float_trunc m e"
    unfolding v using me(1) by (simp add: sint_word_of_int64)
  have "float_trunc m e = v * r div 2 ^ k \<or> float_trunc m e = v * r div 2 ^ k + 1" using me(2,3) by linarith
  then show ?thesis unfolding t floored_def Let_def using me(4) by blast
qed

lemma scaled_whole:
  assumes "0 \<le> v" "v < 2 ^ 53" "0 \<le> r" "v * r * 2 ^ k < 2 ^ 53"
  shows "sint (int64_of_float oob (fmul (float_of_int v) (Finite r (int k)))) = v * r * 2 ^ k"
proof (cases "v * r = 0")
  case True
  have "round64 0 (int k) = Finite 0 (int k)" by (simp add: round64_def finite_or_inf_def)
  moreover have "float_of_int v = Finite v 0" using assms by (simp add: float_of_int_small)
  ultimately show ?thesis using True by (auto simp: float_trunc_def int64_range_def)
next
  case False
  then have pos: "1 \<le> v * r" using assms mult_nonneg_nonneg [of v r] by linarith
  have one: "1 \<le> (2 :: int) ^ k" by simp
  have vr: "v * r < 2 ^ 53" using mult_left_mono [OF one, of "v * r"] pos assms(4) by linarith
  have "1 * 2 ^ k \<le> v * r * 2 ^ k" by (rule mult_right_mono [OF pos]) simp
  then have "(2 :: int) ^ k < 2 ^ 53" using assms(4) by linarith
  then have k53: "k < 53" by (rule power_less_imp_less_exp [rotated]) simp
  have v: "float_of_int v = Finite v 0" using assms by (simp add: float_of_int_small)
  have "round64 (v * r) (int k) = Finite (v * r) (int k)"
    using bitlen_le_I [of 53 "v * r"] vr pos k53 by (intro round64_exact) simp_all
  moreover have "0 \<le> v * r * 2 ^ k" using pos by simp
  moreover have "0 \<le> p \<Longrightarrow> p < 2 ^ 53 \<Longrightarrow> int64_range p" for p by (simp add: int64_range_def)
  ultimately have "round64 (v * r) (int k) = Finite (v * r) (int k)" "int64_range (v * r * 2 ^ k)" using assms(4) by blast+
  then show ?thesis unfolding v using int64_of_float_trunc [of "v * r" "int k" oob] by (simp add: float_trunc_def)
qed

lemma identity_ratio:
  assumes "\<bar>v\<bar> < 2 ^ 53"
  shows "sint (int64_of_float oob (fmul (float_of_int v) (Finite 1 0))) = v"
proof -
  have "round64 v 0 = Finite v 0" using float_of_int_small [OF assms] by (simp add: float_of_int_def)
  moreover have "int64_range v" using assms by (auto simp: int64_range_def)
  ultimately show ?thesis
    using float_of_int_small [OF assms] by (simp add: float_trunc_def sint_word_of_int64)
qed

lemma effective_meets_spec:
  assumes Q: "quantity_laws Q whole"
  shows "effective_spec Q oc capacity (effective Q oob oc capacity)"
proof -
  have "dom (effective Q oob oc capacity) = dom capacity"
    by (auto simp: effective_def Let_def split: option.splits)
  moreover have "QuantityFormat Q q' = QuantityFormat Q q
      \<and> qint Q q' = sint (int64_of_float oob (fmul (float_of_int (qint Q q)) (ratio_of oc res)))"
    if "capacity res = Some q" "effective Q oob oc capacity res = Some q'" for res q q'
    using that quantity_lawsD [OF Q] by (auto simp: effective_def Let_def ratio_of_def)
  ultimately show ?thesis
    using identity_ratio scaled_floor scaled_whole unfolding effective_spec_def by (auto simp: ratio_of_def)
qed

section \<open>Versions survive an error\<close>

lemma run_processors_keep:
  assumes "\<And>p hv tr hv' r tr'. p \<in> set ps \<Longrightarrow> p hv tr = (Ret (hv', r), tr') \<Longrightarrow> P hv \<Longrightarrow> P hv'"
    and "run_processors ps hv tr = (Ret (hv', r), tr')" and "P hv"
  shows "P hv'"
  using assms
proof (induction ps arbitrary: hv tr)
  case (Cons p ps)
  obtain res tr1 where p: "p hv tr = (res, tr1)" by (cases "p hv tr") auto
  then obtain hv1 r1 where res: "res = Ret (hv1, r1)"
    using Cons.prems(2) by (cases res) (auto split: prod.splits)
  have "P hv1" using Cons.prems(1) [of p hv tr hv1 r1 tr1] Cons.prems(3) p res by simp
  moreover have "P hv'" if "run_processors ps hv1 tr1 = (Ret (hv', r), tr')"
    by (rule Cons.IH [OF _ that \<open>P hv1\<close>]) (use Cons.prems(1) in \<open>metis list.set_intros(2)\<close>)
  ultimately show ?case using Cons.prems(2) p res by (cases r1) auto
qed simp

definition version_written :: "LibVirt \<Rightarrow> 'q Hypervisor \<Rightarrow> bool" where
  "version_written l hv \<longleftrightarrow> status_LibVirtVersion (hv_Status hv) = lv_version l
     \<and> status_HypervisorVersion (hv_Status hv) = lv_hypervisorVersion l"

lemma processors_keep_version:
  assumes "p \<in> set (processors Q oob ord C l)" and "p hv tr = (Ret (hv', r), tr')" and "version_written l hv"
  shows "version_written l hv'"
  using assms
  by (auto simp: processors_def addVersion_def addInstancesInfo_def addCapabilities_def addDomainCapabilities_def
      addAllocationCapacity_def addEffectiveCapacity_def version_written_def Let_def outcome_bind_def
      simp del: collect_instances.simps split: prod.splits sum.splits outcome.splits)

section \<open>The flat lists\<close>

lemma in_supported_cpu_modes:
  "x \<in> set (supported_cpu_modes ms) \<longleftrightarrow>
     (\<exists>m \<in> set ms. mode_Supported m = supportedYes \<and>
        (x = ''mode/'' @ mode_Name m \<or>
         (\<exists>e \<in> set (mode_Enums m). \<exists>v \<in> set (enum_Values e). x = ''mode/'' @ mode_Name m @ ''/'' @ v)))"
proof (induction ms)
  case (Cons m ms)
  then show ?case by (cases "mode_Supported m = supportedYes") (force simp: supported_cpu_modes_def)+
qed (simp add: supported_cpu_modes_def)

lemma in_supported_devices:
  "x \<in> set (supported_devices ds) \<longleftrightarrow>
     (\<exists>d \<in> set ds. device_Supported d = supportedYes \<and>
        (x = device_XMLName d \<or>
         (\<exists>e \<in> set (device_Enums d). \<exists>v \<in> set (enum_Values e). x = device_XMLName d @ ''/'' @ v)))"
proof (induction ds)
  case (Cons d ds)
  then show ?case by (cases "device_Supported d = supportedYes") (force simp: supported_devices_def)+
qed (simp add: supported_devices_def)

lemma in_supported_features:
  "x \<in> set (supported_features fs) \<longleftrightarrow>
     (\<exists>f \<in> set fs. feature_Supported f = supportedYes \<and> x = feature_XMLName f)"
  by (auto simp: supported_features_def)

section \<open>Sample documents\<close>

text \<open>A tokenizer for the names of the sample documents; every other name is that of a domain.\<close>

definition sample_reader :: xml_reader where
  "sample_reader doc =
     (if doc = ''capabilities'' then Inr (render_Capabilities ([], doc) sample_caps)
      else if doc = ''domainCapabilities'' then Inr (render_DomainCapabilities ([], doc) sample_dcaps)
      else Inr (render_DomainInfo ([], ''domain'') (sample_dom\<lparr>dom_Name := doc\<rparr>)))"

lemma sample_documents [simp]:
  "Capabilities_of sample_reader ''capabilities'' = Inr sample_caps"
  "DomainCapabilities_of sample_reader ''domainCapabilities'' = Inr sample_dcaps"
  "DomainInfo_of sample_reader ''a'' = Inr (sample_dom\<lparr>dom_Name := ''a''\<rparr>)"
  "DomainInfo_of sample_reader ''b'' = Inr (sample_dom\<lparr>dom_Name := ''b''\<rparr>)"
  by (simp_all add: xml_Unmarshal_def sample_reader_def rendersD [OF renders_Capabilities]
      rendersD [OF renders_DomainCapabilities] rendersD [OF renders_DomainInfo] nova_domain_def sample_dom_def)

section \<open>Properties\<close>

text \<open>
  C5. \<^verbatim>\<open>Process\<close> only queries libvirtd (capabilities, domain capabilities, domain list, domain
  XML), and whatever it returns, it never changes the metadata, the spec, the conditions, the update
  status or the operating system status of the hypervisor.
\<close>

theorem Process_contract:
  assumes "Process Q oob ord (libvirt_clients V rd) l hv tr = (res, tr')"
  shows "extends_by is_query tr tr' \<and> (\<forall>hv' r. res = Ret (hv', r) \<longrightarrow> status_frame hv hv')"
  using process.run_contract assms unfolding Process_def .

theorem Process_contract_witness:
  "\<exists>hv' r tr'. Process int_quantity_api (\<lambda>_. 0) id
        (libvirt_clients idle_virt sample_reader)
        (NewLibVirt (\<lambda>_. [])) (sample_hv (0, DecimalSI)) [] = (Ret (hv', r), tr')
      \<and> extends_by is_query [] tr' \<and> status_frame (sample_hv (0, DecimalSI)) hv'"
proof -
  let ?C = "libvirt_clients idle_virt sample_reader"
  obtain hv' r tr' where eq: "Process int_quantity_api (\<lambda>_. 0) id ?C (NewLibVirt (\<lambda>_. [])) (sample_hv (0, DecimalSI)) []
      = (Ret (hv', r), tr')"
    by (simp add: Process_def processors_def libvirt_clients_def capabilities_Get_def domcapabilities_Get_def
        dominfo_Get_def idle_virt_def ext_def addVersion_def addInstancesInfo_def addCapabilities_def
        addDomainCapabilities_def addAllocationCapacity_def addEffectiveCapacity_def sample_host sample_cell_def
        MemoryToResource_def Let_def)
  from Process_contract [OF eq] eq show ?thesis by blast
qed

text \<open>
  C26. When \<^verbatim>\<open>Process\<close> fails, one of the six processors failed on the result of those before it
  and changed nothing itself, but the work of the earlier ones is kept in the returned hypervisor:
  the versions in particular are always the new ones.
\<close>

theorem Process_error:
  assumes "Process Q oob ord (libvirt_clients V rd) l hv tr = (Ret (hv', Some err), tr')"
  shows "(\<exists>k tr0. k < 6
            \<and> run_processors (take k (processors Q oob ord (libvirt_clients V rd) l)) hv tr
                = (Ret (hv', None), tr0)
            \<and> (processors Q oob ord (libvirt_clients V rd) l ! k) hv' tr0 = (Ret (hv', Some err), tr'))
         \<and> version_written l hv'"
proof (intro conjI)
  let ?C = "libvirt_clients V rd"
  note run = assms [unfolded Process_def]
  have len: "length (processors Q oob ord ?C l) = 6" by (simp add: processors_def)
  show "\<exists>k tr0. k < 6 \<and> run_processors (take k (processors Q oob ord ?C l)) hv tr = (Ret (hv', None), tr0)
      \<and> (processors Q oob ord ?C l ! k) hv' tr0 = (Ret (hv', Some err), tr')"
    using process.run_error_stage [OF run] len by metis
  let ?hv = "map_status (\<lambda>s. s\<lparr>status_LibVirtVersion := lv_version l, status_HypervisorVersion := lv_hypervisorVersion l\<rparr>) hv"
  have "run_processors (tl (processors Q oob ord ?C l)) ?hv tr = (Ret (hv', Some err), tr')"
    using run by (simp add: processors_def addVersion_def)
  moreover have "version_written l ?hv" by (simp add: version_written_def)
  moreover have "p \<in> set (tl (processors Q oob ord ?C l)) \<Longrightarrow> p \<in> set (processors Q oob ord ?C l)" for p
    by (simp add: processors_def)
  ultimately show "version_written l hv'"
    using run_processors_keep [of "tl (processors Q oob ord ?C l)" "version_written l"] processors_keep_version by metis
qed

definition failing_virt :: "'q virt" where
  "failing_virt = idle_virt\<lparr>v_ListAllDomains := \<lambda>t fs. Inl (ErrorsNew ''no list'')\<rparr>"

theorem Process_error_witness:
  "\<exists>hv' err tr'. Process int_quantity_api (\<lambda>_. 0) id
        (libvirt_clients failing_virt sample_reader)
        (NewLibVirt (\<lambda>_. [])) (sample_hv (0, DecimalSI)) [] = (Ret (hv', Some err), tr')
      \<and> version_written (NewLibVirt (\<lambda>_. [])) hv' \<and> hv' \<noteq> sample_hv (0, DecimalSI)"
proof -
  let ?C = "libvirt_clients failing_virt sample_reader"
  obtain hv' err tr' where eq: "Process int_quantity_api (\<lambda>_. 0) id ?C (NewLibVirt (\<lambda>_. [])) (sample_hv (0, DecimalSI)) []
      = (Ret (hv', Some err), tr')"
    by (simp add: Process_def processors_def libvirt_clients_def dominfo_Get_def failing_virt_def idle_virt_def ext_def
        addVersion_def addInstancesInfo_def)
  note v = Process_error [OF eq, THEN conjunct2]
  moreover have "\<not> version_written (NewLibVirt (\<lambda>_. [])) (sample_hv (0, DecimalSI))"
    by (simp add: version_written_def NewLibVirt_def sample_hv_def sample_status_def)
  ultimately show ?thesis using eq by metis
qed

text \<open>
  C19. Which domains stop \<^verbatim>\<open>addAllocationCapacity\<close>: with a host it can read, the first domain that
  lacks its memory, its NUMA tuning or its CPU element makes it panic with a nil pointer
  dereference; the first one with an unknown memory unit, no CPU tuning, no CPU NUMA element or a
  cell outside the host makes it return an error; it succeeds when there is no such domain.
\<close>

theorem addAllocationCapacity_outcome:
  assumes "quantity_laws Q whole" and "host_ok (caps_cells caps)" and "distinct (map topocell_ID (caps_cells caps))"
    and "capabilitiesClient C tr = (Inr caps, tr1)" and "domainInfoClient C [] tr1 = (Inr ds, tr2)"
  shows "case List.find (\<lambda>d. domain_stop (topocell_ID ` set (caps_cells caps)) d \<noteq> None) ds of
           None \<Rightarrow> (\<exists>hv'. addAllocationCapacity Q ord C hv tr = (Ret (hv', None), tr2))
         | Some d \<Rightarrow>
             (if domain_stop (topocell_ID ` set (caps_cells caps)) d = Some Crashes
              then addAllocationCapacity Q ord C hv tr = (Panic nil_deref, tr2)
              else (\<exists>err. addAllocationCapacity Q ord C hv tr = (Ret (hv, Some err), tr2)))"
  using assms by (rule allocation_outcome)

theorem addAllocationCapacity_outcome_witness:
  "addAllocationCapacity int_quantity_api id (sample_clients [sample_dom, sample_dom\<lparr>dom_NumaTune := None\<rparr>])
     (sample_hv (0, DecimalSI)) [] = (Panic nil_deref, [])"
proof -
  have stop: "domain_stop (topocell_ID ` set (caps_cells sample_caps)) sample_dom = None"
      "domain_stop (topocell_ID ` set (caps_cells sample_caps)) (sample_dom\<lparr>dom_NumaTune := None\<rparr>) = Some Crashes"
    by (simp_all add: domain_stop_def sample_dom_def mem_cells_def cpu_cells_def sample_host sample_cell_def)
  with addAllocationCapacity_outcome [OF int_quantity_laws, of sample_caps
      "sample_clients [sample_dom, sample_dom\<lparr>dom_NumaTune := None\<rparr>]" "[]" "[]"
      "[sample_dom, sample_dom\<lparr>dom_NumaTune := None\<rparr>]" "[]" id "sample_hv (0, DecimalSI)"] sample_host_ok
  show ?thesis by (simp add: sample_clients_def)
qed

text \<open>
  C24. \<^verbatim>\<open>addEffectiveCapacity\<close> gives exactly the resources that have a capacity an effective
  capacity, for the hypervisor and for every cell, and drops stale entries. For capacities and products below \<open>2 ^ 53\<close> it equals
  the capacity without an overcommit ratio, and with one it is the floor of the exact product, or the next integer where
  the product is less than the rounding error of a \<^verbatim>\<open>float64\<close> (a relative \<open>2 ^ - 53\<close>) below it. Nothing else of the cells changes.
\<close>

theorem addEffectiveCapacity_correct:
  assumes Q: "quantity_laws Q whole"
  shows "\<exists>hv'. addEffectiveCapacity Q oob hv tr = (Ret (hv', None), tr)
     \<and> status_Capacity (hv_Status hv') = status_Capacity (hv_Status hv)
     \<and> effective_spec Q (spec_Overcommit (hv_Spec hv)) (status_Capacity (hv_Status hv)) (status_EffectiveCapacity (hv_Status hv'))
     \<and> list_all2 (\<lambda>c c'. (\<exists>m. c' = c\<lparr>cell_EffectiveCapacity := m\<rparr>)
           \<and> effective_spec Q (spec_Overcommit (hv_Spec hv)) (cell_Capacity c) (cell_EffectiveCapacity c'))
         (status_Cells (hv_Status hv)) (status_Cells (hv_Status hv'))"
  using effective_meets_spec [OF Q]
  by (auto simp: addEffectiveCapacity_def Let_def list_all2_conv_all_nth)

text \<open>Seven CPUs at a ratio of one and a half and five at no ratio, on the host and on a cell.\<close>

definition overcommitted_hv :: "(int64 \<times> quantity_format) Hypervisor" where
  "overcommitted_hv = (sample_hv (0, DecimalSI))
     \<lparr>hv_Spec := sample_spec\<lparr>spec_Overcommit := [ResourceCPU \<mapsto> Finite 3 (- 1)]\<rparr>,
      hv_Status := (hv_Status (sample_hv (0, DecimalSI)))
        \<lparr>status_Capacity := [ResourceCPU \<mapsto> (7, DecimalSI), ResourceMemory \<mapsto> (5, BinarySI)],
         status_Cells := [\<lparr>cell_CellID = 0, cell_Allocation = Map.empty, cell_Capacity = [ResourceCPU \<mapsto> (7, DecimalSI)],
           cell_EffectiveCapacity = [ResourceMemory \<mapsto> (1, BinarySI)]\<rparr>]\<rparr>\<rparr>"

theorem addEffectiveCapacity_correct_witness:
  "\<exists>hv' c m p q. addEffectiveCapacity int_quantity_api (\<lambda>_. 0) overcommitted_hv [] = (Ret (hv', None), [])
     \<and> status_EffectiveCapacity (hv_Status hv') ResourceCPU = Some p \<and> qint int_quantity_api p = 10
     \<and> status_EffectiveCapacity (hv_Status hv') ResourceMemory = Some m \<and> qint int_quantity_api m = 5
     \<and> status_Cells (hv_Status hv') = [c] \<and> cell_EffectiveCapacity c ResourceMemory = None
     \<and> cell_EffectiveCapacity c ResourceCPU = Some q \<and> qint int_quantity_api q = 10"
proof -
  let ?oc = "[ResourceCPU \<mapsto> Finite 3 (- 1)]" and ?cell = "[ResourceCPU \<mapsto> (7 :: int64, DecimalSI)]"
  let ?host = "[ResourceCPU \<mapsto> (7 :: int64, DecimalSI), ResourceMemory \<mapsto> (5 :: int64, BinarySI)]"
  obtain hv' where hv': "addEffectiveCapacity int_quantity_api (\<lambda>_. 0) overcommitted_hv [] = (Ret (hv', None), [])"
      "effective_spec int_quantity_api ?oc ?host (status_EffectiveCapacity (hv_Status hv'))"
      "list_all2 (\<lambda>c c'. effective_spec int_quantity_api ?oc (cell_Capacity c) (cell_EffectiveCapacity c'))
         (status_Cells (hv_Status overcommitted_hv)) (status_Cells (hv_Status hv'))"
    using addEffectiveCapacity_correct [OF int_quantity_laws, of "\<lambda>_. 0" overcommitted_hv "[]"]
    by (auto simp: overcommitted_hv_def list_all2_conv_all_nth)
  have cpus: "\<exists>p. eff ResourceCPU = Some p \<and> qint int_quantity_api p = 10"
    if spec: "effective_spec int_quantity_api ?oc capacity eff" and cap: "capacity ResourceCPU = Some (7, DecimalSI)" for capacity eff
  proof -
    obtain p where p: "eff ResourceCPU = Some p" using effective_spec_dom [OF spec] cap by blast
    have "floored 7 3 1 (qint int_quantity_api p)"
      using effective_spec_ratio [OF spec cap p, of 3 1] by simp
    then show ?thesis using p by (auto simp: floored_def Let_def)
  qed
  obtain p where p: "status_EffectiveCapacity (hv_Status hv') ResourceCPU = Some p" "qint int_quantity_api p = 10"
    using cpus [OF hv'(2)] by auto
  have "ResourceMemory \<in> dom (status_EffectiveCapacity (hv_Status hv'))" using effective_spec_dom [OF hv'(2)] by simp
  then obtain m where m: "status_EffectiveCapacity (hv_Status hv') ResourceMemory = Some m" by blast
  have five: "qint int_quantity_api m = 5" using effective_spec_default [OF hv'(2) _ m, of "(5, BinarySI)"] by simp
  obtain c where c: "status_Cells (hv_Status hv') = [c]" "effective_spec int_quantity_api ?oc ?cell (cell_EffectiveCapacity c)"
    using hv'(3) by (auto simp: overcommitted_hv_def list_all2_Cons1)
  obtain q where q: "cell_EffectiveCapacity c ResourceCPU = Some q" "qint int_quantity_api q = 10" using cpus [OF c(2)] by auto
  have "dom (cell_EffectiveCapacity c) = {ResourceCPU}" using effective_spec_dom [OF c(2)] by simp
  then have "cell_EffectiveCapacity c ResourceMemory = None" by blast
  then show ?thesis using hv'(1) p m five c(1) q by blast
qed

text \<open>
  The effective capacity is not always the floor of capacity times ratio: three CPUs at the
  ratio \<open>6004799503160661 / 2 ^ 52\<close> (the \<^verbatim>\<open>float64\<close> nearest to 1.3333333333333333, which is below four
  thirds) have the exact product 3.9999999999999998 and the floor 3, but the code reports 4.
\<close>

lemma effective_above_floor:
  "\<exists>q. effective int_quantity_api oob [ResourceCPU \<mapsto> Finite 6004799503160661 (- 52)]
          [ResourceCPU \<mapsto> (3, DecimalSI)] ResourceCPU = Some q
     \<and> qint int_quantity_api q = 4 \<and> (3 * 6004799503160661 :: int) div 2 ^ 52 = 3"
proof -
  have "round64 18014398509481983 (- 52) = Finite 9007199254740992 (- 51)"
    by code_simp
  then show ?thesis
    by (simp add: effective_def float_of_int_small float_trunc_def go_quot_def int64_range_def)
qed

text \<open>
  The instances of the status are the domains libvirtd lists as active followed by those it
  lists as inactive, each with its name and UUID from the domain's XML and the right flag, and
  their number is the length of that list.
\<close>

lemma addInstancesInfo_correct:
  assumes "\<And>t. v_ListAllDomains V t [ConnectListDomainsActive] = Inr as"
    and "\<And>t. v_ListAllDomains V t [ConnectListDomainsInactive] = Inr is"
    and "\<And>t d. d \<in> set (as @ is) \<Longrightarrow> \<exists>xml. v_GetXMLDesc V t d = Inr xml \<and> DomainInfo_of rd xml = Inr (info d)"
  shows "\<exists>hv' tr'. addInstancesInfo (libvirt_clients V rd) hv tr = (Ret (hv', None), tr')
     \<and> status_Instances (hv_Status hv') =
         map (\<lambda>d. \<lparr>inst_ID = dom_UUID (info d), inst_Name = dom_Name (info d), inst_Active = True\<rparr>) as
         @ map (\<lambda>d. \<lparr>inst_ID = dom_UUID (info d), inst_Name = dom_Name (info d), inst_Active = False\<rparr>) is
     \<and> status_NumInstances (hv_Status hv') = length as + length is"
proof -
  let ?C = "libvirt_clients V rd"
  have get: "\<exists>tr'. domainInfoClient ?C [f] t = (Inr (map info ds), tr')"
    if "\<And>t. v_ListAllDomains V t [f] = Inr ds" "set ds \<subseteq> set (as @ is)" for f ds t
  proof -
    let ?r = "describe_domains V rd ds [] (t @ [VListAllDomains [f]])"
    have "fst ?r = Inr ([] @ map info ds)"
      by (rule describe_domains_all) (use assms(3) that(2) in blast)
    then have "?r = (Inr (map info ds), snd ?r)" by (simp add: prod_eq_iff)
    moreover have "domainInfoClient ?C [f] t = ?r"
      using that(1) by (simp add: libvirt_clients_def dominfo_Get_def ext_def)
    ultimately show ?thesis by metis
  qed
  obtain tr1 where a: "domainInfoClient ?C [ConnectListDomainsActive] tr = (Inr (map info as), tr1)"
    using get [OF assms(1)] by auto
  obtain tr2 where i: "domainInfoClient ?C [ConnectListDomainsInactive] tr1 = (Inr (map info is), tr2)"
    using get [OF assms(2)] by auto
  show ?thesis using a i by (simp add: addInstancesInfo_def comp_def)
qed

definition two_domains_virt :: "'q virt" where
  "two_domains_virt = idle_virt\<lparr>v_ListAllDomains := \<lambda>t fs.
     Inr (if fs = [ConnectListDomainsActive] then [\<lparr>domain_Name = ''a'', domain_UUID = [], domain_ID = 1\<rparr>]
          else [\<lparr>domain_Name = ''b'', domain_UUID = [], domain_ID = 0\<rparr>]),
     v_GetXMLDesc := \<lambda>t d. Inr (domain_Name d)\<rparr>"

lemma addInstancesInfo_correct_example:
  "\<exists>hv' tr'. addInstancesInfo (libvirt_clients two_domains_virt sample_reader) (sample_hv ()) [] = (Ret (hv', None), tr')
     \<and> map inst_Name (status_Instances (hv_Status hv')) = [''a'', ''b'']
     \<and> map inst_Active (status_Instances (hv_Status hv')) = [True, False]
     \<and> status_NumInstances (hv_Status hv') = 2"
proof -
  let ?a = "\<lparr>domain_Name = ''a'', domain_UUID = [], domain_ID = 1\<rparr>" and ?b = "\<lparr>domain_Name = ''b'', domain_UUID = [], domain_ID = 0\<rparr>"
  let ?info = "\<lambda>d. sample_dom\<lparr>dom_Name := domain_Name d\<rparr>"
  have "\<exists>xml. v_GetXMLDesc two_domains_virt t d = Inr xml \<and> DomainInfo_of sample_reader xml = Inr (?info d)"
    if "d \<in> set ([?a] @ [?b])" for t d
    using that by (auto simp: two_domains_virt_def)
  from addInstancesInfo_correct [of two_domains_virt "[?a]" "[?b]" sample_reader ?info "sample_hv ()" "[]", OF _ _ this]
  obtain hv' tr' where "addInstancesInfo (libvirt_clients two_domains_virt sample_reader) (sample_hv ()) [] = (Ret (hv', None), tr')"
    "status_Instances (hv_Status hv') =
       [\<lparr>inst_ID = ''u'', inst_Name = ''a'', inst_Active = True\<rparr>, \<lparr>inst_ID = ''u'', inst_Name = ''b'', inst_Active = False\<rparr>]"
    "status_NumInstances (hv_Status hv') = 2"
    by (auto simp: two_domains_virt_def sample_dom_def)
  then show ?thesis by (intro exI conjI) simp_all
qed

text \<open>
  C25. The three lists of domain capabilities hold exactly the supported CPU modes, the supported
  devices and the supported features, and for every value of an enumeration of a supported mode or
  device the entry with that value; nothing of an unsupported mode, device or feature. The name
  of an enumeration never appears: one without values adds no entry.
\<close>

theorem addDomainCapabilities_correct:
  assumes "domainCapabilitiesClient C tr = (Inr dc, tr1)"
  shows "\<exists>hv'. addDomainCapabilities C hv tr = (Ret (hv', None), tr1) \<and>
    (let s = status_DomainCapabilities (hv_Status hv') in
       sdcaps_Arch s = dcaps_Arch dc \<and> sdcaps_HypervisorType s = dcaps_Domain dc \<and>
       (\<forall>x. x \<in> set (sdcaps_SupportedCpuModes s) \<longleftrightarrow>
          (\<exists>m \<in> set (dccpu_Modes (dcaps_CPU dc)). mode_Supported m = supportedYes \<and>
             (x = ''mode/'' @ mode_Name m \<or>
              (\<exists>e \<in> set (mode_Enums m). \<exists>v \<in> set (enum_Values e). x = ''mode/'' @ mode_Name m @ ''/'' @ v)))) \<and>
       (\<forall>x. x \<in> set (sdcaps_SupportedDevices s) \<longleftrightarrow>
          (\<exists>d \<in> set (devices_Devices (dcaps_Devices dc)). device_Supported d = supportedYes \<and>
             (x = device_XMLName d \<or>
              (\<exists>e \<in> set (device_Enums d). \<exists>v \<in> set (enum_Values e). x = device_XMLName d @ ''/'' @ v)))) \<and>
       (\<forall>x. x \<in> set (sdcaps_SupportedFeatures s) \<longleftrightarrow>
          (\<exists>f \<in> set (features_Features (dcaps_Features dc)). feature_Supported f = supportedYes \<and> x = feature_XMLName f)))"
  using assms
  by (simp add: addDomainCapabilities_def Let_def in_supported_cpu_modes in_supported_devices in_supported_features)

lemma sample_modes:
  "dccpu_Modes (dcaps_CPU sample_dcaps) =
     [\<lparr>mode_Name = ''example'', mode_Supported = supportedYes, mode_Enums = [\<lparr>enum_Name = ''1'', enum_Values = []\<rparr>]\<rparr>,
      \<lparr>mode_Name = ''custom'', mode_Supported = supportedYes, mode_Enums = [\<lparr>enum_Name = ''m'', enum_Values = [''a'', ''b'']\<rparr>]\<rparr>]"
  by (simp add: sample_dcaps_def supportedYes_def)

theorem addDomainCapabilities_correct_witness:
  "\<exists>hv'. addDomainCapabilities (sample_clients []) (sample_hv ()) [] = (Ret (hv', None), [])
     \<and> ''mode/custom/b'' \<in> set (sdcaps_SupportedCpuModes (status_DomainCapabilities (hv_Status hv')))
     \<and> ''mode/example/1'' \<notin> set (sdcaps_SupportedCpuModes (status_DomainCapabilities (hv_Status hv')))"
proof -
  have "domainCapabilitiesClient (sample_clients []) [] = (Inr sample_dcaps, [])" by (simp add: sample_clients_def)
  from addDomainCapabilities_correct [OF this, of "sample_hv ()"] obtain hv' where
    eq: "addDomainCapabilities (sample_clients []) (sample_hv ()) [] = (Ret (hv', None), [])"
    and modes: "\<forall>x. x \<in> set (sdcaps_SupportedCpuModes (status_DomainCapabilities (hv_Status hv'))) \<longleftrightarrow>
          (\<exists>m \<in> set (dccpu_Modes (dcaps_CPU sample_dcaps)). mode_Supported m = supportedYes \<and>
             (x = ''mode/'' @ mode_Name m \<or>
              (\<exists>e \<in> set (mode_Enums m). \<exists>v \<in> set (enum_Values e). x = ''mode/'' @ mode_Name m @ ''/'' @ v)))"
    unfolding Let_def by metis
  have "''mode/custom/b'' \<in> set (sdcaps_SupportedCpuModes (status_DomainCapabilities (hv_Status hv')))"
    using modes [rule_format, of "''mode/custom/b''"] by (simp add: sample_modes)
  moreover have "''mode/example/1'' \<notin> set (sdcaps_SupportedCpuModes (status_DomainCapabilities (hv_Status hv')))"
    using modes [rule_format, of "''mode/example/1''"] by (simp add: sample_modes)
  ultimately show ?thesis using eq by blast
qed

end
