(* ===== verification/Utf8.thy ===== *)
theory Utf8
  imports Prelude
begin

text \<open>
  Bytes and runes: classes of ASCII bytes, the decoding of UTF-8 as \<^verbatim>\<open>unicode/utf8\<close> does it, and hexadecimal digits. The readers
  of XML and of JSON share them.
\<close>

section \<open>Characters\<close>

text \<open>Tests on the bits of a byte; \<open>char_classes\<close> gives their ranges.\<close>

fun is_ascii :: "char \<Rightarrow> bool" where
  "is_ascii (Char b0 b1 b2 b3 b4 b5 b6 b7) = (\<not> b7)"

fun is_control :: "char \<Rightarrow> bool" where
  "is_control (Char b0 b1 b2 b3 b4 b5 b6 b7) = (\<not> b7 \<and> \<not> b6 \<and> \<not> b5)"

fun is_alpha :: "char \<Rightarrow> bool" where
  "is_alpha (Char b0 b1 b2 b3 b4 b5 b6 b7) =
     (\<not> b7 \<and> b6 \<and> (b0 \<or> b1 \<or> b2 \<or> b3 \<or> b4) \<and> \<not> (b4 \<and> b3 \<and> (b2 \<or> b1 \<and> b0)))"

fun is_digit_byte :: "char \<Rightarrow> bool" where
  "is_digit_byte (Char b0 b1 b2 b3 b4 b5 b6 b7) = (\<not> b7 \<and> \<not> b6 \<and> b5 \<and> b4 \<and> \<not> (b3 \<and> (b2 \<or> b1)))"

lemma char_classes:
  "is_ascii c \<longleftrightarrow> of_char c < (128 :: nat)"
  "is_control c \<longleftrightarrow> of_char c < (32 :: nat)"
  "is_alpha c \<longleftrightarrow> of_char c \<in> {65..90 :: nat} \<union> {97..122}"
  "is_digit_byte c \<longleftrightarrow> of_char c \<in> {48..57 :: nat}"
proof -
  have "P c" if "\<forall>b0 b1 b2 b3 b4 b5 b6 b7. P (Char b0 b1 b2 b3 b4 b5 b6 b7)" for P
    using that by (cases c) simp
  note all = this
  show "is_ascii c \<longleftrightarrow> of_char c < (128 :: nat)"
    by (rule all) (simp add: all_bool_eq of_char_Char)
  show "is_control c \<longleftrightarrow> of_char c < (32 :: nat)"
    by (rule all) (simp add: all_bool_eq of_char_Char)
  show "is_alpha c \<longleftrightarrow> of_char c \<in> {65..90 :: nat} \<union> {97..122}"
    by (rule all) (simp add: all_bool_eq of_char_Char)
  show "is_digit_byte c \<longleftrightarrow> of_char c \<in> {48..57 :: nat}"
    by (rule all) (simp add: all_bool_eq of_char_Char)
qed


section \<open>Runes\<close>

text \<open>UTF-8: the length of the first rune of a string that does not start with an ASCII byte (0: invalid).\<close>

definition continuation :: "char \<Rightarrow> bool" where
  "continuation c \<longleftrightarrow> (128 :: nat) \<le> of_char c \<and> of_char c < (192 :: nat)"

definition second_byte :: "char \<Rightarrow> char \<Rightarrow> bool" where
  "second_byte a b \<longleftrightarrow> continuation b \<and>
     (a = CHR 0xE0 \<longrightarrow> (0xA0 :: nat) \<le> of_char b) \<and> (a = CHR 0xED \<longrightarrow> of_char b \<le> (0x9F :: nat)) \<and>
     (a = CHR 0xF0 \<longrightarrow> (0x90 :: nat) \<le> of_char b) \<and> (a = CHR 0xF4 \<longrightarrow> of_char b \<le> (0x8F :: nat))"

text \<open>The number of bytes a first byte announces.\<close>

definition announced :: "char \<Rightarrow> nat" where
  "announced a =
     (let n = of_char a :: nat
      in if 0xC2 \<le> n \<and> n \<le> 0xDF then 2 else if 0xE0 \<le> n \<and> n \<le> 0xEF then 3 else if 0xF0 \<le> n \<and> n \<le> 0xF4 then 4 else 0)"

definition rune_len :: "string \<Rightarrow> nat" where
  "rune_len s =
     (case s of
        a # b # r \<Rightarrow>
          if announced a \<noteq> 0 \<and> announced a \<le> length s \<and> second_byte a b \<and> list_all continuation (take (announced a - 2) r)
          then announced a else 0
      | _ \<Rightarrow> 0)"

definition hex_digit :: "nat \<Rightarrow> char" where
  "hex_digit n = ''0123456789ABCDEF'' ! (n mod 16)"

definition hex_lower :: "nat \<Rightarrow> char" where
  "hex_lower n = ''0123456789abcdef'' ! (n mod 16)"

text \<open>\<^verbatim>\<open>string(rune(n))\<close>: a surrogate becomes the replacement character.\<close>

definition utf8 :: "nat \<Rightarrow> string" where
  "utf8 n =
     (if n < 0x80 then [char_of n]
      else if n < 0x800 then [char_of (0xC0 + n div 64), char_of (0x80 + n mod 64)]
      else if 0xD800 \<le> n \<and> n \<le> 0xDFFF \<or> 0x10FFFF < n then [CHR 0xEF, CHR 0xBF, CHR 0xBD]
      else if n < 0x10000 then [char_of (0xE0 + n div 4096), char_of (0x80 + n div 64 mod 64), char_of (0x80 + n mod 64)]
      else [char_of (0xF0 + n div 262144), char_of (0x80 + n div 4096 mod 64), char_of (0x80 + n div 64 mod 64),
            char_of (0x80 + n mod 64)])"

definition is_hex_letter :: "char \<Rightarrow> bool" where
  "is_hex_letter c \<longleftrightarrow> c \<in> set ''abcdefABCDEF''"

definition hex_val :: "char \<Rightarrow> nat" where
  "hex_val c =
     (if is_digit_byte c then of_char c - 48 else if of_char c < (97 :: nat) then of_char c - 55 else of_char c - 87)"

end
