(* ===== verification/XmlRead.thy ===== *)
theory XmlRead
  imports XmlDecode Utf8
begin

text \<open>
  The tokenizer of \<^verbatim>\<open>encoding/xml\<close> in strict mode, from the bytes of a document to the tree of elements
  \<^verbatim>\<open>xml.Unmarshal\<close> decodes: character data with entities and line ends, CDATA sections, comments,
  processing instructions and directives, names with their name spaces, and the matching of end tags. It is
  one instance of \<open>xml_reader\<close>. The Unicode tables for names outside ASCII are an argument.
\<close>

section \<open>Errors\<close>

text \<open>
  A syntax error has its message and what is left of the input, which gives the line; the other errors
  are texts; the end of the input outside every element is \<^verbatim>\<open>io.EOF\<close>.
\<close>

datatype xml_error = Syntax string string | OtherError string | EndOfInput

type_synonym 'a xml_parser = "string \<Rightarrow> xml_error + 'a \<times> string"

abbreviation unexpected_EOF :: "xml_error + 'a" where
  "unexpected_EOF \<equiv> Inl (Syntax ''unexpected EOF'' [])"

section \<open>Text\<close>

text \<open>The runes of a text must be characters of XML.\<close>

definition xml_blank :: "char \<Rightarrow> bool" where
  "xml_blank c \<longleftrightarrow> c = CHR '' '' \<or> c = CHR 0x0A \<or> c = CHR 0x09 \<or> c = CHR 0x0D"

function check_runes :: "string \<Rightarrow> string option" where
  "check_runes [] = None"
| "check_runes (c # cs) =
     (if is_ascii c
      then (if is_control c \<and> \<not> xml_blank c
            then Some (''illegal character code U+00'' @ [hex_digit (of_char c div 16), hex_digit (of_char c)])
            else check_runes cs)
      else if rune_len (c # cs) = 0 then Some ''invalid UTF-8''
      else if take 3 (c # cs) = [CHR 0xEF, CHR 0xBF, CHR 0xBE] then Some ''illegal character code U+FFFE''
      else if take 3 (c # cs) = [CHR 0xEF, CHR 0xBF, CHR 0xBF] then Some ''illegal character code U+FFFF''
      else check_runes (drop (rune_len (c # cs)) (c # cs)))"
  by pat_completeness auto
termination by (relation "measure length") auto

definition name_byte :: "char \<Rightarrow> bool" where
  "name_byte c \<longleftrightarrow> \<not> is_ascii c \<or> is_alpha c \<or> is_digit_byte c
     \<or> c = CHR ''_'' \<or> c = CHR '':'' \<or> c = CHR ''.'' \<or> c = CHR ''-''"

definition entities :: "(string \<times> string) list" where
  "entities = [(''lt'', ''<''), (''gt'', ''>''), (''amp'', ''&''), (''apos'', [CHR 0x27]), (''quot'', [CHR 0x22])]"

text \<open>What follows an ampersand: the text it stands for and the rest.\<close>

definition bad_entity :: "string \<Rightarrow> string \<Rightarrow> xml_error" where
  "bad_entity ent rest = Syntax (''invalid character entity '' @ ent) rest"

definition char_ref :: "nat \<Rightarrow> string \<Rightarrow> string xml_parser" where
  "char_ref base pre s =
     (let digit = (\<lambda>c. is_digit_byte c \<or> base = 16 \<and> is_hex_letter c);
          ds = takeWhile digit s;
          n = foldl (\<lambda>n c. base * n + hex_val c) 0 ds
      in case dropWhile digit s of
           [] \<Rightarrow> unexpected_EOF
         | b # r \<Rightarrow>
             if b \<noteq> CHR '';'' then Inl (bad_entity (pre @ ds @ '' (no semicolon)'') (b # r))
             else if ds \<noteq> [] \<and> n \<le> 0x10FFFF then Inr (utf8 n, r)
             else Inl (bad_entity (pre @ ds @ '';'') r))"

definition named_entity :: "string xml_parser" where
  "named_entity s =
     (let n = takeWhile name_byte s
      in case dropWhile name_byte s of
           [] \<Rightarrow> unexpected_EOF
         | b # r \<Rightarrow>
             if b \<noteq> CHR '';'' then Inl (bad_entity (''&'' @ n @ '' (no semicolon)'') (b # r))
             else (case map_of entities n of
                     Some t \<Rightarrow> Inr (t, r)
                   | None \<Rightarrow> Inl (bad_entity (''&'' @ n @ '';'') r)))"

definition xml_entity :: "string xml_parser" where
  "xml_entity s =
     (case s of
        [] \<Rightarrow> unexpected_EOF
      | c # s' \<Rightarrow>
          if c \<noteq> CHR ''#'' then named_entity s
          else (case s' of
                  [] \<Rightarrow> unexpected_EOF
                | x # s'' \<Rightarrow> if x = CHR ''x'' then char_ref 16 ''&#x'' s'' else char_ref 10 ''&#'' s'))"

lemma length_dropWhile_Cons: "dropWhile P s = b # r \<Longrightarrow> length r < length s"
  using length_dropWhile_le [of P s] by simp

lemma char_ref_shorter: "char_ref base pre s = Inr (t, r) \<Longrightarrow> length r < length s"
  by (auto simp: char_ref_def Let_def split: list.splits if_splits dest!: length_dropWhile_Cons)

lemma named_entity_shorter: "named_entity s = Inr (t, r) \<Longrightarrow> length r < length s"
  by (auto simp: named_entity_def Let_def split: list.splits if_splits option.splits dest!: length_dropWhile_Cons)

lemma xml_entity_shorter: "xml_entity s = Inr (t, r) \<Longrightarrow> length r < length s"
  by (auto simp: xml_entity_def split: list.splits if_splits dest!: char_ref_shorter named_entity_shorter)

text \<open>
  \<^verbatim>\<open>text\<close>: character data up to the next tag, a CDATA section, or a quoted value. \<open>b0\<close> and \<open>b1\<close> are the last two bytes;
  line ends become line feeds.
\<close>

datatype text_mode = InContent | InCdata | InQuotes char

fun quoted :: "text_mode \<Rightarrow> bool" where
  "quoted (InQuotes c) = True"
| "quoted q = False"

function text_loop :: "text_mode \<Rightarrow> char \<Rightarrow> char \<Rightarrow> string \<Rightarrow> string xml_parser" where
  "text_loop q b0 b1 acc [] =
     (if q = InCdata then Inl (Syntax ''unexpected EOF in CDATA section'' []) else Inr (acc, []))"
| "text_loop q b0 b1 acc (b # s) =
     (if \<not> quoted q \<and> b0 = CHR '']'' \<and> b1 = CHR '']'' \<and> b = CHR ''>'' then
        (if q = InCdata then Inr (drop 2 acc, s) else Inl (Syntax ''unescaped ]]> not in CDATA section'' s))
      else if b = CHR ''<'' \<and> q \<noteq> InCdata then
        (if q = InContent then Inr (acc, b # s) else Inl (Syntax ''unescaped < inside quoted string'' s))
      else if q = InQuotes b then Inr (acc, s)
      else if b = CHR ''&'' \<and> q \<noteq> InCdata then
        (case xml_entity s of
           Inl e \<Rightarrow> Inl e
         | Inr (t, r) \<Rightarrow> text_loop q (CHR 0x00) (CHR 0x00) (rev t @ acc) r)
      else if b = CHR 0x0D then text_loop q b1 b (CHR 0x0A # acc) s
      else if b1 = CHR 0x0D \<and> b = CHR 0x0A then text_loop q b1 b acc s
      else text_loop q b1 b (b # acc) s)"
  by pat_completeness auto
termination by (relation "measure (\<lambda>(q, b0, b1, acc, s). length s)") (auto dest: xml_entity_shorter)

definition xml_chars :: "text_mode \<Rightarrow> string xml_parser" where
  "xml_chars q s =
     (case text_loop q (CHR 0x00) (CHR 0x00) [] s of
        Inl e \<Rightarrow> Inl e
      | Inr (acc, r) \<Rightarrow> (case check_runes (rev acc) of Some msg \<Rightarrow> Inl (Syntax msg r) | None \<Rightarrow> Inr (rev acc, r)))"

section \<open>Names\<close>

text \<open>\<^verbatim>\<open>isName\<close>; for names outside ASCII the tables \<open>uni\<close> decide.\<close>

definition is_name :: "(string \<Rightarrow> bool) \<Rightarrow> string \<Rightarrow> bool" where
  "is_name uni n =
     (if list_all is_ascii n
      then n \<noteq> [] \<and> (is_alpha (hd n) \<or> hd n = CHR ''_'' \<or> hd n = CHR '':'')
      else uni n)"

text \<open>\<^verbatim>\<open>name\<close>: \<open>none\<close> is the message of the caller when there is no name.\<close>

definition xml_name :: "(string \<Rightarrow> bool) \<Rightarrow> string \<Rightarrow> string xml_parser" where
  "xml_name uni none s =
     (if s = [] then unexpected_EOF
      else if \<not> name_byte (hd s) then Inl (Syntax none s)
      else let n = takeWhile name_byte s; r = dropWhile name_byte s
           in if r = [] then unexpected_EOF
              else if \<not> is_name uni n then Inl (Syntax (''invalid XML name: '' @ n) r)
              else Inr (n, r))"

text \<open>\<^verbatim>\<open>nsname\<close>: a prefix and a local name, or a name without a prefix.\<close>

definition split_name :: "string \<Rightarrow> xml_name" where
  "split_name n =
     (let p = takeWhile (\<lambda>c. c \<noteq> CHR '':'') n; l = tl (dropWhile (\<lambda>c. c \<noteq> CHR '':'') n)
      in if p = [] \<or> l = [] then ([], n) else (p, l))"

definition xml_nsname :: "(string \<Rightarrow> bool) \<Rightarrow> string \<Rightarrow> xml_name xml_parser" where
  "xml_nsname uni none s =
     (case xml_name uni none s of
        Inl e \<Rightarrow> Inl e
      | Inr (n, r) \<Rightarrow> if 1 < count_list n (CHR '':'') then Inl (Syntax none r) else Inr (split_name n, r))"

lemma xml_name_shorter: "xml_name uni none s = Inr (n, r) \<Longrightarrow> length r < length s"
  by (cases s) (auto simp: xml_name_def Let_def length_dropWhile_le less_Suc_eq_le split: if_splits)

lemma xml_nsname_shorter: "xml_nsname uni none s = Inr (n, r) \<Longrightarrow> length r < length s"
  by (auto simp: xml_nsname_def split: sum.splits if_splits dest: xml_name_shorter)

section \<open>Tags and other markup\<close>

abbreviation skip_blanks :: "string \<Rightarrow> string" where
  "skip_blanks \<equiv> dropWhile xml_blank"

text \<open>One attribute, from its name to the end of its value.\<close>

definition xml_attr :: "(string \<Rightarrow> bool) \<Rightarrow> (xml_name \<times> string) xml_parser" where
  "xml_attr uni s =
     (case xml_nsname uni ''expected attribute name in element'' s of
        Inl e \<Rightarrow> Inl e
      | Inr (n, r) \<Rightarrow>
          (case skip_blanks r of
             [] \<Rightarrow> unexpected_EOF
           | e # r \<Rightarrow>
               if e \<noteq> CHR ''='' then Inl (Syntax ''attribute name without = in element'' r)
               else (case skip_blanks r of
                       [] \<Rightarrow> unexpected_EOF
                     | q # r \<Rightarrow>
                         if q \<noteq> CHR 0x22 \<and> q \<noteq> CHR 0x27
                         then Inl (Syntax ''unquoted or missing attribute value in element'' r)
                         else (case xml_chars (InQuotes q) r of Inl e \<Rightarrow> Inl e | Inr (v, r) \<Rightarrow> Inr ((n, v), r)))))"

lemma text_loop_shorter: "text_loop q b0 b1 acc s = Inr (t, r) \<Longrightarrow> length r \<le> length s"
proof (induction s arbitrary: q b0 b1 acc rule: length_induct)
  case (1 s)
  then have IH: "text_loop q' c0 c1 acc' s' = Inr (t, r) \<Longrightarrow> length s' < length s \<Longrightarrow> length r \<le> length s'" for q' c0 c1 acc' s'
    by blast
  show ?case
  proof (cases s)
    case Nil
    then show ?thesis using "1.prems" by (auto split: if_splits)
  next
    case (Cons b s')
    have step: "length r \<le> length s" if "text_loop q' c0 c1 acc' s'' = Inr (t, r)" "length s'' \<le> length s'" for q' c0 c1 acc' s''
      using IH [OF that(1)] that(2) Cons by simp
    show ?thesis using "1.prems" unfolding Cons
      by (simp only: text_loop.simps split: if_split_asm sum.splits prod.splits)
        (auto dest!: xml_entity_shorter dest: step simp: Cons)
  qed
qed

lemma xml_chars_shorter: "xml_chars q s = Inr (t, r) \<Longrightarrow> length r \<le> length s"
  by (auto simp: xml_chars_def split: sum.splits option.splits dest: text_loop_shorter)

lemma xml_attr_shorter:
  assumes "xml_attr uni s = Inr (a, r)"
  shows "length r < length s"
proof -
  from assms obtain n r1 e r2 q r3 v
    where *: "xml_nsname uni ''expected attribute name in element'' s = Inr (n, r1)" "skip_blanks r1 = e # r2"
      "skip_blanks r2 = q # r3" "xml_chars (InQuotes q) r3 = Inr (v, r)"
    by (auto simp: xml_attr_def split: sum.splits list.splits if_splits)
  have "length r2 < length r1" "length r3 < length r2"
    using length_dropWhile_Cons [OF *(2)] length_dropWhile_Cons [OF *(3)] .
  with xml_nsname_shorter [OF *(1)] xml_chars_shorter [OF *(4)] show ?thesis by simp
qed

text \<open>The attributes of a start tag and whether it closes its element.\<close>

function xml_attrs :: "(string \<Rightarrow> bool) \<Rightarrow> (xml_name \<times> string) list \<Rightarrow> ((xml_name \<times> string) list \<times> bool) xml_parser" where
  "xml_attrs uni as s =
     (case skip_blanks s of
        [] \<Rightarrow> unexpected_EOF
      | b # r \<Rightarrow>
          if b = CHR ''/'' then
            (case r of [] \<Rightarrow> unexpected_EOF
             | c # r \<Rightarrow> if c = CHR ''>'' then Inr ((as, True), r) else Inl (Syntax ''expected /> in element'' r))
          else if b = CHR ''>'' then Inr ((as, False), r)
          else (case xml_attr uni (b # r) of Inl e \<Rightarrow> Inl e | Inr (a, r) \<Rightarrow> xml_attrs uni (as @ [a]) r))"
  by pat_completeness auto
termination
proof (relation "measure (\<lambda>(uni, as, s). length s)")
  fix uni as s b r x a r'
  assume "skip_blanks s = b # r" "xml_attr uni (b # r) = Inr x" "(a, r') = x"
  then show "((uni, as @ [a], r'), (uni, as, s)) \<in> measure (\<lambda>(uni, as, s). length s)"
    using length_dropWhile_le [of xml_blank s] xml_attr_shorter [of uni "b # r" a r'] by auto
qed simp

declare xml_attrs.simps [simp del]

text \<open>A comment: two hyphens only at its end.\<close>

fun comment_loop :: "char \<Rightarrow> char \<Rightarrow> string \<Rightarrow> xml_error + string" where
  "comment_loop b0 b1 [] = unexpected_EOF"
| "comment_loop b0 b1 (b # s) =
     (if b0 = CHR ''-'' \<and> b1 = CHR ''-''
      then (if b = CHR ''>'' then Inr s else Inl (Syntax ''invalid sequence \"--\" not allowed in comments'' s))
      else comment_loop b1 b s)"

text \<open>A processing instruction, up to its end; the declaration \<^verbatim>\<open><?xml ...?>\<close> is checked.\<close>

fun pi_loop :: "char \<Rightarrow> string \<Rightarrow> string xml_parser" where
  "pi_loop b0 acc [] = unexpected_EOF"
| "pi_loop b0 acc (b # s) =
     (if b0 = CHR ''?'' \<and> b = CHR ''>'' then Inr (rev (tl acc), s) else pi_loop b (b # acc) s)"

text \<open>\<^verbatim>\<open>procInst\<close>: the quoted value after the first \<open>param=\<close> that a quote follows.\<close>

fun after_prefix :: "string \<Rightarrow> string \<Rightarrow> string option" where
  "after_prefix [] s = Some s"
| "after_prefix (p # ps) [] = None"
| "after_prefix (p # ps) (c # s) = (if p = c then after_prefix ps s else None)"

fun after_infix :: "string \<Rightarrow> string \<Rightarrow> string option" where
  "after_infix p [] = after_prefix p []"
| "after_infix p (c # s) = (case after_prefix p (c # s) of Some r \<Rightarrow> Some r | None \<Rightarrow> after_infix p s)"

lemma after_prefix_shorter: "after_prefix p s = Some r \<Longrightarrow> length r = length s - length p \<and> length p \<le> length s"
  by (induction p s rule: after_prefix.induct) (auto split: if_splits)

lemma after_infix_shorter: "after_infix p s = Some r \<Longrightarrow> length r \<le> length s"
  by (induction p s rule: after_infix.induct) (auto split: option.splits dest: after_prefix_shorter)

function procInst :: "string \<Rightarrow> string \<Rightarrow> string" where
  "procInst param s =
     (case after_infix (param @ ''='') s of
        None \<Rightarrow> []
      | Some [] \<Rightarrow> []
      | Some (c # r) \<Rightarrow>
          if c = CHR 0x22 \<or> c = CHR 0x27 then (if c \<in> set r then takeWhile (\<lambda>b. b \<noteq> c) r else [])
          else procInst param r)"
  by pat_completeness auto
termination
proof (relation "measure (\<lambda>(param, s). length s)")
  fix param s x c r
  assume "after_infix (param @ ''='') s = Some x" "x = c # r"
  then show "((param, r), (param, s)) \<in> measure (\<lambda>(param, s). length s)"
    using after_infix_shorter [of "param @ ''=''" s "c # r"] by simp
qed simp

declare procInst.simps [simp del]

definition is_utf8 :: "string \<Rightarrow> bool" where
  "is_utf8 enc \<longleftrightarrow> length enc = 5 \<and> enc ! 0 \<in> set ''uU'' \<and> enc ! 1 \<in> set ''tT'' \<and> enc ! 2 \<in> set ''fF'' \<and> drop 3 enc = ''-8''"

definition check_declaration :: "string \<Rightarrow> string option" where
  "check_declaration content =
     (if procInst ''version'' content \<noteq> [] \<and> procInst ''version'' content \<noteq> ''1.0''
      then Some (''xml: unsupported version \"'' @ procInst ''version'' content @ ''\"; only version 1.0 is supported'')
      else if procInst ''encoding'' content \<noteq> [] \<and> \<not> is_utf8 (procInst ''encoding'' content)
      then Some (''xml: encoding \"'' @ procInst ''encoding'' content @ ''\" declared but Decoder.CharsetReader is nil'')
      else None)"

text \<open>A directive: quoted text and comments inside do not count for the nesting of angle brackets.\<close>

fun skip_comment :: "char \<Rightarrow> char \<Rightarrow> string \<Rightarrow> xml_error + string" where
  "skip_comment b0 b1 [] = unexpected_EOF"
| "skip_comment b0 b1 (b # s) =
     (if b0 = CHR ''-'' \<and> b1 = CHR ''-'' \<and> b = CHR ''>'' then Inr s else skip_comment b1 b s)"

lemma skip_comment_shorter: "skip_comment b0 b1 s = Inr r \<Longrightarrow> length r < length s"
  by (induction b0 b1 s rule: skip_comment.induct) (auto split: if_splits)

function directive :: "char option \<Rightarrow> nat \<Rightarrow> string \<Rightarrow> xml_error + string" where
  "directive q depth [] = unexpected_EOF"
| "directive q depth (b # s) =
     (case q of
        Some c \<Rightarrow> directive (if b = c then None else q) depth s
      | None \<Rightarrow>
          if b = CHR ''>'' then (if depth = 0 then Inr s else directive None (depth - 1) s)
          else if b = CHR 0x22 \<or> b = CHR 0x27 then directive (Some b) depth s
          else if b = CHR ''<'' then
            (case after_prefix ''!--'' s of
               Some r \<Rightarrow> (case skip_comment (CHR 0x00) (CHR 0x00) r of Inl e \<Rightarrow> Inl e | Inr r \<Rightarrow> directive None depth r)
             | None \<Rightarrow> directive None (depth + 1) s)
          else directive None depth s)"
  by pat_completeness auto
termination
  by (relation "measure (\<lambda>(q, depth, s). length s)") (auto dest!: after_prefix_shorter skip_comment_shorter)

section \<open>Tokens\<close>

datatype xml_token = StartTag xml_name "(xml_name \<times> string) list" bool | EndTag xml_name | Text string | Markup

definition no_value :: "xml_error + string \<Rightarrow> xml_error + xml_token \<times> string" where
  "no_value r = (case r of Inl e \<Rightarrow> Inl e | Inr s \<Rightarrow> Inr (Markup, s))"

text \<open>A fixed sequence of bytes.\<close>

fun expect :: "string \<Rightarrow> string \<Rightarrow> string \<Rightarrow> xml_error + string" where
  "expect msg [] s = Inr s"
| "expect msg (p # ps) [] = unexpected_EOF"
| "expect msg (p # ps) (c # s) = (if p = c then expect msg ps s else Inl (Syntax msg s))"

lemma expect_shorter: "expect msg p s = Inr r \<Longrightarrow> length r \<le> length s"
  by (induction msg p s rule: expect.induct) (auto split: if_splits)

text \<open>What follows \<open></\<close>, \<open><?\<close> and \<open><!\<close>.\<close>

definition end_tag :: "(string \<Rightarrow> bool) \<Rightarrow> xml_token xml_parser" where
  "end_tag uni s =
     (case xml_nsname uni ''expected element name after </'' s of
        Inl e \<Rightarrow> Inl e
      | Inr (n, r) \<Rightarrow>
          (case skip_blanks r of
             [] \<Rightarrow> unexpected_EOF
           | b # r \<Rightarrow>
               if b = CHR ''>'' then Inr (EndTag n, r)
               else Inl (Syntax (''invalid characters between </'' @ snd n @ '' and >'') r)))"

definition instruction :: "(string \<Rightarrow> bool) \<Rightarrow> xml_token xml_parser" where
  "instruction uni s =
     (case xml_name uni ''expected target name after <?'' s of
        Inl e \<Rightarrow> Inl e
      | Inr (target, r) \<Rightarrow>
          (case pi_loop (CHR 0x00) [] (skip_blanks r) of
             Inl e \<Rightarrow> Inl e
           | Inr (content, r) \<Rightarrow>
               (case (if target = ''xml'' then check_declaration content else None) of
                  Some msg \<Rightarrow> Inl (OtherError msg)
                | None \<Rightarrow> Inr (Markup, r))))"

definition markup_tag :: "xml_token xml_parser" where
  "markup_tag s =
     (case s of
        [] \<Rightarrow> unexpected_EOF
      | b # s \<Rightarrow>
          if b = CHR ''-'' then
            (case s of
               [] \<Rightarrow> unexpected_EOF
             | c # s \<Rightarrow>
                 if c = CHR ''-'' then no_value (comment_loop (CHR 0x00) (CHR 0x00) s)
                 else Inl (Syntax ''invalid sequence <!- not part of <!--'' s))
          else if b = CHR ''['' then
            (case expect ''invalid <![ sequence'' ''CDATA['' s of
               Inl e \<Rightarrow> Inl e
             | Inr s \<Rightarrow> (case xml_chars InCdata s of Inl e \<Rightarrow> Inl e | Inr (t, r) \<Rightarrow> Inr (Text t, r)))
          else no_value (directive None 0 s))"

definition start_tag :: "(string \<Rightarrow> bool) \<Rightarrow> xml_token xml_parser" where
  "start_tag uni s =
     (case xml_nsname uni ''expected element name after <'' s of
        Inl e \<Rightarrow> Inl e
      | Inr (n, r) \<Rightarrow>
          (case xml_attrs uni [] r of Inl e \<Rightarrow> Inl e | Inr ((as, closed), r) \<Rightarrow> Inr (StartTag n as closed, r)))"

definition raw_token :: "(string \<Rightarrow> bool) \<Rightarrow> xml_token xml_parser" where
  "raw_token uni s =
     (case s of
        [] \<Rightarrow> Inl EndOfInput
      | b # r \<Rightarrow>
          if b \<noteq> CHR ''<'' then (case xml_chars InContent s of Inl e \<Rightarrow> Inl e | Inr (t, r) \<Rightarrow> Inr (Text t, r))
          else (case r of
                  [] \<Rightarrow> unexpected_EOF
                | c # r' \<Rightarrow>
                    if c = CHR ''/'' then end_tag uni r'
                    else if c = CHR ''?'' then instruction uni r'
                    else if c = CHR ''!'' then markup_tag r'
                    else start_tag uni r))"

lemma text_loop_consumes:
  assumes "text_loop InContent b0 b1 acc (b # s) = Inr (t, r)" "b \<noteq> CHR ''<''"
  shows "length r \<le> length s"
  using assms by (auto split: if_splits sum.splits dest!: text_loop_shorter xml_entity_shorter)

lemma pi_loop_shorter: "pi_loop b0 acc s = Inr (c, r) \<Longrightarrow> length r < length s"
  by (induction b0 acc s rule: pi_loop.induct) (auto split: if_splits)

lemma comment_loop_shorter: "comment_loop b0 b1 s = Inr r \<Longrightarrow> length r < length s"
  by (induction b0 b1 s rule: comment_loop.induct) (auto split: if_splits)

lemma directive_shorter: "directive q depth s = Inr r \<Longrightarrow> length r < length s"
proof (induction s arbitrary: q depth rule: length_induct)
  case (1 s)
  then have IH: "directive q' d' s' = Inr r \<Longrightarrow> length s' < length s \<Longrightarrow> length r < length s'" for q' d' s' by blast
  show ?case
  proof (cases s)
    case (Cons b s')
    have step: "length r < length s" if "directive q' d' s'' = Inr r" "length s'' \<le> length s'" for q' d' s''
      using IH [OF that(1)] that(2) Cons by simp
    show ?thesis using "1.prems" unfolding Cons
      by (simp only: directive.simps split: if_split_asm sum.splits option.splits)
        (auto dest!: after_prefix_shorter skip_comment_shorter dest: step simp: Cons)
  qed (use "1.prems" in simp)
qed

lemma xml_attrs_shorter: "xml_attrs uni as s = Inr (x, r) \<Longrightarrow> length r < length s"
proof (induction s arbitrary: as rule: length_induct)
  case (1 s)
  then have IH: "xml_attrs uni as' s' = Inr (x, r) \<Longrightarrow> length s' < length s \<Longrightarrow> length r < length s'" for as' s' by blast
  show ?case
  proof (cases "skip_blanks s")
    case (Cons b r')
    then have r': "length r' < length s" by (rule length_dropWhile_Cons)
    have step: "length r < length s" if "xml_attrs uni as' s' = Inr (x, r)" "length s' < Suc (length r')" for as' s'
      using IH [OF that(1)] that(2) r' by simp
    show ?thesis using "1.prems" r' unfolding xml_attrs.simps [of uni as s] Cons
      by (auto split: if_splits list.splits sum.splits dest!: xml_attr_shorter dest: step)
  next
    case Nil
    show ?thesis using "1.prems" unfolding xml_attrs.simps [of uni as s] Nil by simp
  qed
qed

declare text_loop.simps [simp del] directive.simps [simp del] comment_loop.simps [simp del] pi_loop.simps [simp del]

lemma end_tag_shorter: "end_tag uni s = Inr (t, r) \<Longrightarrow> length r < length s"
  by (auto simp: end_tag_def split: sum.splits list.splits if_splits dest!: xml_nsname_shorter length_dropWhile_Cons)

lemma pi_after_blanks: "pi_loop b0 acc (skip_blanks s) = Inr (c, r) \<Longrightarrow> length r < length s"
  using length_dropWhile_le [of xml_blank s] by (auto dest: pi_loop_shorter)

lemma instruction_shorter: "instruction uni s = Inr (t, r) \<Longrightarrow> length r < length s"
  by (auto simp: instruction_def split: sum.splits option.splits if_splits dest!: xml_name_shorter pi_after_blanks)

lemma markup_tag_shorter: "markup_tag s = Inr (t, r) \<Longrightarrow> length r \<le> length s"
  by (auto simp: markup_tag_def no_value_def split: sum.splits list.splits if_splits option.splits
      dest!: comment_loop_shorter directive_shorter xml_chars_shorter expect_shorter)

lemma start_tag_shorter: "start_tag uni s = Inr (t, r) \<Longrightarrow> length r < length s"
  by (auto simp: start_tag_def split: sum.splits dest!: xml_nsname_shorter xml_attrs_shorter)

lemma raw_token_shorter: "raw_token uni s = Inr (t, r) \<Longrightarrow> length r < length s"
  by (auto simp: raw_token_def xml_chars_def split: list.splits if_splits sum.splits option.splits
      dest!: end_tag_shorter instruction_shorter markup_tag_shorter start_tag_shorter text_loop_consumes)

section \<open>Elements\<close>

text \<open>\<^verbatim>\<open>translate\<close>: the name space of a prefix.\<close>

type_synonym name_spaces = "(string \<times> string) list"

definition translate :: "name_spaces \<Rightarrow> bool \<Rightarrow> xml_name \<Rightarrow> xml_name" where
  "translate ns isElement n =
     (if fst n = ''xmlns'' \<or> fst n = [] \<and> \<not> isElement \<or> fst n = [] \<and> snd n = ''xmlns'' then n
      else if fst n = ''xml'' then (''http://www.w3.org/XML/1998/namespace'', snd n)
      else case map_of ns (fst n) of Some v \<Rightarrow> (v, snd n) | None \<Rightarrow> n)"

fun declare_spaces :: "(xml_name \<times> string) list \<Rightarrow> name_spaces \<Rightarrow> name_spaces" where
  "declare_spaces [] ns = ns"
| "declare_spaces ((n, v) # as) ns =
     declare_spaces as
       (if fst n = ''xmlns'' then (snd n, v) # ns else if n = ([], ''xmlns'') then ([], v) # ns else ns)"

text \<open>An open element: its name as written and as translated, its attributes, the name spaces outside and its content so far.\<close>

record xml_frame =
  xf_raw :: xml_name
  xf_name :: xml_name
  xf_attrs :: "(xml_name \<times> string) list"
  xf_outer :: name_spaces
  xf_content :: "xml list"

definition open_frame :: "name_spaces \<Rightarrow> xml_name \<Rightarrow> (xml_name \<times> string) list \<Rightarrow> xml_frame" where
  "open_frame ns n as =
     (let inner = declare_spaces as ns
      in \<lparr>xf_raw = n, xf_name = translate inner True n, xf_attrs = map (\<lambda>(m, v). (translate inner False m, v)) as,
          xf_outer = ns, xf_content = []\<rparr>)"

definition frame_element :: "xml_frame \<Rightarrow> xml" where
  "frame_element f = Element (xf_name f) (xf_attrs f) (rev (xf_content f))"

fun add_child :: "xml \<Rightarrow> xml_frame list \<Rightarrow> xml_frame list" where
  "add_child x [] = []"
| "add_child x (f # fs) = f\<lparr>xf_content := x # xf_content f\<rparr> # fs"

text \<open>\<^verbatim>\<open>popElement\<close>: an end tag must match the start tag as written.\<close>

definition closing_error :: "xml_frame list \<Rightarrow> xml_name \<Rightarrow> string option" where
  "closing_error fs n =
     (case fs of
        [] \<Rightarrow> Some (''unexpected end element </'' @ snd n @ ''>'')
      | f # fs \<Rightarrow>
          if snd (xf_raw f) \<noteq> snd n then Some (''element <'' @ snd (xf_raw f) @ ''> closed by </'' @ snd n @ ''>'')
          else if fst (xf_raw f) \<noteq> fst n
          then Some (''element <'' @ snd (xf_raw f) @ ''> in space '' @ fst (xf_raw f) @ '' closed by </'' @ snd n @
                 ''> in space '' @ (if fst n = [] then ''\"\"'' else fst n))
          else None)"

text \<open>
  \<^verbatim>\<open>xml.Unmarshal\<close> reads up to the end of the first element; what comes before it is tokenized and ignored, what comes after
  it is not read.
\<close>

function xml_loop :: "(string \<Rightarrow> bool) \<Rightarrow> xml_frame list \<Rightarrow> name_spaces \<Rightarrow> string \<Rightarrow> xml_error + xml" where
  "xml_loop uni fs ns s =
     (case raw_token uni s of
        Inl e \<Rightarrow> if e = EndOfInput \<and> fs \<noteq> [] then unexpected_EOF else Inl e
      | Inr (tok, r) \<Rightarrow>
          (case tok of
             Markup \<Rightarrow> xml_loop uni fs ns r
           | Text t \<Rightarrow> xml_loop uni (add_child (CharData t) fs) ns r
           | StartTag n as closed \<Rightarrow>
               if closed then
                 (if fs = [] then Inr (frame_element (open_frame ns n as))
                  else xml_loop uni (add_child (frame_element (open_frame ns n as)) fs) ns r)
               else xml_loop uni (open_frame ns n as # fs) (declare_spaces as ns) r
           | EndTag n \<Rightarrow>
               (case closing_error fs n of
                  Some msg \<Rightarrow> Inl (Syntax msg r)
                | None \<Rightarrow>
                    if tl fs = [] then Inr (frame_element (hd fs))
                    else xml_loop uni (add_child (frame_element (hd fs)) (tl fs)) (xf_outer (hd fs)) r)))"
  by pat_completeness auto
termination
  by (relation "measure (\<lambda>(uni, fs, ns, s). length s)") (auto dest: raw_token_shorter)

declare xml_loop.simps [simp del]

definition line_number :: "string \<Rightarrow> string \<Rightarrow> nat" where
  "line_number s rest = 1 + count_list s (CHR 0x0A) - count_list rest (CHR 0x0A)"

definition xml_read :: "(string \<Rightarrow> bool) \<Rightarrow> xml_reader" where
  "xml_read uni s =
     (case xml_loop uni [] [] s of
        Inl (Syntax msg rest) \<Rightarrow>
          Inl (ForeignErr 1 (''XML syntax error on line '' @ dec (line_number s rest) @ '': '' @ msg))
      | Inl (OtherError msg) \<Rightarrow> Inl (ForeignErr 1 msg)
      | Inl EndOfInput \<Rightarrow> Inl (ErrorsNew ''EOF'')
      | Inr x \<Rightarrow> Inr x)"

end
