(* ===== verification/XmlText.thy ===== *)
theory XmlText
  imports XmlRead
begin

text \<open>
  Documents as text, and that the tokenizer reads them back. A tree is written with its special characters as
  entities, an empty text as an empty CDATA section, and a name space through a prefix that the root element declares.
\<close>

section \<open>Writing\<close>

definition escape_char :: "char \<Rightarrow> string" where
  "escape_char c =
     (if c = CHR ''<'' then ''&lt;'' else if c = CHR ''>'' then ''&gt;'' else if c = CHR ''&'' then ''&amp;''
      else if c = CHR 0x22 then ''&quot;'' else if c = CHR 0x0D then ''&#xD;'' else [c])"

definition escape_text :: "string \<Rightarrow> string" where
  "escape_text s = concat (map escape_char s)"

text \<open>\<open>ps\<close>: the prefixes and the name spaces they stand for.\<close>

definition written_name :: "name_spaces \<Rightarrow> xml_name \<Rightarrow> string" where
  "written_name ps n =
     (if fst n = [] then snd n
      else case List.find (\<lambda>p. snd p = fst n) ps of Some p \<Rightarrow> fst p @ '':'' @ snd n | None \<Rightarrow> snd n)"

definition attr_text :: "xml_name \<times> string \<Rightarrow> string" where
  "attr_text a = '' '' @ (if fst (fst a) = [] then [] else fst (fst a) @ '':'') @ snd (fst a) @ ''=\"'' @ escape_text (snd a) @ ''\"''"

fun xml_text :: "name_spaces \<Rightarrow> xml \<Rightarrow> string" where
  "xml_text ps (CharData s) = (if s = [] then ''<![CDATA[]]>'' else escape_text s)"
| "xml_text ps (Element n as cs) =
     ''<'' @ written_name ps n @ concat (map attr_text as) @ ''>'' @ concat (map (xml_text ps) cs) @
     ''</'' @ written_name ps n @ ''>''"

definition space_attrs :: "name_spaces \<Rightarrow> (xml_name \<times> string) list" where
  "space_attrs ps = map (\<lambda>(p, v). ((''xmlns'', p), v)) ps"

fun xml_document :: "name_spaces \<Rightarrow> xml \<Rightarrow> string" where
  "xml_document ps (Element n as cs) =
     ''<'' @ written_name ps n @ concat (map attr_text (space_attrs ps @ as)) @ ''>'' @ concat (map (xml_text ps) cs) @
     ''</'' @ written_name ps n @ ''>''"
| "xml_document ps (CharData s) = escape_text s"

section \<open>What can be written\<close>

definition plain_name :: "string \<Rightarrow> bool" where
  "plain_name n \<longleftrightarrow> n \<noteq> [] \<and> list_all (\<lambda>c. is_ascii c \<and> name_byte c \<and> c \<noteq> CHR '':'') n \<and> (is_alpha (hd n) \<or> hd n = CHR ''_'')"

definition plain_text :: "string \<Rightarrow> bool" where
  "plain_text s \<longleftrightarrow> check_runes s = None"

definition plain_attr :: "xml_name \<times> string \<Rightarrow> bool" where
  "plain_attr a \<longleftrightarrow> fst (fst a) = [] \<and> plain_name (snd (fst a)) \<and> snd (fst a) \<noteq> ''xmlns'' \<and> plain_text (snd a)"

definition known_space :: "name_spaces \<Rightarrow> string \<Rightarrow> bool" where
  "known_space ps v \<longleftrightarrow> v = [] \<or> v \<in> snd ` set ps"

fun no_adjacent :: "xml list \<Rightarrow> bool" where
  "no_adjacent (CharData s # CharData t # xs) = False"
| "no_adjacent (x # xs) = no_adjacent xs"
| "no_adjacent [] = True"

fun writable :: "name_spaces \<Rightarrow> xml \<Rightarrow> bool" where
  "writable ps (CharData s) = plain_text s"
| "writable ps (Element n as cs) =
     (known_space ps (fst n) \<and> plain_name (snd n) \<and> snd n \<noteq> ''xmlns'' \<and> list_all plain_attr as
      \<and> list_all (writable ps) cs \<and> no_adjacent cs)"

definition plain_spaces :: "name_spaces \<Rightarrow> bool" where
  "plain_spaces ps \<longleftrightarrow> distinct (map fst ps) \<and>
     list_all (\<lambda>(p, v). plain_name p \<and> p \<noteq> ''xml'' \<and> p \<noteq> ''xmlns'' \<and> v \<noteq> [] \<and> plain_text v) ps"

section \<open>Text comes back\<close>

lemma escape_Nil [simp]: "escape_text [] = []"
  by (simp add: escape_text_def)

lemma escape_Cons [simp]: "escape_text (c # s) = escape_char c @ escape_text s"
  by (simp add: escape_text_def)

lemma carriage_return: "char_of (13 :: nat) = CHR 0x0D"
  by code_simp

lemma entity_lookup:
  "xml_entity (''lt;'' @ r) = Inr (''<'', r)" "xml_entity (''gt;'' @ r) = Inr (''>'', r)" "xml_entity (''amp;'' @ r) = Inr (''&'', r)"
  "xml_entity (''quot;'' @ r) = Inr ([CHR 0x22], r)" "xml_entity (''#xD;'' @ r) = Inr ([CHR 0x0D], r)"
  by (simp_all add: xml_entity_def named_entity_def name_byte_def entities_def char_ref_def is_hex_letter_def hex_val_def utf8_def carriage_return)

definition escapes_in :: "text_mode \<Rightarrow> bool" where
  "escapes_in q \<longleftrightarrow> q = InContent \<or> q = InQuotes (CHR 0x22)"

lemma text_loop_char:
  assumes "escapes_in q" "b1 \<noteq> CHR 0x0D"
  shows "\<exists>c0 c1. c1 \<noteq> CHR 0x0D \<and> text_loop q b0 b1 acc (escape_char c @ r) = text_loop q c0 c1 (c # acc) r"
proof (cases "c \<in> {CHR ''<'', CHR ''>'', CHR ''&'', CHR 0x22, CHR 0x0D}")
  case True
  then have "text_loop q b0 b1 acc (escape_char c @ r) = text_loop q (CHR 0x00) (CHR 0x00) (c # acc) r"
    using assms entity_lookup [of r] by (auto simp: escape_char_def escapes_in_def text_loop.simps(2))
  then show ?thesis by (intro exI [of _ "CHR 0x00"]) simp
next
  case False
  then have "text_loop q b0 b1 acc (escape_char c @ r) = text_loop q b1 c (c # acc) r" "c \<noteq> CHR 0x0D"
    using assms by (auto simp: escape_char_def escapes_in_def text_loop.simps(2))
  then show ?thesis by blast
qed

lemma text_loop_escape:
  assumes "escapes_in q" "b1 \<noteq> CHR 0x0D"
  shows "\<exists>c0 c1. text_loop q b0 b1 acc (escape_text s @ r) = text_loop q c0 c1 (rev s @ acc) r"
  using assms(2)
proof (induction s arbitrary: b0 b1 acc)
  case (Cons c s)
  obtain c0 c1 where 1: "c1 \<noteq> CHR 0x0D"
      "text_loop q b0 b1 acc (escape_char c @ escape_text s @ r) = text_loop q c0 c1 (c # acc) (escape_text s @ r)"
    using text_loop_char [OF assms(1) Cons.prems] by metis
  with Cons.IH [OF 1(1), of c0 "c # acc"] show ?case by simp
qed auto

lemma xml_chars_content:
  assumes "plain_text s"
  shows "xml_chars InContent (escape_text s @ CHR ''<'' # r) = Inr (s, CHR ''<'' # r)"
proof -
  obtain c0 c1 where "text_loop InContent (CHR 0x00) (CHR 0x00) [] (escape_text s @ CHR ''<'' # r) =
      text_loop InContent c0 c1 (rev s @ []) (CHR ''<'' # r)"
    using text_loop_escape [of InContent "CHR 0x00" "CHR 0x00" "[]" s] unfolding escapes_in_def by blast
  with assms show ?thesis by (simp add: xml_chars_def text_loop.simps(2) plain_text_def)
qed

lemma xml_chars_quoted:
  assumes "plain_text s"
  shows "xml_chars (InQuotes (CHR 0x22)) (escape_text s @ CHR 0x22 # r) = Inr (s, r)"
proof -
  obtain c0 c1 where "text_loop (InQuotes (CHR 0x22)) (CHR 0x00) (CHR 0x00) [] (escape_text s @ CHR 0x22 # r) =
      text_loop (InQuotes (CHR 0x22)) c0 c1 (rev s @ []) (CHR 0x22 # r)"
    using text_loop_escape [of "InQuotes (CHR 0x22)" "CHR 0x00" "CHR 0x00" "[]" s] unfolding escapes_in_def by blast
  with assms show ?thesis by (simp add: xml_chars_def text_loop.simps(2) plain_text_def)
qed

lemma escape_text_hd:
  assumes "s \<noteq> []"
  shows "\<exists>c t. escape_text s = c # t \<and> c \<noteq> CHR ''<''"
  using assms by (cases s) (auto simp: escape_char_def)

section \<open>Names come back\<close>

text \<open>The byte after a name: not part of one.\<close>

definition name_end :: "string \<Rightarrow> bool" where
  "name_end r \<longleftrightarrow> r \<noteq> [] \<and> \<not> name_byte (hd r)"

lemma takeWhile_name:
  assumes "list_all name_byte n" "name_end r"
  shows "takeWhile name_byte (n @ r) = n" "dropWhile name_byte (n @ r) = r"
  using assms by (cases r; auto simp: name_end_def list_all_iff)+

lemma plain_name_bytes: "plain_name n \<Longrightarrow> list_all name_byte n \<and> list_all is_ascii n \<and> CHR '':'' \<notin> set n"
  by (auto simp: plain_name_def list_all_iff)

lemma xml_name_plain:
  assumes "list_all name_byte n" "list_all is_ascii n" "n \<noteq> []" "is_alpha (hd n) \<or> hd n = CHR ''_''" "name_end r"
  shows "xml_name uni none (n @ r) = Inr (n, r)"
proof -
  have "name_byte (hd (n @ r))" "r \<noteq> []" using assms by (cases n; simp add: name_end_def)+
  then show ?thesis using assms takeWhile_name [OF assms(1,5)] by (auto simp: xml_name_def is_name_def Let_def)
qed

lemma xml_nsname_plain:
  assumes "plain_name n" "name_end r"
  shows "xml_nsname uni none (n @ r) = Inr (([], n), r)"
proof -
  have "dropWhile (\<lambda>c. c \<noteq> CHR '':'') n = []" using plain_name_bytes [OF assms(1)] by auto
  then have "tl (dropWhile (\<lambda>c. c \<noteq> CHR '':'') n) = []" by (simp only: list.sel(2))
  moreover have "count_list n (CHR '':'') = 0" using plain_name_bytes [OF assms(1)] by (simp add: count_list_0_iff)
  moreover have "xml_name uni none (n @ r) = Inr (n, r)"
    using assms plain_name_bytes [OF assms(1)] by (intro xml_name_plain) (auto simp: plain_name_def)
  ultimately show ?thesis by (simp add: xml_nsname_def split_name_def Let_def)
qed

lemma xml_nsname_prefixed:
  assumes "plain_name p" "plain_name l" "name_end r"
  shows "xml_nsname uni none (p @ '':'' @ l @ r) = Inr ((p, l), r)"
proof -
  let ?n = "p @ '':'' @ l"
  have bytes: "list_all name_byte ?n" "list_all is_ascii ?n"
    using plain_name_bytes [OF assms(1)] plain_name_bytes [OF assms(2)] by (auto simp: name_byte_def)
  have "takeWhile (\<lambda>c. c \<noteq> CHR '':'') ?n = p" "dropWhile (\<lambda>c. c \<noteq> CHR '':'') ?n = CHR '':'' # l"
    "count_list ?n (CHR '':'') = 1"
    using plain_name_bytes [OF assms(1)] plain_name_bytes [OF assms(2)]
    by (auto simp: takeWhile_append dropWhile_append)
  moreover have "xml_name uni none (?n @ r) = Inr (?n, r)"
    using assms bytes by (intro xml_name_plain) (auto simp: plain_name_def)
  moreover have "p \<noteq> []" "l \<noteq> []" using assms by (auto simp: plain_name_def)
  ultimately show ?thesis by (simp add: xml_nsname_def split_name_def Let_def)
qed

section \<open>Tags come back\<close>

lemma name_end_simps [simp]:
  "name_end (CHR ''>'' # r)" "name_end (CHR ''='' # r)" "name_end (CHR '' '' # r)" "name_end (CHR ''/'' # r)"
  by (simp_all add: name_end_def name_byte_def)

lemma name_byte_not_special: "name_byte c \<Longrightarrow> \<not> xml_blank c \<and> c \<noteq> CHR ''/'' \<and> c \<noteq> CHR ''>'' \<and> c \<noteq> CHR ''?'' \<and> c \<noteq> CHR ''!''"
  by (auto simp: name_byte_def xml_blank_def)

text \<open>The attributes that are written: plain ones and declarations of prefixes.\<close>

definition written_attr :: "xml_name \<times> string \<Rightarrow> bool" where
  "written_attr a \<longleftrightarrow> (fst (fst a) = [] \<or> plain_name (fst (fst a))) \<and> plain_name (snd (fst a)) \<and> plain_text (snd a)"

lemma xml_attr_text:
  assumes "written_attr a"
  shows "xml_attr uni (tl (attr_text a) @ r) = Inr (a, r)"
proof -
  obtain p l v where a: "a = ((p, l), v)" by (metis surj_pair)
  let ?r = "CHR ''='' # CHR 0x22 # escape_text v @ CHR 0x22 # r"
  have "xml_nsname uni none (tl (attr_text a) @ r) = Inr ((p, l), ?r)" for none
    using assms xml_nsname_plain [of l ?r] xml_nsname_prefixed [of p l ?r] by (auto simp: a attr_text_def written_attr_def)
  moreover have "xml_chars (InQuotes (CHR 0x22)) (escape_text v @ CHR 0x22 # r) = Inr (v, r)"
    using assms by (intro xml_chars_quoted) (simp add: a written_attr_def)
  ultimately show ?thesis by (simp add: xml_attr_def xml_blank_def a)
qed

lemma attr_text_hd:
  assumes "written_attr a"
  shows "\<exists>c t. attr_text a = CHR '' '' # c # t \<and> name_byte c"
proof -
  have hd: "\<exists>c t. n = c # t \<and> name_byte c" if "plain_name n" for n
    using that by (cases n) (auto simp: plain_name_def)
  show ?thesis
  proof (cases "fst (fst a) = []")
    case True
    then show ?thesis using assms hd [of "snd (fst a)"] by (auto simp: attr_text_def written_attr_def)
  next
    case False
    then show ?thesis using assms hd [of "fst (fst a)"] by (auto simp: attr_text_def written_attr_def)
  qed
qed

lemma xml_attrs_text:
  assumes "list_all written_attr as"
  shows "xml_attrs uni acc (concat (map attr_text as) @ CHR ''>'' # r) = Inr ((acc @ as, False), r)"
  using assms
proof (induction as arbitrary: acc)
  case Nil
  then show ?case by (simp add: xml_attrs.simps [of uni acc] xml_blank_def)
next
  case (Cons a as)
  then obtain c t where c: "attr_text a = CHR '' '' # c # t" "name_byte c" using attr_text_hd [of a] by auto
  let ?r = "concat (map attr_text as) @ CHR ''>'' # r"
  have "xml_attr uni (c # t @ ?r) = Inr (a, ?r)" using xml_attr_text [of a uni ?r] Cons.prems c by simp
  then show ?case
    using Cons name_byte_not_special [OF c(2)] c
    by (simp add: xml_attrs.simps [of uni acc "CHR '' '' # _"] xml_blank_def)
qed

text \<open>A name as written: it stands for a raw name, which the declared prefixes translate.\<close>

definition raw_name :: "name_spaces \<Rightarrow> xml_name \<Rightarrow> xml_name" where
  "raw_name ps n =
     (if fst n = [] then n else case List.find (\<lambda>p. snd p = fst n) ps of Some p \<Rightarrow> (fst p, snd n) | None \<Rightarrow> n)"

lemma find_space:
  assumes "known_space ps v" "v \<noteq> []"
  obtains p where "List.find (\<lambda>p. snd p = v) ps = Some (p, v)" "(p, v) \<in> set ps"
proof -
  obtain q where q: "List.find (\<lambda>p. snd p = v) ps = Some q"
    using assms by (cases "List.find (\<lambda>p. snd p = v) ps") (auto simp: known_space_def find_None_iff)
  then have "snd q = v" "q \<in> set ps" by (auto simp: find_Some_iff)
  with q show ?thesis by (intro that [of "fst q"]) (metis prod.collapse)+
qed

lemma xml_nsname_written:
  assumes "plain_spaces ps" "known_space ps (fst n)" "plain_name (snd n)" "name_end r"
  shows "xml_nsname uni none (written_name ps n @ r) = Inr (raw_name ps n, r)"
proof (cases "fst n = []")
  case True
  then show ?thesis using xml_nsname_plain [OF assms(3,4)] by (cases n) (simp add: written_name_def raw_name_def)
next
  case False
  then obtain p where p: "List.find (\<lambda>p. snd p = fst n) ps = Some (p, fst n)" "(p, fst n) \<in> set ps"
    using find_space [OF assms(2)] by blast
  then have "plain_name p" using assms(1) by (auto simp: plain_spaces_def list_all_iff)
  with p False show ?thesis using xml_nsname_prefixed [OF _ assms(3,4)] by (simp add: written_name_def raw_name_def)
qed

lemma written_name_hd:
  assumes "plain_spaces ps" "known_space ps (fst n)" "plain_name (snd n)"
  shows "\<exists>c t. written_name ps n = c # t \<and> name_byte c"
proof -
  have hd: "\<exists>c t. l = c # t \<and> name_byte c" if "plain_name l" for l
    using that by (cases l) (auto simp: plain_name_def)
  show ?thesis
  proof (cases "fst n = []")
    case True
    then show ?thesis using hd [OF assms(3)] by (simp add: written_name_def)
  next
    case False
    then obtain p where p: "List.find (\<lambda>p. snd p = fst n) ps = Some (p, fst n)" "(p, fst n) \<in> set ps"
      using find_space [OF assms(2)] by blast
    then have "plain_name p" using assms(1) by (auto simp: plain_spaces_def list_all_iff)
    from hd [OF this] p False show ?thesis by (auto simp: written_name_def)
  qed
qed

lemma attrs_end: "list_all written_attr as \<Longrightarrow> name_end (concat (map attr_text as) @ CHR ''>'' # r)"
  by (cases as) (auto dest!: attr_text_hd)

lemma raw_token_start:
  assumes "plain_spaces ps" "known_space ps (fst n)" "plain_name (snd n)" "list_all written_attr as"
  shows "raw_token uni (CHR ''<'' # written_name ps n @ concat (map attr_text as) @ CHR ''>'' # r)
       = Inr (StartTag (raw_name ps n) as False, r)"
proof -
  obtain c t where c: "written_name ps n = c # t" "name_byte c" using written_name_hd [OF assms(1-3)] by blast
  let ?r = "concat (map attr_text as) @ CHR ''>'' # r"
  have "xml_nsname uni none (c # t @ ?r) = Inr (raw_name ps n, ?r)" for none
    using xml_nsname_written [OF assms(1-3) attrs_end [OF assms(4)]] c(1) by simp
  then show ?thesis
    using name_byte_not_special [OF c(2)] by (simp add: raw_token_def start_tag_def c(1) xml_attrs_text [OF assms(4)])
qed

lemma raw_token_end:
  assumes "plain_spaces ps" "known_space ps (fst n)" "plain_name (snd n)"
  shows "raw_token uni (CHR ''<'' # CHR ''/'' # written_name ps n @ CHR ''>'' # r) = Inr (EndTag (raw_name ps n), r)"
  using xml_nsname_written [OF assms, of "CHR ''>'' # r"] by (simp add: raw_token_def end_tag_def xml_blank_def)

lemma raw_token_text:
  assumes "plain_text s" "s \<noteq> []"
  shows "raw_token uni (escape_text s @ CHR ''<'' # r) = Inr (Text s, CHR ''<'' # r)"
  using escape_text_hd [OF assms(2)] xml_chars_content [OF assms(1), of r] by (auto simp: raw_token_def)

lemma raw_token_empty_text: "raw_token uni (''<![CDATA[]]>'' @ r) = Inr (Text [], r)"
  by (simp add: raw_token_def markup_tag_def xml_chars_def text_loop.simps)

section \<open>Name spaces\<close>

lemma plain_attr_written: "plain_attr a \<Longrightarrow> written_attr a"
  by (simp add: plain_attr_def written_attr_def)

lemma declare_plain: "list_all plain_attr as \<Longrightarrow> declare_spaces as ns = ns"
  by (induction as ns rule: declare_spaces.induct) (auto simp: plain_attr_def)

lemma declare_append: "declare_spaces (as @ bs) ns = declare_spaces bs (declare_spaces as ns)"
  by (induction as ns rule: declare_spaces.induct) auto

lemma declare_prefixes: "declare_spaces (space_attrs ps) ns = rev ps @ ns"
  by (induction ps arbitrary: ns) (auto simp: space_attrs_def)

lemma map_of_rev: "distinct (map fst ps) \<Longrightarrow> map_of (rev ps) = map_of ps"
  by (rule ext) (metis distinct_map distinct_rev map_of_eq_Some_iff not_Some_eq rev_map set_rev)

lemma translate_attrs:
  "list_all plain_attr as \<Longrightarrow> map (\<lambda>(m, v). (translate ns False m, v)) as = as"
  "map (\<lambda>(m, v). (translate ns False m, v)) (space_attrs ps) = space_attrs ps"
  by (induction as) (auto simp: plain_attr_def translate_def space_attrs_def)

lemma translate_raw:
  assumes "plain_spaces ps" "map_of ns = map_of ps" "known_space ps (fst n)" "snd n \<noteq> ''xmlns''"
  shows "translate ns True (raw_name ps n) = n"
proof (cases "fst n = []")
  case True
  moreover have "[] \<notin> fst ` set ps" using assms(1) by (fastforce simp: plain_spaces_def list_all_iff plain_name_def)
  then have "map_of ps [] = None" by (simp only: map_of_eq_None_iff not_False_eq_True)
  ultimately show ?thesis using assms(2,4) by (simp add: raw_name_def translate_def)
next
  case False
  then obtain p where p: "List.find (\<lambda>p. snd p = fst n) ps = Some (p, fst n)" "(p, fst n) \<in> set ps"
    using find_space [OF assms(3)] by blast
  then have "map_of ps p = Some (fst n)" "p \<noteq> ''xml''" "p \<noteq> ''xmlns''" "p \<noteq> []"
    using assms(1) by (auto simp: plain_spaces_def list_all_iff plain_name_def)
  with p False assms(2) show ?thesis by (simp add: raw_name_def translate_def)
qed

section \<open>Trees come back\<close>

definition add_children :: "xml list \<Rightarrow> xml_frame list \<Rightarrow> xml_frame list" where
  "add_children cs fs = foldl (\<lambda>fs x. add_child x fs) fs cs"

lemma add_children_frame: "add_children cs (f # fs) = f\<lparr>xf_content := rev cs @ xf_content f\<rparr> # fs"
  by (induction cs arbitrary: f) (simp_all add: add_children_def)

lemma add_child_Nil [simp]: "add_child x fs = [] \<longleftrightarrow> fs = []"
  by (cases fs) simp_all

text \<open>A non-empty text must be followed by a tag.\<close>

definition ends_text :: "xml \<Rightarrow> string \<Rightarrow> bool" where
  "ends_text x r \<longleftrightarrow> (case x of CharData s \<Rightarrow> s \<noteq> [] \<longrightarrow> (\<exists>t. r = CHR ''<'' # t) | _ \<Rightarrow> True)"

lemma element_text_hd: "xml_text ps (Element n as cs) = CHR ''<'' # tl (xml_text ps (Element n as cs))"
  by simp

lemma no_adjacent_tl:
  assumes "no_adjacent (x # cs)"
  shows "no_adjacent cs"
proof (cases cs)
  case (Cons y ys)
  then show ?thesis using assms by (cases x; cases y) simp_all
qed simp

lemma read_children:
  assumes "\<And>x fs r. x \<in> set cs \<Longrightarrow> writable ps x \<Longrightarrow> ends_text x r \<Longrightarrow> fs \<noteq> [] \<Longrightarrow>
      xml_loop uni fs ns (xml_text ps x @ r) = xml_loop uni (add_child x fs) ns r"
    and "list_all (writable ps) cs" "no_adjacent cs" "fs \<noteq> []"
  shows "xml_loop uni fs ns (concat (map (xml_text ps) cs) @ CHR ''<'' # r) = xml_loop uni (add_children cs fs) ns (CHR ''<'' # r)"
  using assms
proof (induction cs arbitrary: fs)
  case Nil
  then show ?case by (simp add: add_children_def)
next
  case (Cons x cs)
  let ?r = "concat (map (xml_text ps) cs) @ CHR ''<'' # r"
  have "ends_text x ?r"
  proof (cases cs)
    case (Cons y ys)
    then show ?thesis using Cons.prems(3) by (cases x; cases y) (auto simp: ends_text_def)
  qed (auto simp: ends_text_def split: xml.splits)
  then have "xml_loop uni fs ns (xml_text ps x @ ?r) = xml_loop uni (add_child x fs) ns ?r"
    using Cons.prems by simp
  also have "no_adjacent cs" using no_adjacent_tl [OF Cons.prems(3)] .
  then have "xml_loop uni (add_child x fs) ns ?r = xml_loop uni (add_children cs (add_child x fs)) ns (CHR ''<'' # r)"
    using Cons.prems by (intro Cons.IH) auto
  finally show ?case by (simp add: add_children_def)
qed

lemma loop_token:
  assumes "raw_token uni s = Inr (tok, r)"
  shows "xml_loop uni fs ns s =
    (case tok of
       Markup \<Rightarrow> xml_loop uni fs ns r
     | Text t \<Rightarrow> xml_loop uni (add_child (CharData t) fs) ns r
     | StartTag n as closed \<Rightarrow>
         if closed then
           (if fs = [] then Inr (frame_element (open_frame ns n as))
            else xml_loop uni (add_child (frame_element (open_frame ns n as)) fs) ns r)
         else xml_loop uni (open_frame ns n as # fs) (declare_spaces as ns) r
     | EndTag n \<Rightarrow>
         (case closing_error fs n of
            Some msg \<Rightarrow> Inl (Syntax msg r)
          | None \<Rightarrow>
              if tl fs = [] then Inr (frame_element (hd fs))
              else xml_loop uni (add_child (frame_element (hd fs)) (tl fs)) (xf_outer (hd fs)) r))"
  by (simp add: xml_loop.simps [of uni fs ns s] assms)

lemma read_element:
  assumes "plain_spaces ps" "map_of ns = map_of ps" "writable ps x" "ends_text x r" "fs \<noteq> []"
  shows "xml_loop uni fs ns (xml_text ps x @ r) = xml_loop uni (add_child x fs) ns r"
  using assms(3-5)
proof (induction x arbitrary: fs r)
  case (CharData s)
  show ?case
  proof (cases "s = []")
    case True
    then show ?thesis using loop_token [OF raw_token_empty_text] by simp
  next
    case False
    with CharData.prems obtain t where r: "r = CHR ''<'' # t" by (auto simp: ends_text_def)
    have "plain_text s" using CharData.prems by simp
    from loop_token [OF raw_token_text [OF this False]] show ?thesis using False by (simp add: r)
  qed
next
  case (Element n as cs)
  then have n: "known_space ps (fst n)" "plain_name (snd n)" "snd n \<noteq> ''xmlns''" and as: "list_all plain_attr as"
    and cs: "list_all (writable ps) cs" "no_adjacent cs"
    by simp_all
  have "list_all written_attr as" using as by (auto simp: list_all_iff plain_attr_written)
  note start = raw_token_start [OF assms(1) n(1,2) this]
  define f where "f = open_frame ns (raw_name ps n) as"
  have f: "xf_raw f = raw_name ps n" "xf_outer f = ns" "frame_element (f\<lparr>xf_content := rev cs\<rparr>) = Element n as cs" "xf_content f = []"
    using translate_raw [OF assms(1,2) n(1,3)]
    by (simp_all add: f_def open_frame_def Let_def frame_element_def declare_plain [OF as] translate_attrs(1) [OF as])
  let ?tail = "CHR ''/'' # written_name ps n @ CHR ''>'' # r"
  have "xml_loop uni fs ns (xml_text ps (Element n as cs) @ r) =
      xml_loop uni (f # fs) ns (concat (map (xml_text ps) cs) @ CHR ''<'' # ?tail)"
    using loop_token [OF start] by (simp add: f_def declare_plain [OF as])
  also have "\<dots> = xml_loop uni (f\<lparr>xf_content := rev cs\<rparr> # fs) ns (CHR ''<'' # ?tail)"
    using read_children [OF Element.IH cs, of "f # fs"] f(4) by (simp add: add_children_frame)
  also have "\<dots> = xml_loop uni (add_child (Element n as cs) fs) ns r"
    using loop_token [OF raw_token_end [OF assms(1) n(1,2)]] Element.prems(3) f by (simp add: closing_error_def)
  finally show ?case .
qed

text \<open>A document is read back, with the declarations of the prefixes as attributes of its root.\<close>

lemma xml_read_document:
  assumes "plain_spaces ps" "writable ps (Element n as cs)"
  shows "xml_read uni (xml_document ps (Element n as cs)) = Inr (Element n (space_attrs ps @ as) cs)"
proof -
  let ?as = "space_attrs ps @ as"
  have n: "known_space ps (fst n)" "plain_name (snd n)" "snd n \<noteq> ''xmlns''" and as: "list_all plain_attr as"
    and cs: "list_all (writable ps) cs" "no_adjacent cs"
    using assms(2) by simp_all
  have "plain_name ''xmlns''" by (simp add: plain_name_def name_byte_def)
  then have "list_all written_attr (space_attrs ps)"
    using assms(1) by (auto simp: list_all_iff space_attrs_def written_attr_def plain_spaces_def)
  then have "list_all written_attr ?as" using as by (auto simp: list_all_iff plain_attr_written)
  note start = raw_token_start [OF assms(1) n(1,2) this]
  define ns where "ns = declare_spaces ?as []"
  have "ns = rev ps" by (simp add: ns_def declare_append declare_plain [OF as] declare_prefixes)
  then have ns: "map_of ns = map_of ps" using assms(1) map_of_rev [of ps] by (simp add: plain_spaces_def)
  define f where "f = open_frame [] (raw_name ps n) ?as"
  have f: "xf_raw f = raw_name ps n" "frame_element (f\<lparr>xf_content := rev cs\<rparr>) = Element n ?as cs" "xf_content f = []"
    using translate_raw [OF assms(1) ns n(1,3)]
    by (simp_all add: f_def open_frame_def Let_def frame_element_def ns_def translate_attrs(1) [OF as] translate_attrs(2))
  have "xml_loop uni [] [] (xml_document ps (Element n as cs)) =
      xml_loop uni [f] ns (concat (map (xml_text ps) cs) @ CHR ''<'' # CHR ''/'' # written_name ps n @ CHR ''>'' # [])"
    using loop_token [OF start] by (simp add: f_def ns_def)
  also have "\<dots> = xml_loop uni [f\<lparr>xf_content := rev cs\<rparr>] ns (CHR ''<'' # CHR ''/'' # written_name ps n @ CHR ''>'' # [])"
    using read_children [OF read_element [OF assms(1) ns] cs, of "[f]"] f(3) by (simp add: add_children_frame)
  also have "\<dots> = Inr (Element n ?as cs)"
    using loop_token [OF raw_token_end [OF assms(1) n(1,2)]] f by (simp add: closing_error_def)
  finally show ?thesis by (simp add: xml_read_def)
qed

end
