(* ===== verification/DocumentProps.thy ===== *)
theory DocumentProps
  imports ProcessProps XmlText
begin

text \<open>
  What the documents of libvirtd mean for the published status: every value of the three schemas has a
  document that decodes to it, content the schemas do not name is ignored, the names of devices and
  features are those of their elements, and which documents of a domain keep the agent from
  publishing a status at all.
\<close>

section \<open>What decoding keeps\<close>

lemma fold_res_keeps:
  assumes "fold_res f xs a = Inr b" "\<And>x a b. x \<in> set xs \<Longrightarrow> f x a = Inr b \<Longrightarrow> g b = g a"
  shows "g b = g a"
  using assms
proof (induction xs arbitrary: a)
  case (Cons x xs)
  then obtain a' where a': "f x a = Inr a'" "fold_res f xs a' = Inr b" by (auto simp: and_then_eq_Inr)
  have "g b = g a'" by (rule Cons.IH [OF a'(2)]) (use Cons.prems(2) in auto)
  moreover have "g a' = g a" using Cons.prems(2) [of x a a'] a'(1) by simp
  ultimately show ?case by simp
qed simp

lemma fold_res_fails:
  assumes "x \<in> set xs" "\<And>a. \<exists>e. f x a = Inl e"
  shows "\<exists>e. fold_res f xs a = Inl e"
  using assms(1)
proof (induction xs arbitrary: a)
  case (Cons y ys)
  show ?case
  proof (cases "f y a")
    case (Inr b)
    with assms(2) [of a] have "x \<noteq> y" by auto
    with Cons Inr show ?thesis by auto
  qed simp
qed simp

lemma fold_res_last:
  assumes "fold_res f xs a = Inr b" "\<And>x a b. x \<in> set xs \<Longrightarrow> f x a = Inr b \<Longrightarrow> g b = g a @ h x"
  shows "g b = g a @ concat (map h xs)"
  using assms
proof (induction xs arbitrary: a)
  case (Cons x xs)
  then obtain a' where a': "f x a = Inr a'" "fold_res f xs a' = Inr b" by (auto simp: and_then_eq_Inr)
  have "g b = g a' @ concat (map h xs)" by (rule Cons.IH [OF a'(2)]) (use Cons.prems(2) in auto)
  moreover have "g a' = g a @ h x" using Cons.prems(2) [of x a a'] a'(1) by simp
  ultimately show ?case by simp
qed simp

text \<open>A failing child makes the element fail.\<close>

lemma unmarshal_struct_fails:
  assumes "x \<in> set cs" "\<And>a. \<exists>e. set_child fs x a = Inl e"
  shows "\<exists>e. unmarshal_struct fs (Element n as cs) a = Inl e"
proof (cases "and_then (start_name fs n a) (set_attrs fs as)")
  case (Inl e)
  then show ?thesis by (cases "start_name fs n a") auto
next
  case (Inr b)
  then obtain a' where "start_name fs n a = Inr a'" "set_attrs fs as a' = Inr b" by (auto simp: and_then_eq_Inr)
  moreover obtain e where "fold_res (set_child fs) cs b = Inl e" using fold_res_fails [where f = "set_child fs", OF assms] by blast
  ultimately show ?thesis by simp
qed

section \<open>The elements of a domain\<close>

text \<open>Local names of child elements.\<close>

fun local_name :: "xml \<Rightarrow> string option" where
  "local_name (CharData s) = None"
| "local_name (Element n as cs) = Some (snd n)"

definition domain_children :: "string list" where
  "domain_children =
     [''name'', ''uuid'', ''metadata'', ''memory'', ''currentMemory'', ''memoryBacking'', ''vcpu'', ''cputune'',
      ''numatune'', ''resource'', ''os'', ''cpu'', ''clock'', ''on_poweroff'', ''on_reboot'', ''on_crash'', ''devices'']"

lemma known_domain_child:
  "known_child fields_DomainInfo (Element n as cs) \<longleftrightarrow> snd n \<in> set domain_children"
  by (simp add: known_child_def field_of_def fields_DomainInfo_def domain_children_def)

lemma known_domain_attr: "known_attr fields_DomainInfo l \<longleftrightarrow> l \<in> {''type'', ''id''}"
  by (simp add: fields_DomainInfo_def)

lemma numatune_kept:
  assumes "set_child fields_DomainInfo x a = Inr b" "local_name x \<noteq> Some ''numatune''"
  shows "dom_NumaTune b = dom_NumaTune a"
proof (cases x)
  case (Element n as cs)
  with assms show ?thesis
    by (simp add: field_of_def fields_DomainInfo_def inside_def and_then_eq_Inr split: if_splits) auto
qed (use assms in simp)

lemma domain_attrs_keep_numatune:
  assumes "set_attrs fields_DomainInfo as a = Inr b"
  shows "dom_NumaTune b = dom_NumaTune a"
  using assms unfolding set_attrs_def
proof (rule fold_res_keeps)
  fix p :: "xml_name \<times> string" and a b :: DomainInfo
  assume "fold_res (set_attr p) fields_DomainInfo a = Inr b"
  then show "dom_NumaTune b = dom_NumaTune a"
    by (cases p) (auto simp: fields_DomainInfo_def store_def and_then_eq_Inr split: if_splits)
qed

text \<open>Without a \<^verbatim>\<open>numatune\<close> element the pointer stays \<^verbatim>\<open>nil\<close>.\<close>

lemma numatune_absent:
  assumes "unmarshal_DomainInfo (Element n as cs) zero_DomainInfo = Inr d" "Some ''numatune'' \<notin> local_name ` set cs"
  shows "dom_NumaTune d = None"
proof -
  have "start_name fields_DomainInfo n a = Inr a" "set_text fields_DomainInfo s a = Inr a" for a s
    by (simp_all add: fields_DomainInfo_def)
  then obtain a where a: "set_attrs fields_DomainInfo as zero_DomainInfo = Inr a" "fold_res (set_child fields_DomainInfo) cs a = Inr d"
    using assms(1) by (auto simp: unmarshal_DomainInfo_def and_then_eq_Inr)
  have "dom_NumaTune d = dom_NumaTune a"
    using a(2) by (rule fold_res_keeps) (use numatune_kept assms(2) in \<open>metis image_eqI\<close>)
  also have "\<dots> = None" using domain_attrs_keep_numatune [OF a(1)] by (simp add: zero_DomainInfo_def)
  finally show ?thesis .
qed

text \<open>An \<^verbatim>\<open>instance\<close> element of another name space fails, and with it the metadata and the domain.\<close>

lemma foreign_instance_metadata:
  assumes "Element (ns, ''instance'') as' is \<in> set ms" "ns \<noteq> nova_ns"
  shows "\<exists>e. unmarshal_DomainMetadata (Element n as ms) a = Inl e"
  unfolding unmarshal_DomainMetadata_def
proof (rule unmarshal_struct_fails [OF assms(1)])
  have "nova_ns \<noteq> []" by (simp add: nova_ns_def)
  then have "\<exists>e. unmarshal_NovaInstance (Element (ns, ''instance'') as' is) b = Inl e" for b
    using assms(2) by (simp add: unmarshal_NovaInstance_def fields_NovaInstance_def)
  then show "\<exists>e. set_child fields_DomainMetadata (Element (ns, ''instance'') as' is) a = Inl e" for a
    by (simp add: fields_DomainMetadata_def field_of_def inside_def pointer_def)
       (metis and_then_simps(1))
qed

lemma foreign_instance_domain:
  assumes "Element (ms_ns, ''metadata'') as' ms \<in> set cs" "Element (ns, ''instance'') as'' bs \<in> set ms" "ns \<noteq> nova_ns"
  shows "\<exists>e. unmarshal_DomainInfo (Element n as cs) a = Inl e"
  unfolding unmarshal_DomainInfo_def
proof (rule unmarshal_struct_fails [OF assms(1)])
  fix a :: DomainInfo
  have "field_of fields_DomainInfo (ms_ns, ''metadata'') =
      Some (inside dom_Metadata dom_Metadata_update (pointer zero_DomainMetadata unmarshal_DomainMetadata))"
    by (simp add: field_of_def fields_DomainInfo_def)
  moreover have "\<exists>e. unmarshal_DomainMetadata (Element (ms_ns, ''metadata'') as' ms) b = Inl e" for b
    using foreign_instance_metadata [OF assms(2,3)] .
  ultimately show "\<exists>e. set_child fields_DomainInfo (Element (ms_ns, ''metadata'') as' ms) a = Inl e"
    by (simp add: inside_def pointer_def) (metis and_then_simps(1))
qed

section \<open>What a published status needs\<close>

lemma run_processors_all:
  "run_processors ps hv tr = (Ret (hv', None), tr') \<Longrightarrow> p \<in> set ps \<Longrightarrow> \<exists>h t h' t'. p h t = (Ret (h', None), t')"
proof (induction ps arbitrary: hv tr)
  case (Cons q ps)
  then show ?case by (auto split: prod.splits outcome.splits option.splits)
qed simp

lemma describe_domains_decoded:
  assumes "fst (describe_domains V rd ds infos tr) = Inr r" "d \<in> set ds" "\<And>t. v_GetXMLDesc V t d = Inr doc"
  shows "\<exists>i \<in> set r. DomainInfo_of rd doc = Inr i"
proof -
  have keep: "set infos \<subseteq> set r" if "fst (describe_domains V rd ds infos tr) = Inr r" for ds infos tr
    using that by (induction ds arbitrary: infos tr) (force simp: ext_def split: sum.splits)+
  show ?thesis using assms(1,2)
  proof (induction ds arbitrary: infos tr)
    case (Cons x ds)
    then obtain doc' i where x: "v_GetXMLDesc V tr x = Inr doc'" "DomainInfo_of rd doc' = Inr i"
      and rest: "fst (describe_domains V rd ds (infos @ [i]) (tr @ [VGetXMLDesc x])) = Inr r"
      by (auto simp: ext_def split: sum.splits)
    show ?case
    proof (cases "x = d")
      case True
      then show ?thesis using x assms(3) keep [OF rest] by auto
    next
      case False
      then show ?thesis using Cons.IH [OF rest] Cons.prems(2) by auto
    qed
  qed simp
qed

lemma alloc_domains_all:
  assumes "alloc_domains Q ds (mem, cpus, cells) = Ret (Inr st)" "d \<in> set ds"
  shows "domain_stop (fst ` set cells) d = None"
  using alloc_domains_outcome [where cells = cells and ds = ds and Q = Q and mem = mem and cpus = cpus] assms
  by (auto split: option.splits if_splits simp: find_None_iff)

lemma addAllocationCapacity_needs:
  assumes "addAllocationCapacity Q ord C hv tr = (Ret (hv', None), tr')"
  obtains t t' ds keys where "domainInfoClient C [] t = (Inr ds, t')" "\<forall>d \<in> set ds. domain_stop keys d = None"
proof -
  obtain caps t where caps: "capabilitiesClient C tr = (Inr caps, t)"
    using assms by (auto simp: addAllocationCapacity_def split: prod.splits sum.splits)
  obtain m p cells where cells: "cells_by_id Q (caps_cells caps) (NewQuantity Q 0 BinarySI) (NewQuantity Q 0 DecimalSI) [] = Inr (m, p, cells)"
    using assms caps by (auto simp: addAllocationCapacity_def split: prod.splits sum.splits)
  obtain ds t' where ds: "domainInfoClient C [] t = (Inr ds, t')"
    using assms caps cells by (auto simp: addAllocationCapacity_def split: prod.splits sum.splits)
  let ?r = "alloc_domains Q ds (NewQuantity Q 0 BinarySI, NewQuantity Q 0 DecimalSI, cells)"
  have "?r \<noteq> Panic s" "?r \<noteq> Blocked" "?r \<noteq> Ret (Inl e)" for s e
    using assms caps cells ds by (auto simp: addAllocationCapacity_def)
  then obtain st where "?r = Ret (Inr st)" by (metis outcome.exhaust sum.exhaust)
  then have "\<forall>d \<in> set ds. domain_stop (fst ` set cells) d = None" by (intro ballI) (rule alloc_domains_all)
  with that [OF ds] show thesis .
qed

text \<open>A status is published only if the document of every listed domain decodes to a usable domain.\<close>

lemma Process_needs_domain:
  assumes "Process Q oob ord (libvirt_clients V rd) l hv tr = (Ret (hv', None), tr')"
    and "\<And>t. v_ListAllDomains V t [] = Inr ds" "d \<in> set ds" "\<And>t. v_GetXMLDesc V t d = Inr doc"
  shows "\<exists>i keys. DomainInfo_of rd doc = Inr i \<and> domain_stop keys i = None"
proof -
  let ?C = "libvirt_clients V rd"
  have "addAllocationCapacity Q ord ?C \<in> set (processors Q oob ord ?C l)" by (simp add: processors_def)
  then obtain h t h' t' where "addAllocationCapacity Q ord ?C h t = (Ret (h', None), t')"
    using run_processors_all [OF assms(1) [unfolded Process_def]] by blast
  then obtain t t' r keys where r: "domainInfoClient ?C [] t = (Inr r, t')" "\<forall>d \<in> set r. domain_stop keys d = None"
    by (rule addAllocationCapacity_needs)
  then have "fst (describe_domains V rd ds [] (t @ [VListAllDomains []])) = Inr r"
    using assms(2) by (simp add: libvirt_clients_def dominfo_Get_def ext_def)
  from describe_domains_decoded [OF this assms(3,4)] r(2) show ?thesis by blast
qed

section \<open>Devices and features\<close>

text \<open>The local names of the child elements.\<close>

definition element_names :: "xml list \<Rightarrow> string list" where
  "element_names cs = concat (map (\<lambda>x. case local_name x of None \<Rightarrow> [] | Some n \<Rightarrow> [n]) cs)"

definition names_below :: "string \<Rightarrow> xml list \<Rightarrow> string list" where
  "names_below n cs =
     concat (map (\<lambda>x. case x of CharData s \<Rightarrow> [] | Element m as ds \<Rightarrow> if snd m = n then element_names ds else []) cs)"

text \<open>A struct with \<^verbatim>\<open>XMLName\<close> keeps the name of its element.\<close>

lemma device_name:
  assumes "unmarshal_DomainCapabilitiesDevice (Element n as cs) a = Inr d"
  shows "device_XMLName d = snd n"
proof -
  let ?fs = "fields_DomainCapabilitiesDevice"
  obtain b where b: "set_attrs ?fs as (a\<lparr>device_XMLName := snd n\<rparr>) = Inr b" "fold_res (set_child ?fs) cs b = Inr d"
    using assms by (auto simp: unmarshal_DomainCapabilitiesDevice_def fields_DomainCapabilitiesDevice_def and_then_eq_Inr)
  have "device_XMLName d = device_XMLName b"
    using b(2)
  proof (rule fold_res_keeps)
    fix x a b assume "set_child ?fs x a = Inr b"
    then show "device_XMLName b = device_XMLName a"
      by (cases x) (auto simp: fields_DomainCapabilitiesDevice_def field_of_def inside_def and_then_eq_Inr split: if_splits)
  qed
  also have "\<dots> = device_XMLName (a\<lparr>device_XMLName := snd n\<rparr>)"
    using b(1) unfolding set_attrs_def
  proof (rule fold_res_keeps)
    fix p a b assume "fold_res (set_attr p) ?fs a = Inr b"
    then show "device_XMLName b = device_XMLName a"
      by (cases p) (auto simp: fields_DomainCapabilitiesDevice_def store_def and_then_eq_Inr split: if_splits)
  qed
  finally show ?thesis by simp
qed

lemma feature_name:
  assumes "unmarshal_DomainCapabilitiesFeature (Element n as cs) a = Inr d"
  shows "feature_XMLName d = snd n"
proof -
  let ?fs = "fields_DomainCapabilitiesFeature"
  have child: "set_child ?fs x a = Inr a" for x a
    by (cases x) (auto simp: fields_DomainCapabilitiesFeature_def field_of_def)
  have "set_attrs ?fs as (a\<lparr>feature_XMLName := snd n\<rparr>) = Inr d"
    using assms
    by (auto simp: unmarshal_DomainCapabilitiesFeature_def fields_DomainCapabilitiesFeature_def and_then_eq_Inr
        fold_res_skip child [unfolded fields_DomainCapabilitiesFeature_def])
  then have "feature_XMLName d = feature_XMLName (a\<lparr>feature_XMLName := snd n\<rparr>)"
    unfolding set_attrs_def
  proof (rule fold_res_keeps)
    fix p a b assume "fold_res (set_attr p) ?fs a = Inr b"
    then show "feature_XMLName b = feature_XMLName a"
      by (cases p) (auto simp: fields_DomainCapabilitiesFeature_def store_def and_then_eq_Inr split: if_splits)
  qed
  then show ?thesis by simp
qed

lemma devices_names:
  assumes "unmarshal_DomainCapabilitiesDevices (Element n as cs) a = Inr b"
  shows "map device_XMLName (devices_Devices b) = map device_XMLName (devices_Devices a) @ element_names cs"
proof -
  let ?fs = "fields_DomainCapabilitiesDevices"
  have "fold_res (set_child ?fs) cs a = Inr b"
    using assms by (auto simp: unmarshal_DomainCapabilitiesDevices_def fields_DomainCapabilitiesDevices_def set_attrs_def
        fold_res_skip and_then_eq_Inr)
  then show ?thesis unfolding element_names_def
  proof (rule fold_res_last)
    fix x a b assume "set_child ?fs x a = Inr b"
    then show "map device_XMLName (devices_Devices b) =
        map device_XMLName (devices_Devices a) @ (case local_name x of None \<Rightarrow> [] | Some n \<Rightarrow> [n])"
      by (cases x) (auto simp: fields_DomainCapabilitiesDevices_def field_of_def inside_def slice_def and_then_eq_Inr device_name)
  qed
qed

lemma features_names:
  assumes "unmarshal_DomainCapabilitiesFeatures (Element n as cs) a = Inr b"
  shows "map feature_XMLName (features_Features b) = map feature_XMLName (features_Features a) @ element_names cs"
proof -
  let ?fs = "fields_DomainCapabilitiesFeatures"
  have "fold_res (set_child ?fs) cs a = Inr b"
    using assms by (auto simp: unmarshal_DomainCapabilitiesFeatures_def fields_DomainCapabilitiesFeatures_def set_attrs_def
        fold_res_skip and_then_eq_Inr)
  then show ?thesis unfolding element_names_def
  proof (rule fold_res_last)
    fix x a b assume "set_child ?fs x a = Inr b"
    then show "map feature_XMLName (features_Features b) =
        map feature_XMLName (features_Features a) @ (case local_name x of None \<Rightarrow> [] | Some n \<Rightarrow> [n])"
      by (cases x) (auto simp: fields_DomainCapabilitiesFeatures_def field_of_def inside_def slice_def and_then_eq_Inr feature_name)
  qed
qed

text \<open>Only the elements \<^verbatim>\<open>devices\<close> and \<^verbatim>\<open>features\<close> of a document touch the two lists.\<close>

definition device_names :: "DomainCapabilities \<Rightarrow> string list" where
  "device_names dc = map device_XMLName (devices_Devices (dcaps_Devices dc))"

definition feature_names :: "DomainCapabilities \<Rightarrow> string list" where
  "feature_names dc = map feature_XMLName (features_Features (dcaps_Features dc))"

lemma dcaps_child_devices:
  assumes "set_child fields_DomainCapabilities x a = Inr b"
  shows "device_names b = device_names a
           @ (case x of CharData s \<Rightarrow> [] | Element m as ds \<Rightarrow> if snd m = ''devices'' then element_names ds else [])"
proof (cases x)
  case (Element n as cs)
  with assms show ?thesis
    by (auto simp: device_names_def fields_DomainCapabilities_def field_of_def inside_def and_then_eq_Inr devices_names
        split: if_splits)
qed (use assms in simp)

lemma dcaps_child_features:
  assumes "set_child fields_DomainCapabilities x a = Inr b"
  shows "feature_names b = feature_names a
           @ (case x of CharData s \<Rightarrow> [] | Element m as ds \<Rightarrow> if snd m = ''features'' then element_names ds else [])"
proof (cases x)
  case (Element n as cs)
  with assms show ?thesis
    by (auto simp: feature_names_def fields_DomainCapabilities_def field_of_def inside_def and_then_eq_Inr features_names
        split: if_splits)
qed (use assms in simp)

lemma dcaps_children:
  assumes "unmarshal_DomainCapabilities (Element n as cs) a = Inr b"
  shows "fold_res (set_child fields_DomainCapabilities) cs a = Inr b"
  using assms
  by (auto simp: unmarshal_DomainCapabilities_def fields_DomainCapabilities_def set_attrs_def fold_res_skip and_then_eq_Inr)

section \<open>Properties\<close>

text \<open>The prefix libvirt writes for the name space of Nova, declared at the root of the document.\<close>

definition nova_prefix :: name_spaces where
  "nova_prefix = [(''nova'', nova_ns)]"

lemma nova_prefix_plain: "plain_spaces nova_prefix"
  by (simp add: nova_prefix_def plain_spaces_def plain_name_def plain_text_def nova_ns_def name_byte_def)

lemma nova_declaration_ignored:
  "unmarshal_DomainInfo (Element n (space_attrs nova_prefix @ as) cs) d = unmarshal_DomainInfo (Element n as cs) d"
proof -
  let ?ka = "filter (\<lambda>p. known_attr fields_DomainInfo (snd (fst p)))" and ?kc = "filter (known_child fields_DomainInfo)"
  have "?ka (space_attrs nova_prefix @ as) = ?ka as" by (simp add: known_domain_attr space_attrs_def nova_prefix_def)
  then show ?thesis unfolding unmarshal_DomainInfo_def by (metis unmarshal_struct_known)
qed

lemma read_rendered:
  assumes "plain_spaces ps" "writable ps x" "x = Element n as cs"
  shows "xml_Unmarshal (xml_read uni) d zero (xml_document ps x) = d (Element n (space_attrs ps @ as) cs) zero"
  using xml_read_document [of ps n as cs uni] assms by (simp add: xml_Unmarshal_def)

lemma read_rendered_plain:
  assumes "writable [] x" "x = Element n as cs"
  shows "xml_Unmarshal (xml_read uni) d zero (xml_document [] x) = d x zero"
  using read_rendered [OF _ assms, of uni d zero] assms(2) by (simp add: plain_spaces_def space_attrs_def)

text \<open>
  C22. The tags of the three schemas lose nothing, down to the bytes: the document a value of \<^verbatim>\<open>Capabilities\<close>, of
  \<^verbatim>\<open>DomainCapabilities\<close> or of \<^verbatim>\<open>DomainInfo\<close> is written as, with entities, quoted attributes and a declared prefix for the
  elements of Nova, is tokenized and decoded to that value, whatever the name of the root element. The strings of the value
  must be characters of XML, the names of devices and features names, and the Nova metadata must carry the name its struct asks for.
\<close>

theorem documents_roundtrip:
  assumes "nova_domain info" "writable [] (render_Capabilities n caps)" "writable [] (render_DomainCapabilities n dcaps)"
    "writable nova_prefix (render_DomainInfo n info)"
  shows "Capabilities_of (xml_read uni) (xml_document [] (render_Capabilities n caps)) = Inr caps
       \<and> DomainCapabilities_of (xml_read uni) (xml_document [] (render_DomainCapabilities n dcaps)) = Inr dcaps
       \<and> DomainInfo_of (xml_read uni) (xml_document nova_prefix (render_DomainInfo n info)) = Inr info"
proof (intro conjI)
  show "Capabilities_of (xml_read uni) (xml_document [] (render_Capabilities n caps)) = Inr caps"
    using read_rendered_plain [OF assms(2) render_Capabilities_def] rendersD [OF renders_Capabilities [of n] TrueI] by metis
  show "DomainCapabilities_of (xml_read uni) (xml_document [] (render_DomainCapabilities n dcaps)) = Inr dcaps"
    using read_rendered_plain [OF assms(3) render_DomainCapabilities_def] rendersD [OF renders_DomainCapabilities [of n] TrueI] by metis
  show "DomainInfo_of (xml_read uni) (xml_document nova_prefix (render_DomainInfo n info)) = Inr info"
    using read_rendered [OF nova_prefix_plain assms(4) render_DomainInfo_def, where d = unmarshal_DomainInfo and uni = uni]
      rendersD [OF renders_DomainInfo [of n] assms(1)]
    unfolding nova_declaration_ignored render_DomainInfo_def [symmetric] by simp
qed

lemma sample_documents_writable:
  "writable [] (render_Capabilities ([], ''d'') sample_caps)" "writable [] (render_DomainCapabilities ([], ''d'') sample_dcaps)"
  "writable nova_prefix (render_DomainInfo ([], ''d'') sample_dom)"
  by code_simp+

theorem documents_roundtrip_witness:
  "DomainInfo_of (xml_read (\<lambda>_. False)) (xml_document nova_prefix (render_DomainInfo ([], ''d'') sample_dom)) = Inr sample_dom"
  using documents_roundtrip [OF _ sample_documents_writable] by (simp add: nova_domain_def sample_dom_def)

text \<open>
  Content the schema of a domain does not name is ignored: adding an attribute other than
  \<^verbatim>\<open>type\<close> and \<^verbatim>\<open>id\<close> and a child element with none of the names of the struct, anywhere among the
  attributes and children, changes neither the decoded domain nor the error.
\<close>

lemma unknown_content_ignored:
  assumes "snd m \<notin> {''type'', ''id''}" "snd k \<notin> set domain_children"
  shows "unmarshal_DomainInfo (Element n (as @ (m, s) # as') (cs @ Element k bs ds # cs')) d =
         unmarshal_DomainInfo (Element n (as @ as') (cs @ cs')) d"
proof -
  let ?ka = "filter (\<lambda>p. known_attr fields_DomainInfo (snd (fst p)))" and ?kc = "filter (known_child fields_DomainInfo)"
  have "?ka (as @ (m, s) # as') = ?ka (as @ as')" using assms(1) by (simp add: known_domain_attr)
  moreover have "?kc (cs @ Element k bs ds # cs') = ?kc (cs @ cs')" using assms(2) by (simp add: known_domain_child)
  ultimately show ?thesis
    unfolding unmarshal_DomainInfo_def by (metis unmarshal_struct_known)
qed

text \<open>
  C23. The devices and the features of the decoded domain capabilities are named, in order, by the child
  elements of the elements \<^verbatim>\<open>devices\<close> and \<^verbatim>\<open>features\<close> of the document: none is lost, none is
  added, whatever the elements contain.
\<close>

theorem devices_named_by_elements:
  assumes "DomainCapabilities_of rd doc = Inr dc" "rd doc = Inr (Element n as cs)"
  shows "device_names dc = names_below ''devices'' cs \<and> feature_names dc = names_below ''features'' cs"
proof -
  have f: "fold_res (set_child fields_DomainCapabilities) cs zero_DomainCapabilities = Inr dc"
    using assms by (intro dcaps_children) (simp add: xml_Unmarshal_def)
  have "device_names dc = device_names zero_DomainCapabilities @ names_below ''devices'' cs"
    unfolding names_below_def by (rule fold_res_last [OF f]) (rule dcaps_child_devices)
  moreover have "feature_names dc = feature_names zero_DomainCapabilities @ names_below ''features'' cs"
    unfolding names_below_def by (rule fold_res_last [OF f]) (rule dcaps_child_features)
  ultimately show ?thesis
    by (simp add: device_names_def feature_names_def zero_DomainCapabilities_def zero_DomainCapabilitiesDevices_def
        zero_DomainCapabilitiesFeatures_def)
qed

definition small_dcaps :: xml where
  "small_dcaps = Element ([], ''domainCapabilities'') []
     [Element ([], ''devices'') [] [CharData '' '', Element ([], ''disk'') [(([], ''supported''), ''yes'')] [],
        Element ([], ''tpm'') [] []],
      Element ([], ''features'') [] [Element ([], ''gic'') [(([], ''supported''), ''no'')] []]]"

theorem devices_named_by_elements_witness:
  "\<exists>dc. DomainCapabilities_of (\<lambda>_. Inr small_dcaps) [] = Inr dc \<and> device_names dc = [''disk'', ''tpm''] \<and> feature_names dc = [''gic'']"
proof -
  have "\<exists>dc. DomainCapabilities_of (\<lambda>_. Inr small_dcaps) [] = Inr dc"
    by (simp add: xml_Unmarshal_def small_dcaps_def unmarshal_DomainCapabilities_def fields_DomainCapabilities_def set_attrs_def
        field_of_def inside_def unmarshal_DomainCapabilitiesDevices_def fields_DomainCapabilitiesDevices_def slice_def
        unmarshal_DomainCapabilitiesDevice_def fields_DomainCapabilitiesDevice_def store_def
        unmarshal_DomainCapabilitiesFeatures_def fields_DomainCapabilitiesFeatures_def
        unmarshal_DomainCapabilitiesFeature_def fields_DomainCapabilitiesFeature_def)
  then obtain dc where dc: "DomainCapabilities_of (\<lambda>_. Inr small_dcaps) [] = Inr dc" by blast
  from devices_named_by_elements [OF this, unfolded small_dcaps_def, OF refl] dc
  show ?thesis by (auto simp: names_below_def element_names_def)
qed

text \<open>
  C20. One domain without a \<^verbatim>\<open>numatune\<close> element in its XML keeps the agent from publishing: as long as
  libvirtd lists it, \<^verbatim>\<open>Process\<close> never succeeds.
\<close>

theorem untuned_domain_blocks_status:
  assumes "\<And>t. v_ListAllDomains V t [] = Inr ds" "d \<in> set ds" "\<And>t. v_GetXMLDesc V t d = Inr doc"
    and "rd doc = Inr (Element n as cs)" "Some ''numatune'' \<notin> local_name ` set cs"
  shows "Process Q oob ord (libvirt_clients V rd) l hv tr \<noteq> (Ret (hv', None), tr')"
proof
  assume "Process Q oob ord (libvirt_clients V rd) l hv tr = (Ret (hv', None), tr')"
  from Process_needs_domain [OF this assms(1-3)] obtain i keys
    where i: "DomainInfo_of rd doc = Inr i" "domain_stop keys i = None" by blast
  have "dom_NumaTune i = None"
    by (rule numatune_absent [OF _ assms(5)]) (use i(1) assms(4) in \<open>simp add: xml_Unmarshal_def\<close>)
  with i(2) show False by (auto simp: domain_stop_def split: option.splits if_splits)
qed

definition one_domain_virt :: "'q virt" where
  "one_domain_virt = idle_virt\<lparr>v_ListAllDomains := \<lambda>t fs. Inr [\<lparr>domain_Name = ''a'', domain_UUID = [], domain_ID = 1\<rparr>]\<rparr>"

theorem untuned_domain_blocks_status_witness:
  "\<forall>hv' tr'. Process int_quantity_api (\<lambda>_. 0) id
      (libvirt_clients one_domain_virt (\<lambda>_. Inr (Element ([], ''domain'') [] []))) (NewLibVirt (\<lambda>_. []))
      (sample_hv (0, DecimalSI)) [] \<noteq> (Ret (hv', None), tr')"
proof (intro allI)
  fix hv' tr'
  show "Process int_quantity_api (\<lambda>_. 0) id
      (libvirt_clients one_domain_virt (\<lambda>_. Inr (Element ([], ''domain'') [] []))) (NewLibVirt (\<lambda>_. []))
      (sample_hv (0, DecimalSI)) [] \<noteq> (Ret (hv', None), tr')"
    by (rule untuned_domain_blocks_status [where ds = "[\<lparr>domain_Name = ''a'', domain_UUID = [], domain_ID = 1\<rparr>]"
          and d = "\<lparr>domain_Name = ''a'', domain_UUID = [], domain_ID = 1\<rparr>" and doc = "[]" and cs = "[]"])
       (simp_all add: one_domain_virt_def idle_virt_def)
qed

text \<open>
  C21. An element \<^verbatim>\<open>instance\<close> of a name space other than Nova's in the metadata of one domain, such as
  another management layer may put there, keeps the agent from publishing as well: the domain does not decode.
\<close>

theorem foreign_instance_blocks_status:
  assumes "\<And>t. v_ListAllDomains V t [] = Inr ds" "d \<in> set ds" "\<And>t. v_GetXMLDesc V t d = Inr doc"
    and "rd doc = Inr (Element n as cs)" "Element (ns', ''metadata'') as' ms \<in> set cs"
    and "Element (ns, ''instance'') as'' bs \<in> set ms" "ns \<noteq> nova_ns"
  shows "Process Q oob ord (libvirt_clients V rd) l hv tr \<noteq> (Ret (hv', None), tr')"
proof
  assume "Process Q oob ord (libvirt_clients V rd) l hv tr = (Ret (hv', None), tr')"
  from Process_needs_domain [OF this assms(1-3)] obtain i where "DomainInfo_of rd doc = Inr i" by blast
  then have "unmarshal_DomainInfo (Element n as cs) zero_DomainInfo = Inr i" using assms(4) by (simp add: xml_Unmarshal_def)
  with foreign_instance_domain [OF assms(5-7)] show False by (metis Inl_Inr_False)
qed

definition foreign_domain :: xml where
  "foreign_domain = Element ([], ''domain'') []
     [Element ([], ''metadata'') [] [Element (''http://example.org'', ''instance'') [] []]]"

theorem foreign_instance_blocks_status_witness:
  "\<forall>hv' tr'. Process int_quantity_api (\<lambda>_. 0) id
      (libvirt_clients one_domain_virt (\<lambda>_. Inr foreign_domain)) (NewLibVirt (\<lambda>_. []))
      (sample_hv (0, DecimalSI)) [] \<noteq> (Ret (hv', None), tr')"
proof (intro allI)
  fix hv' tr'
  show "Process int_quantity_api (\<lambda>_. 0) id
      (libvirt_clients one_domain_virt (\<lambda>_. Inr foreign_domain)) (NewLibVirt (\<lambda>_. []))
      (sample_hv (0, DecimalSI)) [] \<noteq> (Ret (hv', None), tr')"
    by (rule foreign_instance_blocks_status [where ds = "[\<lparr>domain_Name = ''a'', domain_UUID = [], domain_ID = 1\<rparr>]"
          and d = "\<lparr>domain_Name = ''a'', domain_UUID = [], domain_ID = 1\<rparr>" and doc = "[]"
          and ms = "[Element (''http://example.org'', ''instance'') [] []]" and ns = "''http://example.org''"
          and ns' = "[]" and as' = "[]" and as'' = "[]" and bs = "[]"
          and cs = "[Element ([], ''metadata'') [] [Element (''http://example.org'', ''instance'') [] []]]"])
       (simp_all add: one_domain_virt_def idle_virt_def foreign_domain_def nova_ns_def)
qed

end
