(* ===== verification/MockLog.thy ===== *)
theory MockLog
  imports Interfaces
begin

text \<open>
  The call logs of the generated mocks (\<^verbatim>\<open>interface_mock.go\<close> of \<^verbatim>\<open>internal/systemd\<close>, \<^verbatim>\<open>internal/libvirt\<close> and
  \<^verbatim>\<open>internal/kernel\<close>): the methods \<^verbatim>\<open>XCalls\<close> that return them, and the mock of the kernel reader. What the tests
  and the emulators rely on is the locale \<open>logged_method\<close>: a method without a function panics and logs nothing, one with a
  function returns its answer and logs its argument. The context argument of a method is not part of the log here.
\<close>

section \<open>The logs\<close>

definition mock_CloseCalls :: "('q systemd_calls, 'q, unit list) go_method" where
  "mock_CloseCalls s tr = (Ret (calls_Close s), s, tr)"

definition mock_DescribeCalls :: "('q systemd_calls, 'q, unit list) go_method" where
  "mock_DescribeCalls s tr = (Ret (calls_Describe s), s, tr)"

definition mock_DisableShutdownInhibitCalls :: "('q systemd_calls, 'q, unit list) go_method" where
  "mock_DisableShutdownInhibitCalls s tr = (Ret (calls_DisableShutdownInhibit s), s, tr)"

definition mock_EnableShutdownInhibitCalls :: "('q systemd_calls, 'q, unit list) go_method" where
  "mock_EnableShutdownInhibitCalls s tr = (Ret (calls_EnableShutdownInhibit s), s, tr)"

definition mock_GetUnitByNameCalls :: "('q systemd_calls, 'q, string list) go_method" where
  "mock_GetUnitByNameCalls s tr = (Ret (calls_GetUnitByName s), s, tr)"

definition mock_IsConnectedCalls :: "('q systemd_calls, 'q, unit list) go_method" where
  "mock_IsConnectedCalls s tr = (Ret (calls_IsConnected s), s, tr)"

definition mock_ListUnitsByNamesCalls :: "('q systemd_calls, 'q, string list list) go_method" where
  "mock_ListUnitsByNamesCalls s tr = (Ret (calls_ListUnitsByNames s), s, tr)"

definition mock_ReconcileSysUpdateCalls :: "('q systemd_calls, 'q, 'q Hypervisor list) go_method" where
  "mock_ReconcileSysUpdateCalls s tr = (Ret (calls_ReconcileSysUpdate s), s, tr)"

definition mock_ReloadUnitCalls :: "('q systemd_calls, 'q, string list) go_method" where
  "mock_ReloadUnitCalls s tr = (Ret (calls_ReloadUnit s), s, tr)"

definition mock_StartUnitCalls :: "('q systemd_calls, 'q, string list) go_method" where
  "mock_StartUnitCalls s tr = (Ret (calls_StartUnit s), s, tr)"

definition lvmock_CloseCalls :: "('q libvirt_calls, 'q, unit list) go_method" where
  "lvmock_CloseCalls s tr = (Ret (lvcalls_Close s), s, tr)"

definition lvmock_ConnectCalls :: "('q libvirt_calls, 'q, unit list) go_method" where
  "lvmock_ConnectCalls s tr = (Ret (lvcalls_Connect s), s, tr)"

definition lvmock_WatchDomainChangesCalls :: "('q libvirt_calls, 'q, (DomainEventID \<times> string \<times> handler_fn) list) go_method" where
  "lvmock_WatchDomainChangesCalls s tr = (Ret (lvcalls_WatchDomainChanges s), s, tr)"

definition lvmock_ProcessCalls :: "('q libvirt_calls, 'q, 'q Hypervisor list) go_method" where
  "lvmock_ProcessCalls s tr = (Ret (lvcalls_Process s), s, tr)"

section \<open>The mock of the kernel reader\<close>

record kernel_Mock =
  ReadParametersFunc :: "(goerr + Parameters) option"

record kernel_calls =
  kcalls_ReadParameters :: "unit list"

definition kmock_ReadParameters :: "kernel_Mock \<Rightarrow> (kernel_calls, 'q, goerr + Parameters) go_method" where
  "kmock_ReadParameters M =
     mock_call ''ReadParameters'' (ReadParametersFunc M) (kcalls_ReadParameters_update (\<lambda>cs. cs @ [()])) id"

definition kmock_ReadParametersCalls :: "(kernel_calls, 'q, unit list) go_method" where
  "kmock_ReadParametersCalls s tr = (Ret (kcalls_ReadParameters s), s, tr)"

section \<open>A logged method\<close>

text \<open>A sequence of calls of one method, with their results.\<close>

fun run_calls :: "('a \<Rightarrow> ('c, 'q, 'r) go_method) \<Rightarrow> 'a list \<Rightarrow> ('c, 'q, 'r list) go_method" where
  "run_calls call [] = mret []"
| "run_calls call (x # xs) = mbind (call x) (\<lambda>r. mbind (run_calls call xs) (\<lambda>rs. mret (r # rs)))"

locale logged_method =
  fixes call :: "'a \<Rightarrow> ('c, 'q, 'r) go_method" and calls :: "('c, 'q, 'a list) go_method"
    and log :: "'c \<Rightarrow> 'a list" and name :: string and func :: "('a \<Rightarrow> 'r) option"
  assumes calls_reads: "calls s tr = (Ret (log s), s, tr)"
    and unset: "func = None \<Longrightarrow> call x s tr = (Panic (nil_func name), s, tr)"
    and logs: "func = Some f \<Longrightarrow> \<exists>s'. call x s tr = (Ret (f x), s', tr) \<and> log s' = log s @ [x]"
begin

text \<open>After a sequence of calls the log has grown by their arguments, in order, and no external call was made.\<close>

lemma log_complete:
  assumes "func = Some f"
  shows "\<exists>s'. run_calls call xs s tr = (Ret (map f xs), s', tr) \<and> calls s' tr = (Ret (log s @ xs), s', tr)"
proof (induction xs arbitrary: s)
  case Nil
  show ?case by (simp add: mret_def calls_reads)
next
  case (Cons x xs)
  obtain s1 where s1: "call x s tr = (Ret (f x), s1, tr)" "log s1 = log s @ [x]" using logs [OF assms] by blast
  obtain s2 where "run_calls call xs s1 tr = (Ret (map f xs), s2, tr)" "calls s2 tr = (Ret (log s1 @ xs), s2, tr)"
    using Cons.IH by blast
  with s1 show ?case by (simp add: mbind_def mret_def)
qed

text \<open>Without a function the first call panics and the log stays as it is.\<close>

lemma unset_panics:
  "func = None \<Longrightarrow> xs \<noteq> [] \<Longrightarrow> run_calls call xs s tr = (Panic (nil_func name), s, tr)"
  by (cases xs) (simp_all add: mbind_def unset)

end

interpretation log_Close: logged_method "\<lambda>_ :: unit. mock_Close M" mock_CloseCalls calls_Close "''Close''" "map_option (\<lambda>f _. f) (CloseFunc M)" for M
  by unfold_locales (auto simp: mock_Close_def mock_CloseCalls_def mock_call_def split: option.splits)

interpretation log_Describe: logged_method "\<lambda>_ :: unit. mock_Describe M" mock_DescribeCalls calls_Describe "''Describe''" "map_option (\<lambda>f _. f) (DescribeFunc M)" for M
  by unfold_locales (auto simp: mock_Describe_def mock_DescribeCalls_def mock_call_def split: option.splits)

interpretation log_DisableShutdownInhibit: logged_method "\<lambda>_ :: unit. mock_DisableShutdownInhibit M" mock_DisableShutdownInhibitCalls calls_DisableShutdownInhibit "''DisableShutdownInhibit''" "map_option (\<lambda>f _. f) (DisableShutdownInhibitFunc M)" for M
  by unfold_locales (auto simp: mock_DisableShutdownInhibit_def mock_DisableShutdownInhibitCalls_def mock_call_def split: option.splits)

interpretation log_EnableShutdownInhibit: logged_method "\<lambda>_ :: unit. mock_EnableShutdownInhibit M" mock_EnableShutdownInhibitCalls calls_EnableShutdownInhibit "''EnableShutdownInhibit''" "map_option (\<lambda>f _. f) (EnableShutdownInhibitFunc M)" for M
  by unfold_locales (auto simp: mock_EnableShutdownInhibit_def mock_EnableShutdownInhibitCalls_def mock_call_def split: option.splits)

interpretation log_GetUnitByName: logged_method "mock_GetUnitByName M" mock_GetUnitByNameCalls calls_GetUnitByName "''GetUnitByName''" "GetUnitByNameFunc M" for M
  by unfold_locales (auto simp: mock_GetUnitByName_def mock_GetUnitByNameCalls_def mock_call_def split: option.splits)

interpretation log_IsConnected: logged_method "\<lambda>_ :: unit. mock_IsConnected M" mock_IsConnectedCalls calls_IsConnected "''IsConnected''" "map_option (\<lambda>f _. f) (IsConnectedFunc M)" for M
  by unfold_locales (auto simp: mock_IsConnected_def mock_IsConnectedCalls_def mock_call_def split: option.splits)

interpretation log_ListUnitsByNames: logged_method "mock_ListUnitsByNames M" mock_ListUnitsByNamesCalls calls_ListUnitsByNames "''ListUnitsByNames''" "ListUnitsByNamesFunc M" for M
  by unfold_locales (auto simp: mock_ListUnitsByNames_def mock_ListUnitsByNamesCalls_def mock_call_def split: option.splits)

interpretation log_ReconcileSysUpdate: logged_method "mock_ReconcileSysUpdate M" mock_ReconcileSysUpdateCalls calls_ReconcileSysUpdate "''ReconcileSysUpdate''" "ReconcileSysUpdateFunc M" for M
  by unfold_locales (auto simp: mock_ReconcileSysUpdate_def mock_ReconcileSysUpdateCalls_def mock_call_def split: option.splits)

interpretation log_ReloadUnit: logged_method "mock_ReloadUnit M" mock_ReloadUnitCalls calls_ReloadUnit "''ReloadUnit''" "ReloadUnitFunc M" for M
  by unfold_locales (auto simp: mock_ReloadUnit_def mock_ReloadUnitCalls_def mock_call_def split: option.splits)

interpretation log_StartUnit: logged_method "mock_StartUnit M" mock_StartUnitCalls calls_StartUnit "''StartUnit''" "StartUnitFunc M" for M
  by unfold_locales (auto simp: mock_StartUnit_def mock_StartUnitCalls_def mock_call_def split: option.splits)

interpretation lvlog_Close: logged_method "\<lambda>_ :: unit. lvmock_Close M" lvmock_CloseCalls lvcalls_Close "''Close''" "map_option (\<lambda>f _. f) (lv_CloseFunc M)" for M
  by unfold_locales (auto simp: lvmock_Close_def lvmock_CloseCalls_def mock_call_def split: option.splits)

interpretation lvlog_Connect: logged_method "\<lambda>_ :: unit. lvmock_Connect M" lvmock_ConnectCalls lvcalls_Connect "''Connect''" "map_option (\<lambda>f _. f) (lv_ConnectFunc M)" for M
  by unfold_locales (auto simp: lvmock_Connect_def lvmock_ConnectCalls_def mock_call_def split: option.splits)

interpretation lvlog_Process: logged_method "lvmock_Process M" lvmock_ProcessCalls lvcalls_Process "''Process''" "lv_ProcessFunc M" for M
  by unfold_locales (auto simp: lvmock_Process_def lvmock_ProcessCalls_def mock_call_def split: option.splits)

interpretation lvlog_WatchDomainChanges: logged_method
  "\<lambda>(ev, hid, h). lvmock_WatchDomainChanges M ev hid h" lvmock_WatchDomainChangesCalls lvcalls_WatchDomainChanges
  "''WatchDomainChanges''" "map_option (\<lambda>f _. f) (lv_WatchDomainChangesFunc M)" for M
  by unfold_locales
     (auto simp: lvmock_WatchDomainChanges_def lvmock_WatchDomainChangesCalls_def mock_call_def split: option.splits)

interpretation klog_ReadParameters: logged_method "\<lambda>_ :: unit. kmock_ReadParameters M" kmock_ReadParametersCalls kcalls_ReadParameters "''ReadParameters''" "map_option (\<lambda>f _. f) (ReadParametersFunc M)" for M
  by unfold_locales (auto simp: kmock_ReadParameters_def kmock_ReadParametersCalls_def mock_call_def split: option.splits)

end
