(* ===== verification/Interleaving.thy ===== *)
theory Interleaving
  imports LibvirtConn
begin

text \<open>
  The goroutines that share a \<^verbatim>\<open>LibVirt\<close>, interleaved at the level of mutex operations and map accesses:
  the event loop with the handlers it calls (\<^verbatim>\<open>runEventLoop\<close>, \<^verbatim>\<open>startMigrationWatch\<close>, \<^verbatim>\<open>stopMigrationWatch\<close>)
  and the callers of \<^verbatim>\<open>WatchDomainChanges\<close> (\<^verbatim>\<open>Connect\<close> and \<^verbatim>\<open>Start\<close>). Each operation is the sequence of its
  actions on one path through the code; the theorems quantify over the paths. Shown are, for any number of
  goroutines: no deadlock, no race on the two maps that are only used under their mutex, and the race on
  the map of handlers, which the event loop ranges over after it released the mutex.
\<close>

section \<open>Actions\<close>

datatype mutex = DomEventChsLock | DomEventChangeHandlersLock | MigrationLock

datatype go_map = DomEventChs | DomEventChangeHandlers | HandlersOf DomainEventID | MigrationJobs

text \<open>
  A call is one that takes no mutex of the struct: a request to libvirtd or the API server, the
  selection over channels, a handler's own work. A range statement spans from its begin to its end.
\<close>

datatype action = Acquire mutex | Release mutex | MapRead go_map | MapWrite go_map
  | RangeBegin go_map | RangeEnd go_map | Outside

text \<open>
  \<^verbatim>\<open>WatchDomainChanges\<close>. The path: whether the event has handlers already, whether it has a channel,
  whether subscribing fails. The deferred unlocks run in reverse order.
\<close>

definition watch_actions :: "DomainEventID \<Rightarrow> bool \<Rightarrow> bool \<Rightarrow> bool \<Rightarrow> action list" where
  "watch_actions ev known subscribed fails =
     [Acquire DomEventChangeHandlersLock, MapRead DomEventChangeHandlers]
     @ (if known then [] else [MapWrite DomEventChangeHandlers])
     @ [MapRead DomEventChangeHandlers, MapWrite (HandlersOf ev), Acquire DomEventChsLock, MapRead DomEventChs]
     @ (if subscribed then [] else Outside # (if fails then [] else [MapWrite DomEventChs]))
     @ [Release DomEventChsLock, Release DomEventChangeHandlersLock]"

text \<open>\<^verbatim>\<open>startMigrationWatch\<close>: the object is created first; the path says which step ends it.\<close>

datatype start_path = CreateFails | AlreadyWatched | GetFails | PatchFails | WatchStarted

fun start_actions :: "start_path \<Rightarrow> action list" where
  "start_actions CreateFails = [Outside]"
| "start_actions AlreadyWatched = [Outside, Acquire MigrationLock, MapRead MigrationJobs, Release MigrationLock]"
| "start_actions GetFails = [Outside, Acquire MigrationLock, MapRead MigrationJobs, Outside, Release MigrationLock]"
| "start_actions PatchFails =
     [Outside, Acquire MigrationLock, MapRead MigrationJobs, Outside, Outside, Release MigrationLock]"
| "start_actions WatchStarted =
     [Outside, Acquire MigrationLock, MapRead MigrationJobs, Outside, Outside, MapWrite MigrationJobs,
      Release MigrationLock]"

text \<open>\<^verbatim>\<open>stopMigrationWatch\<close> takes no mutex.\<close>

definition stop_actions :: "bool \<Rightarrow> action list" where
  "stop_actions watched = MapRead MigrationJobs # (if watched then [MapWrite MigrationJobs] else [])"

text \<open>What a handler does, by the function it calls.\<close>

datatype handler_path = StartsWatch start_path | StopsWatch bool | OtherWork

fun handler_actions :: "handler_path \<Rightarrow> action list" where
  "handler_actions (StartsWatch p) = start_actions p"
| "handler_actions (StopsWatch watched) = stop_actions watched"
| "handler_actions OtherWork = [Outside]"

text \<open>
  One round of \<^verbatim>\<open>runEventLoop\<close>: collect the channels, select, look up the handlers of the chosen
  event, and call them while ranging over their map. A round may also end after the selection
  (shut down, or no event chosen) or without handlers.
\<close>

datatype round_path = Selects | NoHandlers | Dispatches DomainEventID "handler_path list"

fun round_actions :: "round_path \<Rightarrow> action list" where
  "round_actions p =
     [Acquire DomEventChsLock, RangeBegin DomEventChs, RangeEnd DomEventChs, Release DomEventChsLock, Outside]
     @ (case p of
          Selects \<Rightarrow> []
        | NoHandlers \<Rightarrow>
            [Acquire DomEventChangeHandlersLock, MapRead DomEventChangeHandlers, Release DomEventChangeHandlersLock]
        | Dispatches ev hs \<Rightarrow>
            [Acquire DomEventChangeHandlersLock, MapRead DomEventChangeHandlers, Release DomEventChangeHandlersLock,
             RangeBegin (HandlersOf ev)]
            @ concat (map handler_actions hs) @ [RangeEnd (HandlersOf ev)])"

text \<open>A goroutine of the agent: any sequence of registrations and of rounds.\<close>

datatype operation = Watches DomainEventID bool bool bool | Rounds round_path

fun operation_actions :: "operation \<Rightarrow> action list" where
  "operation_actions (Watches ev known subscribed fails) = watch_actions ev known subscribed fails"
| "operation_actions (Rounds p) = round_actions p"

definition goroutine :: "operation list \<Rightarrow> action list" where
  "goroutine ops = concat (map operation_actions ops)"

section \<open>Interleaved execution\<close>

text \<open>
  A goroutine is the actions still to come and the maps it is ranging over; the owner of a mutex is
  the number of a goroutine.
\<close>

record machine =
  code :: "action list list"
  ranging :: "go_map list list"
  owner :: "mutex \<Rightarrow> nat option"

definition start_machine :: "action list list \<Rightarrow> machine" where
  "start_machine ps = \<lparr>code = ps, ranging = map (\<lambda>_. []) ps, owner = (\<lambda>_. None)\<rparr>"

definition advance :: "nat \<Rightarrow> machine \<Rightarrow> machine" where
  "advance i s = s\<lparr>code := (code s)[i := tl (code s ! i)]\<rparr>"

inductive go_step :: "machine \<Rightarrow> nat \<Rightarrow> machine \<Rightarrow> bool" where
  GoAcquire: "i < length (code s) \<Longrightarrow> code s ! i = Acquire m # as \<Longrightarrow> owner s m = None \<Longrightarrow>
     go_step s i ((advance i s)\<lparr>owner := (owner s)(m := Some i)\<rparr>)"
| GoRelease: "i < length (code s) \<Longrightarrow> code s ! i = Release m # as \<Longrightarrow> owner s m = Some i \<Longrightarrow>
     go_step s i ((advance i s)\<lparr>owner := (owner s)(m := None)\<rparr>)"
| GoAccess: "i < length (code s) \<Longrightarrow> code s ! i = a # as \<Longrightarrow> a = MapRead l \<or> a = MapWrite l \<or> a = Outside \<Longrightarrow>
     go_step s i (advance i s)"
| GoRangeBegin: "i < length (code s) \<Longrightarrow> code s ! i = RangeBegin l # as \<Longrightarrow>
     go_step s i ((advance i s)\<lparr>ranging := (ranging s)[i := l # (ranging s ! i)]\<rparr>)"
| GoRangeEnd: "i < length (code s) \<Longrightarrow> code s ! i = RangeEnd l # as \<Longrightarrow>
     go_step s i ((advance i s)\<lparr>ranging := (ranging s)[i := remove1 l (ranging s ! i)]\<rparr>)"

inductive go_steps :: "machine \<Rightarrow> machine \<Rightarrow> bool" where
  GoNone: "go_steps s s"
| GoMore: "go_steps s t \<Longrightarrow> go_step t i u \<Longrightarrow> go_steps s u"

text \<open>
  A race on a map, which the runtime of Go answers with a fatal error: one goroutine is about to write it while
  another is ranging over it or about to access it.
\<close>

fun accesses :: "go_map \<Rightarrow> action \<Rightarrow> bool" where
  "accesses l (MapRead l') = (l = l')"
| "accesses l (MapWrite l') = (l = l')"
| "accesses l (RangeBegin l') = (l = l')"
| "accesses l (RangeEnd l') = (l = l')"
| "accesses l a = False"

definition using_map :: "go_map \<Rightarrow> machine \<Rightarrow> nat \<Rightarrow> bool" where
  "using_map l s j \<longleftrightarrow> l \<in> set (ranging s ! j) \<or> (code s ! j \<noteq> [] \<and> accesses l (hd (code s ! j)))"

definition race :: "go_map \<Rightarrow> machine \<Rightarrow> bool" where
  "race l s \<longleftrightarrow> (\<exists>i j. i < length (code s) \<and> j < length (code s) \<and> i \<noteq> j \<and>
     code s ! i \<noteq> [] \<and> hd (code s ! i) = MapWrite l \<and> using_map l s j)"

section \<open>Lock discipline\<close>

text \<open>
  The mutexes a goroutine holds, checked along its code: it releases only what it holds, takes a mutex only
  in the order handlers before channels and with no other mutex around the migration lock, and ends
  with none.
\<close>

fun rank :: "mutex \<Rightarrow> nat" where
  "rank DomEventChangeHandlersLock = 0"
| "rank DomEventChsLock = 1"
| "rank MigrationLock = 2"

fun ordered_code :: "mutex list \<Rightarrow> action list \<Rightarrow> bool" where
  "ordered_code held [] = (held = [])"
| "ordered_code held (Acquire m # as) = ((\<forall>h \<in> set held. rank h < rank m) \<and> ordered_code (m # held) as)"
| "ordered_code held (Release m # as) = (held \<noteq> [] \<and> hd held = m \<and> ordered_code (tl held) as)"
| "ordered_code held (a # as) = ordered_code held as"

text \<open>A map is used only while its mutex is held, and every range over it has ended by then.\<close>

fun guarded_code :: "mutex \<Rightarrow> go_map \<Rightarrow> bool \<Rightarrow> go_map list \<Rightarrow> action list \<Rightarrow> bool" where
  "guarded_code m l h rs [] = True"
| "guarded_code m l h rs (Acquire m' # as) = guarded_code m l (h \<or> m = m') rs as"
| "guarded_code m l h rs (Release m' # as) = ((m = m' \<longrightarrow> l \<notin> set rs) \<and> guarded_code m l (h \<and> m \<noteq> m') rs as)"
| "guarded_code m l h rs (RangeBegin l' # as) = ((l = l' \<longrightarrow> h) \<and> guarded_code m l h (l' # rs) as)"
| "guarded_code m l h rs (RangeEnd l' # as) = ((l = l' \<longrightarrow> h) \<and> guarded_code m l h (remove1 l' rs) as)"
| "guarded_code m l h rs (MapRead l' # as) = ((l = l' \<longrightarrow> h) \<and> guarded_code m l h rs as)"
| "guarded_code m l h rs (MapWrite l' # as) = ((l = l' \<longrightarrow> h) \<and> guarded_code m l h rs as)"
| "guarded_code m l h rs (Outside # as) = guarded_code m l h rs as"

section \<open>A scheduler\<close>

text \<open>The step of one goroutine is deterministic; \<open>None\<close> when it has finished or waits for a mutex.\<close>

definition go_exec :: "nat \<Rightarrow> machine \<Rightarrow> machine option" where
  "go_exec i s =
     (if i < length (code s)
      then (case code s ! i of
              [] \<Rightarrow> None
            | Acquire m # as \<Rightarrow>
                if owner s m = None then Some ((advance i s)\<lparr>owner := (owner s)(m := Some i)\<rparr>) else None
            | Release m # as \<Rightarrow>
                if owner s m = Some i then Some ((advance i s)\<lparr>owner := (owner s)(m := None)\<rparr>) else None
            | RangeBegin l # as \<Rightarrow> Some ((advance i s)\<lparr>ranging := (ranging s)[i := l # (ranging s ! i)]\<rparr>)
            | RangeEnd l # as \<Rightarrow> Some ((advance i s)\<lparr>ranging := (ranging s)[i := remove1 l (ranging s ! i)]\<rparr>)
            | a # as \<Rightarrow> Some (advance i s))
      else None)"

inductive_cases go_stepE: "go_step s i t"

lemma go_exec_step: "go_exec i s = Some t \<longleftrightarrow> go_step s i t"
proof
  assume t: "go_exec i s = Some t"
  then have i: "i < length (code s)" by (simp add: go_exec_def split: if_splits)
  with t obtain a as where c: "code s ! i = a # as" by (cases "code s ! i") (simp_all add: go_exec_def)
  show "go_step s i t"
  proof (cases a)
    case (Acquire m)
    then show ?thesis using t i c by (auto simp: go_exec_def intro!: go_step.GoAcquire split: if_splits)
  next
    case (Release m)
    then show ?thesis using t i c by (auto simp: go_exec_def intro!: go_step.GoRelease split: if_splits)
  next
    case (RangeBegin l)
    then show ?thesis using t i c by (auto simp: go_exec_def intro!: go_step.GoRangeBegin)
  next
    case (RangeEnd l)
    then show ?thesis using t i c by (auto simp: go_exec_def intro!: go_step.GoRangeEnd)
  qed (use t i c in \<open>auto simp: go_exec_def intro: go_step.GoAccess\<close>)
next
  assume "go_step s i t"
  then show "go_exec i s = Some t"
  proof cases
    case (GoAccess a as l)
    then show ?thesis by (cases a) (simp_all add: go_exec_def)
  qed (simp_all add: go_exec_def)
qed

fun go_run :: "nat list \<Rightarrow> machine \<Rightarrow> machine option" where
  "go_run [] s = Some s"
| "go_run (i # is) s = (case go_exec i s of None \<Rightarrow> None | Some t \<Rightarrow> go_run is t)"

lemma go_steps_trans: "go_steps t u \<Longrightarrow> go_steps s t \<Longrightarrow> go_steps s u"
  by (induction rule: go_steps.induct) (auto intro: go_steps.intros)

lemma go_run_steps: "go_run is s = Some t \<Longrightarrow> go_steps s t"
proof (induction "is" arbitrary: s)
  case (Cons i "is")
  then obtain u where "go_step s i u" "go_run is u = Some t" by (auto simp: go_exec_step split: option.splits)
  then show ?case using go_steps_trans [OF Cons.IH GoMore [OF GoNone]] by blast
qed (auto intro: go_steps.intros)

lemma go_steps_invariant:
  assumes "go_steps s t" "I s" "\<And>s i t. I s \<Longrightarrow> go_step s i t \<Longrightarrow> I t"
  shows "I t"
  using assms by (induction rule: go_steps.induct) auto

section \<open>No deadlock\<close>

definition lock_inv :: "machine \<Rightarrow> bool" where
  "lock_inv s \<longleftrightarrow> (\<exists>held. length held = length (code s) \<and>
     (\<forall>i < length (code s). ordered_code (held ! i) (code s ! i) \<and> distinct (held ! i)) \<and>
     (\<forall>m i. owner s m = Some i \<longleftrightarrow> i < length (code s) \<and> m \<in> set (held ! i)))"

lemma lock_inv_start: "list_all (ordered_code []) ps \<Longrightarrow> lock_inv (start_machine ps)"
  by (auto simp: lock_inv_def start_machine_def list_all_length intro!: exI [of _ "replicate (length ps) []"])

lemma lock_inv_step:
  assumes "lock_inv s" "go_step s i t"
  shows "lock_inv t"
proof -
  obtain held where len: "length held = length (code s)"
    and ord: "\<And>i. i < length (code s) \<Longrightarrow> ordered_code (held ! i) (code s ! i) \<and> distinct (held ! i)"
    and own: "\<And>m i. owner s m = Some i \<longleftrightarrow> i < length (code s) \<and> m \<in> set (held ! i)"
    using assms(1) by (auto simp: lock_inv_def)
  note [simp] = lock_inv_def advance_def nth_list_update
  from assms(2) show ?thesis
  proof cases
    case (GoAcquire m as)
    then have free: "m \<notin> set (held ! j)" if "j < length (code s)" for j using own [of m j] that by simp
    have "ordered_code (m # held ! i) as" using ord [of i] GoAcquire by simp
    then show ?thesis
      using GoAcquire len ord own free by (auto intro!: exI [of _ "held[i := m # held ! i]"] split: if_splits)
  next
    case (GoRelease m as)
    then obtain ms where ms: "held ! i = m # ms" "ordered_code ms as" "distinct ms" "m \<notin> set ms"
      using ord [of i] by (cases "held ! i") auto
    have only: "j = i" if "j < length (code s)" "m \<in> set (held ! j)" for j
      using own [of m j] own [of m i] GoRelease that by simp
    have i: "i < length held" "i < length (code s)" using GoRelease len by simp_all
    show ?thesis
    proof -
      have own': "((owner s)(m := None)) n = Some j \<longleftrightarrow> j < length (code s) \<and> n \<in> set (held[i := ms] ! j)" for n j
      proof (cases "j = i")
        case True
        then show ?thesis using own [of n i] ms i by (cases "n = m") simp_all
      next
        case False
        then have "held[i := ms] ! j = held ! j" by simp
        moreover have "j < length (code s) \<Longrightarrow> m \<notin> set (held ! j)" using False only by blast
        ultimately show ?thesis using own [of n j] by (cases "n = m") simp_all
      qed
      show ?thesis unfolding lock_inv_def
      proof (intro exI [of _ "held[i := ms]"] conjI allI impI)
        show "length (held[i := ms]) = length (code t)" using GoRelease len by simp
      next
        fix j assume "j < length (code t)"
        then show "ordered_code (held[i := ms] ! j) (code t ! j)" "distinct (held[i := ms] ! j)"
          using GoRelease len ord [of j] ms by (auto simp: nth_list_update)
      next
        fix n j show "owner t n = Some j \<longleftrightarrow> j < length (code t) \<and> n \<in> set (held[i := ms] ! j)"
          using own' GoRelease by simp
      qed
    qed
  next
    case (GoAccess a as l)
    then show ?thesis using len ord [of i] ord own by (auto intro!: exI [of _ held])
  next
    case (GoRangeBegin l as)
    then show ?thesis using len ord [of i] ord own by (auto intro!: exI [of _ held])
  next
    case (GoRangeEnd l as)
    then show ?thesis using len ord [of i] ord own by (auto intro!: exI [of _ held])
  qed
qed

text \<open>A goroutine that cannot step waits for a mutex; the one that owns it waits for a higher one.\<close>

lemma blocked_on:
  assumes "lock_inv s" "i < length (code s)" "code s ! i \<noteq> []" "go_exec i s = None"
  shows "\<exists>m as j. code s ! i = Acquire m # as \<and> owner s m = Some j"
proof -
  obtain held where ord: "ordered_code (held ! i) (code s ! i)"
    and own: "\<And>m i. owner s m = Some i \<longleftrightarrow> i < length (code s) \<and> m \<in> set (held ! i)"
    using assms(1,2) by (auto simp: lock_inv_def)
  obtain a as where c: "code s ! i = a # as" using assms(3) by (cases "code s ! i") auto
  show ?thesis
  proof (cases a)
    case (Release m)
    then have "owner s m = Some i" using ord own assms(2) c by (cases "held ! i") auto
    then show ?thesis using assms(2,4) c Release by (simp add: go_exec_def)
  qed (use assms(2,4) c in \<open>auto simp: go_exec_def split: if_splits\<close>)
qed

lemma owner_waits_higher:
  assumes "lock_inv s" "owner s m = Some j" "code s ! j = Acquire m' # as"
  shows "rank m < rank m'"
  using assms by (fastforce simp: lock_inv_def)

lemma owner_unfinished: "lock_inv s \<Longrightarrow> owner s m = Some j \<Longrightarrow> j < length (code s) \<and> code s ! j \<noteq> []"
  by (fastforce simp: lock_inv_def)

lemma no_deadlock:
  assumes "lock_inv s" "i < length (code s)" "code s ! i \<noteq> []"
  shows "\<exists>j t. go_step s j t"
proof (rule ccontr)
  assume stuck: "\<not> ?thesis"
  have none: "go_exec j s = None" for j using stuck by (metis go_exec_step not_None_eq)
  have waits: False if "i < length (code s)" "code s ! i = Acquire m # as" "owner s m = Some j" for i m as j
    using that
  proof (induction "3 - rank m" arbitrary: i m as j rule: less_induct)
    case less
    have j: "j < length (code s)" "code s ! j \<noteq> []" using owner_unfinished [OF assms(1) less.prems(3)] by auto
    then obtain m' bs k where j': "code s ! j = Acquire m' # bs" "owner s m' = Some k"
      using blocked_on [OF assms(1) _ _ none] by blast
    have "rank m < rank m'" using owner_waits_higher [OF assms(1) less.prems(3) j'(1)] .
    moreover have "rank m' < 3" by (cases m') simp_all
    ultimately have "3 - rank m' < 3 - rank m" by linarith
    then show False using less.hyps [OF _ j(1) j'] by blast
  qed
  show False using blocked_on [OF assms none] waits assms(2) by blast
qed

text \<open>The code of every goroutine respects the order.\<close>

lemma ordered_append: "ordered_code held as \<Longrightarrow> ordered_code [] bs \<Longrightarrow> ordered_code held (as @ bs)"
  by (induction held as rule: ordered_code.induct) auto

lemma ordered_concat: "list_all (ordered_code []) ass \<Longrightarrow> ordered_code [] (concat ass)"
  by (induction ass) (simp_all add: ordered_append)

lemma ordered_handler: "ordered_code [] (handler_actions p)"
proof (cases p)
  case (StartsWatch q)
  then show ?thesis by (cases q) simp_all
qed (simp_all add: stop_actions_def)

lemma ordered_handlers: "ordered_code [] (concat (map handler_actions hs) @ [RangeEnd l])"
  by (rule ordered_append) (simp_all add: ordered_concat list_all_iff ordered_handler)

lemma ordered_operation: "ordered_code [] (operation_actions op)"
proof (cases op)
  case (Rounds p)
  then show ?thesis by (cases p) (simp_all add: ordered_handlers)
qed (simp add: watch_actions_def)

lemma ordered_goroutine: "ordered_code [] (goroutine ops)"
  unfolding goroutine_def by (rule ordered_concat) (simp add: list_all_iff ordered_operation)

section \<open>Guarded maps\<close>

definition guard_inv :: "mutex \<Rightarrow> go_map \<Rightarrow> machine \<Rightarrow> bool" where
  "guard_inv m l s \<longleftrightarrow> length (ranging s) = length (code s) \<and>
     (\<forall>i < length (code s). guarded_code m l (owner s m = Some i) (ranging s ! i) (code s ! i) \<and>
        (l \<in> set (ranging s ! i) \<longrightarrow> owner s m = Some i))"

lemma guard_inv_start: "list_all (guarded_code m l False []) ps \<Longrightarrow> guard_inv m l (start_machine ps)"
  by (simp add: guard_inv_def start_machine_def list_all_length)

lemma guard_inv_step:
  assumes "guard_inv m l s" "go_step s i t"
  shows "guard_inv m l t"
proof -
  have len: "length (ranging s) = length (code s)"
    and g: "\<And>j. j < length (code s) \<Longrightarrow> guarded_code m l (owner s m = Some j) (ranging s ! j) (code s ! j)"
    and r: "\<And>j. j < length (code s) \<Longrightarrow> l \<in> set (ranging s ! j) \<Longrightarrow> owner s m = Some j"
    using assms(1) by (auto simp: guard_inv_def)
  have inv: ?thesis if "length (ranging t) = length (code s)" "length (code t) = length (code s)"
    and "guarded_code m l (owner t m = Some i) (ranging t ! i) (code t ! i)" "l \<in> set (ranging t ! i) \<Longrightarrow> owner t m = Some i"
    and "\<And>j. j < length (code s) \<Longrightarrow> j \<noteq> i \<Longrightarrow>
           code t ! j = code s ! j \<and> ranging t ! j = ranging s ! j \<and> (owner t m = Some j \<longleftrightarrow> owner s m = Some j)"
    unfolding guard_inv_def
  proof (intro conjI allI impI)
    show "length (ranging t) = length (code t)" using that by simp
  next
    fix j assume "j < length (code t)"
    then show "guarded_code m l (owner t m = Some j) (ranging t ! j) (code t ! j)"
      using that g [of j] by (cases "j = i") simp_all
  next
    fix j assume "j < length (code t)" "l \<in> set (ranging t ! j)"
    then show "owner t m = Some j" using that r [of j] by (cases "j = i") simp_all
  qed
  note [simp] = advance_def
  from assms(2) show ?thesis
  proof cases
    case (GoAcquire m' as)
    show ?thesis
    proof (rule inv)
      show "guarded_code m l (owner t m = Some i) (ranging t ! i) (code t ! i)"
        using GoAcquire g [of i] by (cases "m = m'") simp_all
      show "l \<in> set (ranging t ! i) \<Longrightarrow> owner t m = Some i" using GoAcquire r [of i] by (cases "m = m'") simp_all
    qed (use GoAcquire len in auto)
  next
    case (GoRelease m' as)
    show ?thesis
    proof (rule inv)
      show "guarded_code m l (owner t m = Some i) (ranging t ! i) (code t ! i)"
        using GoRelease g [of i] by (cases "m = m'") simp_all
      show "l \<in> set (ranging t ! i) \<Longrightarrow> owner t m = Some i"
        using GoRelease r [of i] g [of i] by (cases "m = m'") simp_all
    qed (use GoRelease len in auto)
  next
    case (GoAccess a as l')
    show ?thesis
    proof (rule inv)
      show "guarded_code m l (owner t m = Some i) (ranging t ! i) (code t ! i)" using GoAccess g [of i] by auto
      show "l \<in> set (ranging t ! i) \<Longrightarrow> owner t m = Some i" using GoAccess r [of i] by simp
    qed (use GoAccess len in auto)
  next
    case (GoRangeBegin l' as)
    show ?thesis
    proof (rule inv)
      show "guarded_code m l (owner t m = Some i) (ranging t ! i) (code t ! i)" using GoRangeBegin g [of i] len by simp
      show "l \<in> set (ranging t ! i) \<Longrightarrow> owner t m = Some i" using GoRangeBegin r [of i] g [of i] len by auto
    qed (use GoRangeBegin len in auto)
  next
    case (GoRangeEnd l' as)
    show ?thesis
    proof (rule inv)
      show "guarded_code m l (owner t m = Some i) (ranging t ! i) (code t ! i)" using GoRangeEnd g [of i] len by simp
      show "l \<in> set (ranging t ! i) \<Longrightarrow> owner t m = Some i"
        using GoRangeEnd r [of i] len notin_set_remove1 [of l "ranging s ! i" l'] by auto
    qed (use GoRangeEnd len in auto)
  qed
qed

lemma guard_no_race:
  assumes "guard_inv m l s"
  shows "\<not> race l s"
proof
  assume "race l s"
  then obtain i j where ij: "i < length (code s)" "j < length (code s)" "i \<noteq> j" "code s ! i \<noteq> []"
    "hd (code s ! i) = MapWrite l" "using_map l s j" by (auto simp: race_def)
  have "owner s m = Some i" using assms ij(1,4,5) by (cases "code s ! i") (auto simp: guard_inv_def)
  moreover have "owner s m = Some j"
  proof (cases "l \<in> set (ranging s ! j)")
    case True
    then show ?thesis using assms ij(2) by (simp add: guard_inv_def)
  next
    case False
    then obtain a as where a: "code s ! j = a # as" "accesses l a" using ij(6) by (cases "code s ! j") (auto simp: using_map_def)
    moreover have "guarded_code m l (owner s m = Some j) (ranging s ! j) (code s ! j)" using assms ij(2) by (simp add: guard_inv_def)
    ultimately show ?thesis by (cases a) auto
  qed
  ultimately show False using ij(3) by simp
qed

text \<open>The handlers never touch the maps and mutexes of the registry.\<close>

definition foreign_code :: "mutex \<Rightarrow> go_map \<Rightarrow> action list \<Rightarrow> bool" where
  "foreign_code m l as \<longleftrightarrow> list_all (\<lambda>a. a \<noteq> Acquire m \<and> a \<noteq> Release m \<and> \<not> accesses l a
     \<and> (\<forall>l'. a \<noteq> RangeBegin l' \<and> a \<noteq> RangeEnd l')) as"

lemma guarded_foreign: "foreign_code m l as \<Longrightarrow> guarded_code m l h rs (as @ bs) = guarded_code m l h rs bs"
proof (induction as)
  case (Cons a as)
  then show ?case by (cases a) (auto simp: foreign_code_def)
qed simp

lemma foreign_handlers:
  assumes "m \<noteq> MigrationLock" "l \<noteq> MigrationJobs"
  shows "foreign_code m l (concat (map handler_actions hs))"
proof (induction hs)
  case (Cons h hs)
  have "foreign_code m l (handler_actions h)"
  proof (cases h)
    case (StartsWatch p)
    then show ?thesis using assms by (cases p) (auto simp: foreign_code_def)
  qed (use assms in \<open>auto simp: foreign_code_def stop_actions_def\<close>)
  with Cons show ?case by (simp add: foreign_code_def)
qed (simp add: foreign_code_def)

lemma guarded_operation:
  assumes "(m, l) = (DomEventChsLock, DomEventChs) \<or> (m, l) = (DomEventChangeHandlersLock, DomEventChangeHandlers)"
  shows "guarded_code m l False [] (operation_actions op @ bs) = guarded_code m l False [] bs"
proof (cases op)
  case (Watches ev known subscribed fails)
  then show ?thesis using assms by (auto simp: watch_actions_def)
next
  case (Rounds p)
  have "m \<noteq> MigrationLock" "l \<noteq> MigrationJobs" using assms by auto
  then show ?thesis using Rounds assms by (cases p) (auto simp: guarded_foreign foreign_handlers)
qed

lemma guarded_goroutine:
  assumes "(m, l) = (DomEventChsLock, DomEventChs) \<or> (m, l) = (DomEventChangeHandlersLock, DomEventChangeHandlers)"
  shows "guarded_code m l False [] (goroutine ops)"
  by (induction ops) (simp_all add: goroutine_def guarded_operation [OF assms])

section \<open>The migration jobs\<close>

text \<open>Only event loops touch the map of migration jobs.\<close>

fun is_round :: "operation \<Rightarrow> bool" where
  "is_round (Rounds p) = True"
| "is_round (Watches ev known subscribed fails) = False"

definition untouched :: "go_map \<Rightarrow> nat \<Rightarrow> machine \<Rightarrow> bool" where
  "untouched l j s \<longleftrightarrow> length (ranging s) = length (code s) \<and>
     (j < length (code s) \<longrightarrow> list_all (\<lambda>a. \<not> accesses l a) (code s ! j) \<and> l \<notin> set (ranging s ! j))"

lemma untouched_step:
  assumes "untouched l j s" "go_step s i t"
  shows "untouched l j t"
proof -
  have tl: "list_all P (tl as)" if "list_all P as" for P and as :: "action list" using that by (cases as) simp_all
  from assms(2) show ?thesis
    by cases (use assms(1) in \<open>auto simp: untouched_def advance_def nth_list_update tl dest: notin_set_remove1\<close>)
qed

lemma untouched_not_using: "untouched l j s \<Longrightarrow> j < length (code s) \<Longrightarrow> \<not> using_map l s j"
  by (cases "code s ! j") (auto simp: untouched_def using_map_def)

lemma watches_untouched:
  assumes "list_all (\<lambda>op. \<not> is_round op) ops"
  shows "list_all (\<lambda>a. \<not> accesses MigrationJobs a) (goroutine ops)"
  using assms
proof (induction ops)
  case (Cons op ops)
  then show ?case by (cases op) (auto simp: goroutine_def watch_actions_def)
qed (simp add: goroutine_def)

lemma one_loop_no_race:
  assumes "go_steps (start_machine (map goroutine opss)) s"
    and "\<And>j. j < length opss \<Longrightarrow> j \<noteq> k \<Longrightarrow> list_all (\<lambda>op. \<not> is_round op) (opss ! j)"
  shows "\<not> race MigrationJobs s"
proof
  assume "race MigrationJobs s"
  then obtain i j where ij: "i < length (code s)" "j < length (code s)" "i \<noteq> j" "using_map MigrationJobs s j"
    "using_map MigrationJobs s i" by (auto simp: race_def) (auto simp: using_map_def)
  have "untouched MigrationJobs j s" if "j \<noteq> k" for j
    using assms(1)
  proof (rule go_steps_invariant)
    show "untouched MigrationJobs j (start_machine (map goroutine opss))"
      using watches_untouched [OF assms(2) [OF _ that]] by (auto simp: untouched_def start_machine_def)
  qed (rule untouched_step)
  with ij show False using untouched_not_using by metis
qed

text \<open>With two event loops there is a race: one loop starts a watch while the other stops one.\<close>

lemma jobs_race_two_loops:
  "\<exists>s. go_steps (start_machine (map goroutine
       [[Rounds (Dispatches DomainEventIDMigrationIteration [StartsWatch WatchStarted])],
        [Rounds (Dispatches DomainEventIDLifecycle [StopsWatch True])]])) s \<and> race MigrationJobs s"
proof -
  let ?s = "start_machine (map goroutine
       [[Rounds (Dispatches DomainEventIDMigrationIteration [StartsWatch WatchStarted])],
        [Rounds (Dispatches DomainEventIDLifecycle [StopsWatch True])]])"
  obtain s where "go_run (replicate 14 0 @ replicate 9 1) ?s = Some s" "race MigrationJobs s"
    by (simp add: numeral_eq_Suc start_machine_def goroutine_def stop_actions_def go_exec_def advance_def
        race_def using_map_def Ex_less_Suc)
  then show ?thesis using go_run_steps by blast
qed

lemma lifecycle_subscribed:
  assumes "\<And>t. v_SubscribeEvents V t DomainEventIDLifecycle = None"
  shows "DomainEventIDLifecycle \<in> set (lv_domEventChs (fst (connect_watches V l tr)))"
proof -
  have "DomainEventIDLifecycle \<in> set (lv_domEventChs (fst (WatchDomainChanges V DomainEventIDLifecycle hid h l tr)))" for hid h
    using assms by (auto simp: WatchDomainChanges_def Let_def ext_def)
  then show ?thesis using WatchDomainChanges_channels by (simp add: connect_watches_def split_beta) blast
qed

section \<open>Properties\<close>

text \<open>
  C8. The mutexes of \<^verbatim>\<open>LibVirt\<close> never deadlock: whatever goroutines register handlers and run event loops,
  with whatever paths through the code, in every reachable state some goroutine can go on as long as
  one has not finished, and when all have finished no mutex is held.
\<close>

theorem goroutines_never_deadlock:
  assumes "go_steps (start_machine (map goroutine opss)) s"
  shows "((\<exists>i < length (code s). code s ! i \<noteq> []) \<longrightarrow> (\<exists>j t. go_step s j t)) \<and>
         ((\<forall>i < length (code s). code s ! i = []) \<longrightarrow> (\<forall>m. owner s m = None))"
proof -
  have inv: "lock_inv s"
    using assms by (rule go_steps_invariant) (auto intro: lock_inv_start lock_inv_step simp: list_all_iff ordered_goroutine)
  then have "\<exists>j t. go_step s j t" if "i < length (code s)" "code s ! i \<noteq> []" for i using no_deadlock that by blast
  moreover have "owner s m = None" if "\<forall>i < length (code s). code s ! i = []" for m
    using owner_unfinished [OF inv, of m] that by (cases "owner s m") auto
  ultimately show ?thesis by blast
qed

theorem goroutines_never_deadlock_witness:
  "\<exists>j t. go_step (start_machine (map goroutine [[Rounds NoHandlers], [Watches DomainEventIDLifecycle False False False]])) j t"
  using goroutines_never_deadlock [OF GoNone, of "[[Rounds NoHandlers], [Watches DomainEventIDLifecycle False False False]]"]
  by (auto simp: start_machine_def goroutine_def)

text \<open>
  C12. The map of channels and the outer map of handlers are never raced on, by any number of goroutines, because
  every access is made under its mutex; and the map of migration jobs is not, although \<^verbatim>\<open>stopMigrationWatch\<close>
  takes no mutex, as long as there is only one event loop.
\<close>

theorem registry_maps_race_free:
  assumes "go_steps (start_machine (map goroutine opss)) s"
  shows "\<not> race DomEventChs s \<and> \<not> race DomEventChangeHandlers s \<and>
     ((\<exists>k. \<forall>j < length opss. j \<noteq> k \<longrightarrow> list_all (\<lambda>op. \<not> is_round op) (opss ! j)) \<longrightarrow> \<not> race MigrationJobs s)"
proof -
  have "\<not> race l s"
    if "(m, l) = (DomEventChsLock, DomEventChs) \<or> (m, l) = (DomEventChangeHandlersLock, DomEventChangeHandlers)" for m l
  proof (rule guard_no_race)
    show "guard_inv m l s"
      using assms by (rule go_steps_invariant)
        (auto intro: guard_inv_start guard_inv_step simp: list_all_iff guarded_goroutine [OF that])
  qed
  then show ?thesis using one_loop_no_race [OF assms] by blast
qed

definition race_schedule :: "nat list" where
  "race_schedule = replicate 9 0 @ replicate 3 1"

theorem registry_maps_race_free_witness:
  "\<exists>s. go_run race_schedule (start_machine (map goroutine [[Rounds (Dispatches DomainEventIDLifecycle [OtherWork])],
      [Watches DomainEventIDLifecycle True True False]])) = Some s \<and> \<not> race MigrationJobs s \<and> \<not> race DomEventChs s"
proof -
  let ?ps = "[[Rounds (Dispatches DomainEventIDLifecycle [OtherWork])], [Watches DomainEventIDLifecycle True True False]]"
  obtain s where s: "go_run race_schedule (start_machine (map goroutine ?ps)) = Some s"
    by (simp add: race_schedule_def numeral_eq_Suc start_machine_def goroutine_def watch_actions_def go_exec_def advance_def)
  moreover have "\<forall>j < length ?ps. j \<noteq> 0 \<longrightarrow> list_all (\<lambda>op. \<not> is_round op) (?ps ! j)" by (auto simp: less_Suc_eq)
  ultimately show ?thesis using registry_maps_race_free [OF go_run_steps [OF s]] by blast
qed

text \<open>
  C13. The map of the handlers of one event can be raced on: after \<^verbatim>\<open>Connect\<close> has registered the handlers and started
  the event loop, \<^verbatim>\<open>Start\<close> registers another handler for life cycle events, which writes the map under its
  mutex while the event loop ranges over it without.
\<close>

theorem handlers_race:
  assumes "Connect V env l tr = ((None, True), l', tr')" "\<And>t. v_SubscribeEvents V t DomainEventIDLifecycle = None"
  shows "map_of (lv_domEventChangeHandlers l') DomainEventIDLifecycle \<noteq> None \<and> DomainEventIDLifecycle \<in> set (lv_domEventChs l') \<and>
    (\<exists>s. go_steps (start_machine [goroutine [Rounds (Dispatches DomainEventIDLifecycle hs)],
           goroutine [Watches DomainEventIDLifecycle True True fails]]) s \<and> race (HandlersOf DomainEventIDLifecycle) s)"
proof -
  from assms(1) obtain l1 t1 where "connect_watches V l1 t1 = (l', tr')"
    by (auto simp: Connect_def ext_def Let_def split: option.splits bool.splits prod.splits)
  then have l': "l' = fst (connect_watches V l1 t1)" by simp
  have "handlers_of l' DomainEventIDLifecycle ''lifecycle-handler'' = Some OnLifecycleEvent"
    by (simp add: l' connect_watches_handlers)
  then have known: "map_of (lv_domEventChangeHandlers l') DomainEventIDLifecycle \<noteq> None"
    by (auto simp: handlers_of_def split: option.splits)
  have subscribed: "DomainEventIDLifecycle \<in> set (lv_domEventChs l')"
    using lifecycle_subscribed [OF assms(2)] by (simp add: l')
  let ?s = "start_machine [goroutine [Rounds (Dispatches DomainEventIDLifecycle hs)], goroutine [Watches DomainEventIDLifecycle True True fails]]"
  obtain s where "go_run race_schedule ?s = Some s" "race (HandlersOf DomainEventIDLifecycle) s"
    by (simp add: race_schedule_def numeral_eq_Suc start_machine_def goroutine_def watch_actions_def go_exec_def advance_def
        race_def using_map_def Ex_less_Suc)
  with known subscribed show ?thesis using go_run_steps by blast
qed

theorem handlers_race_witness:
  "\<exists>l' tr'. Connect idle_virt (\<lambda>_. None) (NewLibVirt (\<lambda>_. [])) ([] :: unit trace) = ((None, True), l', tr') \<and>
     DomainEventIDLifecycle \<in> set (lv_domEventChs l') \<and>
     (\<exists>s. go_steps (start_machine [goroutine [Rounds (Dispatches DomainEventIDLifecycle [OtherWork])],
        goroutine [Watches DomainEventIDLifecycle True True False]]) s \<and> race (HandlersOf DomainEventIDLifecycle) s)"
proof -
  have "fst (Connect idle_virt (\<lambda>_. None) (NewLibVirt (\<lambda>_. [])) ([] :: unit trace)) = (None, True)"
    by (simp add: Connect_def ext_def idle_virt_def Let_def split_beta)
  then obtain l' tr' where c: "Connect idle_virt (\<lambda>_. None) (NewLibVirt (\<lambda>_. [])) ([] :: unit trace) = ((None, True), l', tr')"
    by (metis prod.collapse)
  have "v_SubscribeEvents (idle_virt :: unit virt) t DomainEventIDLifecycle = None" for t by (simp add: idle_virt_def)
  from handlers_race [OF c this, of "[OtherWork]" False] c show ?thesis by blast
qed

end
