(* ===== verification/EventLoop.thy ===== *)
theory EventLoop
  imports LibvirtConn
begin

text \<open>
  The channels the event loop of \<^verbatim>\<open>internal/libvirt/libvirt.go\<close> selects over, and what follows from how they behave: the
  branch that shuts the loop down is never taken.
\<close>

section \<open>Channels\<close>

text \<open>
  A channel of Go: nil, or the values in it and whether it is closed. Receiving from a closed channel yields what is
  left in it, then a zero value marked by \<open>False\<close>. \<^verbatim>\<open>reflect.Select\<close> picks any case that is ready.
\<close>

datatype 'v channel = NilChan | Chan "'v list" bool

fun receives :: "'v channel \<Rightarrow> bool \<times> 'v \<Rightarrow> bool" where
  "receives NilChan r = False"
| "receives (Chan (v # vs) c) (ok, x) = (ok \<and> x = v)"
| "receives (Chan [] c) (ok, x) = (c \<and> \<not> ok)"

definition selects :: "'v channel list \<Rightarrow> nat \<times> bool \<times> 'v \<Rightarrow> bool" where
  "selects chs sel \<longleftrightarrow> (case sel of (chosen, r) \<Rightarrow> chosen < length chs \<and> receives (chs ! chosen) r)"

text \<open>
  The channel of \<^verbatim>\<open>ctx.Done()\<close>: nil for \<^verbatim>\<open>context.Background()\<close>, else closed once the context is cancelled; nothing is
  ever sent on it. That of \<^verbatim>\<open>Disconnected()\<close> is closed when the connection is lost.
\<close>

datatype go_context = Background | WithCancel bool

fun ctx_Done :: "go_context \<Rightarrow> 'v channel" where
  "ctx_Done Background = NilChan"
| "ctx_Done (WithCancel cancelled) = Chan [] cancelled"

text \<open>The cases of one round: the subscribed events in the order of their iteration, then the two above.\<close>

definition select_cases :: "'v channel list \<Rightarrow> go_context \<Rightarrow> bool \<Rightarrow> 'v channel list" where
  "select_cases events ctx disconnected = events @ [ctx_Done ctx, Chan [] disconnected]"

lemma select_done:
  assumes "selects (select_cases events ctx d) (length events, ok, v)"
  shows "ctx = WithCancel True" and "\<not> ok"
  using assms by (cases ctx; auto simp: selects_def select_cases_def)+

lemma event_round_not_shutdown:
  assumes "length events = length (ord (lv_domEventChs l))" and "selects (select_cases events ctx d) sel"
  shows "event_round ord hord l sel \<noteq> Shutdown"
proof
  assume "event_round ord hord l sel = Shutdown"
  moreover obtain chosen ok v where sel: "sel = (chosen, ok, v)" by (metis prod.collapse)
  ultimately have "ok" and "chosen = length events"
    using assms(1) by (auto simp: event_round_def Let_def split: if_splits option.splits)
  then show False using select_done(2) [of events ctx d ok v] assms(2) sel by simp
qed

lemma runEventLoop_not_Ret:
  "\<forall>(l, sel) \<in> set rounds. event_round ord hord l sel \<noteq> Shutdown \<Longrightarrow> snd (runEventLoop ord hord rounds) \<noteq> Some (Ret ())"
  by (induction rounds) (auto split: round.splits prod.splits)

text \<open>
  C11. The event loop never returns. Its branch for a cancelled context is dead code: the channel of the context is only
  ever closed, so that selecting it reports a closed channel, which the loop takes first, as a lost connection, and
  answers with a panic.
\<close>

theorem event_loop_never_returns:
  fixes rounds :: "(LibVirt \<times> nat \<times> bool \<times> 'v) list"
  assumes "\<forall>(l, sel) \<in> set rounds. \<exists>events ctx d. length events = length (ord (lv_domEventChs l))
             \<and> selects (select_cases events ctx d) sel"
  shows "snd (runEventLoop ord hord rounds) \<noteq> Some (Ret ())
    \<and> (\<forall>(l :: LibVirt) events d ok (v :: 'v) rest. length events = length (ord (lv_domEventChs l)) \<and>
           selects (select_cases events (WithCancel True) d) (length events, ok, v) \<longrightarrow>
         runEventLoop ord hord ((l, length events, ok, v) # rest) = ([], Some (Panic ''libvirt connection closed'')))"
proof (intro conjI allI impI)
  show "snd (runEventLoop ord hord rounds) \<noteq> Some (Ret ())"
    using assms event_round_not_shutdown by (intro runEventLoop_not_Ret) blast
next
  fix l :: LibVirt and events d ok and v :: 'v and rest
  assume sel: "length events = length (ord (lv_domEventChs l)) \<and>
    selects (select_cases events (WithCancel True) d) (length events, ok, v)"
  have "\<not> ok" using select_done(2) [OF sel [THEN conjunct2]] .
  then show "runEventLoop ord hord ((l, length events, ok, v) # rest) = ([], Some (Panic ''libvirt connection closed''))"
    by (simp add: event_round_def)
qed

theorem event_loop_never_returns_witness:
  "selects (select_cases [Chan [''event''] False] Background False) (0, True, ''event'')
   \<and> selects (select_cases [Chan [] False] (WithCancel True) False) (1, False, [] :: string)
   \<and> snd (runEventLoop id id [(demo_registry, 0, True, ''event''), (demo_registry, 1, False, [])]) \<noteq> Some (Ret ())
   \<and> runEventLoop id id [(demo_registry, 0, True, ''event''), (demo_registry, 1, False, [])]
       = ([(OnLifecycleEvent, ''event''), (TriggerReconcile, ''event'')], Some (Panic ''libvirt connection closed''))"
proof -
  have first: "selects (select_cases [Chan [''event''] False] Background False) (0, True, ''event'')"
    and second: "selects (select_cases [Chan [] False] (WithCancel True) False) (1, False, [] :: string)"
    by (simp_all add: selects_def select_cases_def)
  have one: "length [c] = length (id (lv_domEventChs demo_registry))" for c :: "string channel"
    by (simp add: demo_registry_def)
  have ready: "\<exists>events ctx d. length events = length (id (lv_domEventChs demo_registry)) \<and> selects (select_cases events ctx d) sel"
    if "selects (select_cases [c] ctx d) sel" for c :: "string channel" and ctx d sel
    using that one [of c] by blast
  have "\<forall>(l, sel) \<in> set [(demo_registry, 0, True, ''event''), (demo_registry, 1, False, [])]. \<exists>events ctx d.
      length events = length (id (lv_domEventChs l)) \<and> selects (select_cases events ctx d) sel"
    using ready [OF first] ready [OF second] by simp
  note never = event_loop_never_returns [where ord = id and hord = id, OF this]
  have "runEventLoop id id [(demo_registry, 1, False, [] :: string)] = ([], Some (Panic ''libvirt connection closed''))"
    using never [THEN conjunct2, rule_format, of "[Chan [] False]" demo_registry False False "[]" "[]"] second
      one [of "Chan [] False"] by simp
  then show ?thesis
    using first second never by (simp add: event_round_def demo_registry_def NewLibVirt_def)
qed

end
