(* ===== verification/Registration.thy ===== *)
theory Registration
  imports EventLoop
begin

text \<open>
  Goroutines that register handlers (\<^verbatim>\<open>WatchDomainChanges\<close>, called by \<^verbatim>\<open>Connect\<close> and by \<^verbatim>\<open>Start\<close>) while others run rounds
  of the event loop, with the contents of the two maps, one access to a map or a mutex at a time. Every interleaving has the
  effect of the registrations one after the other, and a round sees the maps as they are between two registrations.
\<close>

section \<open>The goroutines\<close>

text \<open>What a goroutine still does: registrations, and rounds of the event loop given the number of the case selected.\<close>

datatype task = Register DomainEventID string handler_fn | Round nat

text \<open>
  Where a goroutine is. The first group are the statements of \<^verbatim>\<open>WatchDomainChanges\<close>: take the mutex of the handlers, look
  the event up, make its map, put the handler, take the mutex of the channels, look the channel up, subscribe, store the
  channel, and the two deferred unlocks. The second are those of a round up to the call of the handlers: take the
  mutex of the channels, range over them, release it, select, take the mutex of the handlers, look them up,
  release it. A write to an inner map that is nil would panic, and run the
  deferred unlock.
\<close>

datatype pc =
    Idle
  | WatchLock DomainEventID string handler_fn
  | WatchExists DomainEventID string handler_fn
  | WatchMake DomainEventID string handler_fn
  | WatchPut DomainEventID string handler_fn
  | WatchLockChs DomainEventID string handler_fn
  | WatchSubscribed DomainEventID string handler_fn
  | WatchSubscribe DomainEventID string handler_fn
  | WatchStore DomainEventID string handler_fn
  | WatchUnlockChs
  | WatchUnlock
  | RoundLockChs nat
  | RoundRange nat
  | RoundUnlockChs nat "DomainEventID list"
  | RoundLock "DomainEventID list" DomainEventID
  | RoundLookup "DomainEventID list" DomainEventID
  | RoundUnlock
  | Panicked string

text \<open>
  What they share: the object, the calls to libvirtd, the owners of the two mutexes. Two further fields
  only record what happened: the registrations in the order in which they took effect, with the goroutine,
  and what each round found: the events of its cases, the event selected and its handlers.
\<close>

record 'q shared =
  sh_virt :: LibVirt
  sh_trace :: "'q trace"
  sh_handlersLock :: "nat option"
  sh_chsLock :: "nat option"
  sh_log :: "(nat \<times> task) list"
  sh_found :: "(DomainEventID list \<times> DomainEventID \<times> (string \<times> handler_fn) list option) list"

definition logged :: "nat \<Rightarrow> DomainEventID \<Rightarrow> string \<Rightarrow> handler_fn \<Rightarrow> 'q shared \<Rightarrow> 'q shared" where
  "logged i ev hid h s = s\<lparr>sh_log := sh_log s @ [(i, Register ev hid h)]\<rparr>"

text \<open>One statement of goroutine \<open>i\<close>; \<open>None\<close> while it waits for a mutex.\<close>

fun watch_exec :: "'q virt \<Rightarrow> nat \<Rightarrow> pc \<Rightarrow> 'q shared \<Rightarrow> (pc \<times> 'q shared) option" where
  "watch_exec V i (WatchLock ev hid h) s =
     (if sh_handlersLock s = None then Some (WatchExists ev hid h, s\<lparr>sh_handlersLock := Some i\<rparr>) else None)"
| "watch_exec V i (WatchExists ev hid h) s =
     Some (case map_of (lv_domEventChangeHandlers (sh_virt s)) ev of
             None \<Rightarrow> (WatchMake ev hid h, s) | Some hs \<Rightarrow> (WatchPut ev hid h, s))"
| "watch_exec V i (WatchMake ev hid h) s =
     Some (WatchPut ev hid h, s\<lparr>sh_virt := sh_virt s
       \<lparr>lv_domEventChangeHandlers := AList.update ev [] (lv_domEventChangeHandlers (sh_virt s))\<rparr>\<rparr>)"
| "watch_exec V i (WatchPut ev hid h) s =
     Some (case map_of (lv_domEventChangeHandlers (sh_virt s)) ev of
             None \<Rightarrow> (Panicked ''assignment to entry in nil map'', s\<lparr>sh_handlersLock := None\<rparr>)
           | Some hs \<Rightarrow> (WatchLockChs ev hid h, s\<lparr>sh_virt := sh_virt s
               \<lparr>lv_domEventChangeHandlers :=
                  AList.update ev (AList.update hid h hs) (lv_domEventChangeHandlers (sh_virt s))\<rparr>\<rparr>))"
| "watch_exec V i (WatchLockChs ev hid h) s =
     (if sh_chsLock s = None then Some (WatchSubscribed ev hid h, s\<lparr>sh_chsLock := Some i\<rparr>) else None)"
| "watch_exec V i (WatchSubscribed ev hid h) s =
     Some (if ev \<in> set (lv_domEventChs (sh_virt s)) then (WatchUnlockChs, logged i ev hid h s)
           else (WatchSubscribe ev hid h, s))"
| "watch_exec V i (WatchSubscribe ev hid h) s =
     Some (case ext (VSubscribeEvents ev) (\<lambda>t. v_SubscribeEvents V t ev) (sh_trace s) of
             (Some err, tr) \<Rightarrow> (WatchUnlockChs, logged i ev hid h (s\<lparr>sh_trace := tr\<rparr>))
           | (None, tr) \<Rightarrow> (WatchStore ev hid h, s\<lparr>sh_trace := tr\<rparr>))"
| "watch_exec V i (WatchStore ev hid h) s =
     Some (WatchUnlockChs, logged i ev hid h
       (s\<lparr>sh_virt := sh_virt s\<lparr>lv_domEventChs := lv_domEventChs (sh_virt s) @ [ev]\<rparr>\<rparr>))"
| "watch_exec V i WatchUnlockChs s = Some (WatchUnlock, s\<lparr>sh_chsLock := None\<rparr>)"
| "watch_exec V i WatchUnlock s = Some (Idle, s\<lparr>sh_handlersLock := None\<rparr>)"
| "watch_exec V i p s = None"

text \<open>A round, up to the handlers it will call; \<open>ord\<close> is the iteration order of the map of channels.\<close>

fun round_exec :: "(DomainEventID list \<Rightarrow> DomainEventID list) \<Rightarrow> nat \<Rightarrow> pc \<Rightarrow> 'q shared \<Rightarrow> (pc \<times> 'q shared) option" where
  "round_exec ord i (RoundLockChs n) s =
     (if sh_chsLock s = None then Some (RoundRange n, s\<lparr>sh_chsLock := Some i\<rparr>) else None)"
| "round_exec ord i (RoundRange n) s = Some (RoundUnlockChs n (ord (lv_domEventChs (sh_virt s))), s)"
| "round_exec ord i (RoundUnlockChs n eventIds) s =
     Some (if n < length eventIds then RoundLock eventIds (eventIds ! n) else Idle, s\<lparr>sh_chsLock := None\<rparr>)"
| "round_exec ord i (RoundLock eventIds ev) s =
     (if sh_handlersLock s = None then Some (RoundLookup eventIds ev, s\<lparr>sh_handlersLock := Some i\<rparr>) else None)"
| "round_exec ord i (RoundLookup eventIds ev) s =
     Some (RoundUnlock, s\<lparr>sh_found := sh_found s @
       [(eventIds, ev, map_of (lv_domEventChangeHandlers (sh_virt s)) ev)]\<rparr>)"
| "round_exec ord i RoundUnlock s = Some (Idle, s\<lparr>sh_handlersLock := None\<rparr>)"
| "round_exec ord i p s = None"

fun first_pc :: "task \<Rightarrow> pc" where
  "first_pc (Register ev hid h) = WatchLock ev hid h"
| "first_pc (Round n) = RoundLockChs n"

record 'q crew =
  cr_todo :: "task list list"
  cr_pc :: "pc list"
  cr_shared :: "'q shared"

definition crew_start :: "LibVirt \<Rightarrow> 'q trace \<Rightarrow> task list list \<Rightarrow> 'q crew" where
  "crew_start l tr progs = \<lparr>cr_todo = progs, cr_pc = map (\<lambda>_. Idle) progs,
     cr_shared = \<lparr>sh_virt = l, sh_trace = tr, sh_handlersLock = None, sh_chsLock = None, sh_log = [], sh_found = []\<rparr>\<rparr>"

definition pc_exec ::
    "'q virt \<Rightarrow> (DomainEventID list \<Rightarrow> DomainEventID list) \<Rightarrow> nat \<Rightarrow> pc \<Rightarrow> 'q shared \<Rightarrow> (pc \<times> 'q shared) option" where
  "pc_exec V ord i p s = (case watch_exec V i p s of Some r \<Rightarrow> Some r | None \<Rightarrow> round_exec ord i p s)"

definition crew_exec ::
    "'q virt \<Rightarrow> (DomainEventID list \<Rightarrow> DomainEventID list) \<Rightarrow> nat \<Rightarrow> 'q crew \<Rightarrow> 'q crew option" where
  "crew_exec V ord i c =
     (if i < length (cr_pc c)
      then if cr_pc c ! i = Idle
           then (case cr_todo c ! i of
                   [] \<Rightarrow> None
                 | t # ts \<Rightarrow> Some (c\<lparr>cr_todo := (cr_todo c)[i := ts], cr_pc := (cr_pc c)[i := first_pc t]\<rparr>))
           else map_option (\<lambda>(p, s). c\<lparr>cr_pc := (cr_pc c)[i := p], cr_shared := s\<rparr>)
                  (pc_exec V ord i (cr_pc c ! i) (cr_shared c))
      else None)"

inductive crew_runs ::
    "'q virt \<Rightarrow> (DomainEventID list \<Rightarrow> DomainEventID list) \<Rightarrow> 'q crew \<Rightarrow> 'q crew \<Rightarrow> bool" for V ord where
  CrewNone: "crew_runs V ord c c"
| CrewMore: "crew_runs V ord c d \<Longrightarrow> crew_exec V ord i d = Some e \<Longrightarrow> crew_runs V ord c e"

definition crew_done :: "'q crew \<Rightarrow> bool" where
  "crew_done c \<longleftrightarrow> list_all (\<lambda>p. p = Idle) (cr_pc c) \<and> list_all (\<lambda>ts. ts = []) (cr_todo c)"

text \<open>A schedule: the goroutines that take the next steps.\<close>

fun crew_run ::
    "'q virt \<Rightarrow> (DomainEventID list \<Rightarrow> DomainEventID list) \<Rightarrow> nat list \<Rightarrow> 'q crew \<Rightarrow> 'q crew option" where
  "crew_run V ord [] c = Some c"
| "crew_run V ord (i # is) c = (case crew_exec V ord i c of None \<Rightarrow> None | Some d \<Rightarrow> crew_run V ord is d)"

section \<open>The sequential meaning\<close>

fun register_task :: "'q virt \<Rightarrow> task \<Rightarrow> LibVirt \<times> 'q trace \<Rightarrow> LibVirt \<times> 'q trace" where
  "register_task V (Register ev hid h) (l, tr) = WatchDomainChanges V ev hid h l tr"
| "register_task V (Round n) p = p"

definition run_log :: "'q virt \<Rightarrow> (nat \<times> task) list \<Rightarrow> LibVirt \<times> 'q trace \<Rightarrow> LibVirt \<times> 'q trace" where
  "run_log V lg p = fold (\<lambda>(i, t). register_task V t) lg p"

lemma run_log_Nil [simp]: "run_log V [] p = p"
  by (simp add: run_log_def)

lemma run_log_snoc [simp]: "run_log V (lg @ [(i, t)]) p = register_task V t (run_log V lg p)"
  by (simp add: run_log_def)

lemma register_task_inv: "registry_inv (fst p) \<Longrightarrow> registry_inv (fst (register_task V t p))"
  by (induction V t p rule: register_task.induct) (simp_all add: registry_inv_Watch)

lemma register_task_channels: "set (lv_domEventChs (fst p)) \<subseteq> set (lv_domEventChs (fst (register_task V t p)))"
  by (induction V t p rule: register_task.induct) (simp_all add: WatchDomainChanges_channels)

lemma run_log_inv: "registry_inv (fst p) \<Longrightarrow> registry_inv (fst (run_log V lg p))"
  by (induction lg rule: rev_induct) (auto simp: register_task_inv)

lemma run_log_channels:
  assumes "k \<le> n"
  shows "set (lv_domEventChs (fst (run_log V (take k lg) p))) \<subseteq> set (lv_domEventChs (fst (run_log V (take n lg) p)))"
  using assms
proof (induction n)
  case (Suc n)
  have grows: "set (lv_domEventChs (fst (run_log V (take n lg) p))) \<subseteq> set (lv_domEventChs (fst (run_log V (take (Suc n) lg) p)))"
  proof (cases "n < length lg")
    case True
    then have "take (Suc n) lg = take n lg @ [(fst (lg ! n), snd (lg ! n))]" by (simp add: take_Suc_conv_app_nth)
    then show ?thesis using register_task_channels by (simp only: run_log_snoc)
  qed simp
  show ?case using Suc grows by (cases "k = Suc n") auto
qed simp

section \<open>What a goroutine holds\<close>

fun holds_handlers :: "pc \<Rightarrow> bool" where
  "holds_handlers (WatchExists ev hid h) = True"
| "holds_handlers (WatchMake ev hid h) = True"
| "holds_handlers (WatchPut ev hid h) = True"
| "holds_handlers (WatchLockChs ev hid h) = True"
| "holds_handlers (WatchSubscribed ev hid h) = True"
| "holds_handlers (WatchSubscribe ev hid h) = True"
| "holds_handlers (WatchStore ev hid h) = True"
| "holds_handlers WatchUnlockChs = True"
| "holds_handlers WatchUnlock = True"
| "holds_handlers (RoundLookup eventIds ev) = True"
| "holds_handlers RoundUnlock = True"
| "holds_handlers p = False"

fun holds_chs :: "pc \<Rightarrow> bool" where
  "holds_chs (WatchSubscribed ev hid h) = True"
| "holds_chs (WatchSubscribe ev hid h) = True"
| "holds_chs (WatchStore ev hid h) = True"
| "holds_chs WatchUnlockChs = True"
| "holds_chs (RoundRange n) = True"
| "holds_chs (RoundUnlockChs n eventIds) = True"
| "holds_chs p = False"

text \<open>The registration a goroutine is in, until it takes effect.\<close>

fun pending :: "pc \<Rightarrow> task list" where
  "pending (WatchLock ev hid h) = [Register ev hid h]"
| "pending (WatchExists ev hid h) = [Register ev hid h]"
| "pending (WatchMake ev hid h) = [Register ev hid h]"
| "pending (WatchPut ev hid h) = [Register ev hid h]"
| "pending (WatchLockChs ev hid h) = [Register ev hid h]"
| "pending (WatchSubscribed ev hid h) = [Register ev hid h]"
| "pending (WatchSubscribe ev hid h) = [Register ev hid h]"
| "pending (WatchStore ev hid h) = [Register ev hid h]"
| "pending p = []"

text \<open>How far the owner of the mutex of the handlers has taken the object from the state before its registration.\<close>

definition make_handlers :: "DomainEventID \<Rightarrow> LibVirt \<Rightarrow> LibVirt" where
  "make_handlers ev l =
     (if map_of (lv_domEventChangeHandlers l) ev = None
      then l\<lparr>lv_domEventChangeHandlers := AList.update ev [] (lv_domEventChangeHandlers l)\<rparr> else l)"

definition put_handler :: "DomainEventID \<Rightarrow> string \<Rightarrow> handler_fn \<Rightarrow> LibVirt \<Rightarrow> LibVirt" where
  "put_handler ev hid h l =
     (let hs = (case map_of (lv_domEventChangeHandlers l) ev of None \<Rightarrow> [] | Some hs \<Rightarrow> hs)
      in l\<lparr>lv_domEventChangeHandlers := AList.update ev (AList.update hid h hs) (lv_domEventChangeHandlers l)\<rparr>)"

fun half_way :: "pc \<Rightarrow> LibVirt \<times> 'q trace \<Rightarrow> LibVirt \<times> 'q trace" where
  "half_way (WatchPut ev hid h) (l, tr) = (make_handlers ev l, tr)"
| "half_way (WatchLockChs ev hid h) (l, tr) = (put_handler ev hid h l, tr)"
| "half_way (WatchSubscribed ev hid h) (l, tr) = (put_handler ev hid h l, tr)"
| "half_way (WatchSubscribe ev hid h) (l, tr) = (put_handler ev hid h l, tr)"
| "half_way (WatchStore ev hid h) (l, tr) = (put_handler ev hid h l, tr @ [VSubscribeEvents ev])"
| "half_way p (l, tr) = (l, tr)"

fun pc_facts :: "'q virt \<Rightarrow> pc \<Rightarrow> LibVirt \<times> 'q trace \<Rightarrow> bool" where
  "pc_facts V (WatchMake ev hid h) (l, tr) = (map_of (lv_domEventChangeHandlers l) ev = None)"
| "pc_facts V (WatchSubscribe ev hid h) (l, tr) = (ev \<notin> set (lv_domEventChs l))"
| "pc_facts V (WatchStore ev hid h) (l, tr) = (ev \<notin> set (lv_domEventChs l) \<and> v_SubscribeEvents V tr ev = None)"
| "pc_facts V (Panicked msg) p = False"
| "pc_facts V p (l, tr) = True"

definition view_ok :: "'q virt \<Rightarrow> pc \<Rightarrow> 'q shared \<Rightarrow> LibVirt \<times> 'q trace \<Rightarrow> bool" where
  "view_ok V p s b \<longleftrightarrow> (sh_virt s, sh_trace s) = half_way p b \<and> pc_facts V p b"

lemma update_again: "AList.update k v (AList.update k w al) = AList.update k v al"
  by (induction al) auto

lemma put_make: "map_of (lv_domEventChangeHandlers (make_handlers ev l)) ev = Some hs \<Longrightarrow>
  (make_handlers ev l)\<lparr>lv_domEventChangeHandlers :=
     AList.update ev (AList.update hid h hs) (lv_domEventChangeHandlers (make_handlers ev l))\<rparr> = put_handler ev hid h l"
  by (auto simp: make_handlers_def put_handler_def update_again update_conv' split: if_splits)

lemma map_of_make: "map_of (lv_domEventChangeHandlers (make_handlers ev l)) ev \<noteq> None"
  by (auto simp: make_handlers_def update_conv')

lemma put_handler_chs [simp]: "lv_domEventChs (put_handler ev hid h l) = lv_domEventChs l"
  by (simp add: put_handler_def)

lemma make_handlers_chs [simp]: "lv_domEventChs (make_handlers ev l) = lv_domEventChs l"
  by (simp add: make_handlers_def)

lemma half_way_chs: "lv_domEventChs (fst (half_way p b)) = lv_domEventChs (fst b)"
  by (induction p b rule: half_way.induct) simp_all

lemma WatchDomainChanges_put:
  "WatchDomainChanges V ev hid h l tr =
     (if ev \<in> set (lv_domEventChs l) then (put_handler ev hid h l, tr)
      else case v_SubscribeEvents V tr ev of
             Some err \<Rightarrow> (put_handler ev hid h l, tr @ [VSubscribeEvents ev])
           | None \<Rightarrow> ((put_handler ev hid h l)\<lparr>lv_domEventChs := lv_domEventChs l @ [ev]\<rparr>, tr @ [VSubscribeEvents ev]))"
  by (auto simp: WatchDomainChanges_def put_handler_def Let_def ext_def split: option.splits)

section \<open>One step\<close>

lemma pc_exec_handlersLock:
  assumes "pc_exec V ord i p s = Some (p', s')"
  shows "sh_handlersLock s' = (if holds_handlers p' then if holds_handlers p then sh_handlersLock s else Some i
           else if holds_handlers p then None else sh_handlersLock s)
    \<and> (\<not> holds_handlers p \<and> holds_handlers p' \<longrightarrow> sh_handlersLock s = None)"
  using assms by (cases p) (auto simp: pc_exec_def ext_def logged_def split: option.split_asm if_split_asm)

lemma pc_exec_chsLock:
  assumes "pc_exec V ord i p s = Some (p', s')"
  shows "sh_chsLock s' = (if holds_chs p' then if holds_chs p then sh_chsLock s else Some i
           else if holds_chs p then None else sh_chsLock s)
    \<and> (\<not> holds_chs p \<and> holds_chs p' \<longrightarrow> sh_chsLock s = None)"
  using assms by (cases p) (auto simp: pc_exec_def ext_def logged_def split: option.split_asm if_split_asm)

lemma pc_exec_log:
  assumes "pc_exec V ord i p s = Some (p', s')"
  shows "\<exists>ts. sh_log s' = sh_log s @ map (Pair i) ts \<and> (pending p = ts @ pending p' \<or> (\<exists>msg. p' = Panicked msg))"
  using assms by (cases p; auto simp: pc_exec_def ext_def logged_def split: option.splits if_splits)

text \<open>Only the owner of the mutex of the handlers changes the object; when it takes or releases it, the object is in between.\<close>

lemma pc_exec_frame:
  assumes "pc_exec V ord i p s = Some (p', s')" and "\<not> holds_handlers p"
  shows "sh_virt s' = sh_virt s \<and> sh_trace s' = sh_trace s \<and> sh_log s' = sh_log s \<and> half_way p' b = b \<and> pc_facts V p' b"
  using assms by (cases b; cases p) (auto simp: pc_exec_def split: if_split_asm)

lemma pc_exec_view:
  assumes "pc_exec V ord i p s = Some (p', s')" and "holds_handlers p" and "view_ok V p s (run_log V (sh_log s) b)"
  shows "view_ok V p' s' (run_log V (sh_log s') b)"
proof -
  obtain l tr where lt: "run_log V (sh_log s) b = (l, tr)" by (metis prod.collapse)
  note [simp] = pc_exec_def ext_def logged_def view_ok_def WatchDomainChanges_put
  show ?thesis
  proof (cases p)
    case (WatchPut ev hid h)
    then show ?thesis using assms lt map_of_make [of ev l] put_make [of ev l] by (auto split: option.splits)
  qed (use assms lt in \<open>auto simp: make_handlers_def split: option.splits if_splits\<close>)
qed

section \<open>The invariant\<close>

definition owner_pc :: "'q crew \<Rightarrow> pc" where
  "owner_pc c = (case sh_handlersLock (cr_shared c) of None \<Rightarrow> Idle | Some i \<Rightarrow> cr_pc c ! i)"

definition lock_ok :: "'q crew \<Rightarrow> bool" where
  "lock_ok c \<longleftrightarrow> (\<forall>i. (sh_handlersLock (cr_shared c) = Some i \<longleftrightarrow> i < length (cr_pc c) \<and> holds_handlers (cr_pc c ! i))
     \<and> (sh_chsLock (cr_shared c) = Some i \<longleftrightarrow> i < length (cr_pc c) \<and> holds_chs (cr_pc c ! i)))"

fun is_register :: "task \<Rightarrow> bool" where
  "is_register (Register ev hid h) = True"
| "is_register (Round n) = False"

text \<open>Each goroutine's registrations take effect in its own order; those that have not are still to come.\<close>

definition effective_of :: "nat \<Rightarrow> (nat \<times> task) list \<Rightarrow> task list" where
  "effective_of i lg = map snd (filter (\<lambda>e. fst e = i) lg)"

definition order_ok :: "task list list \<Rightarrow> 'q crew \<Rightarrow> bool" where
  "order_ok progs c \<longleftrightarrow> length (cr_pc c) = length progs \<and> length (cr_todo c) = length progs \<and>
     (\<forall>e \<in> set (sh_log (cr_shared c)). fst e < length progs) \<and>
     (\<forall>i < length progs. effective_of i (sh_log (cr_shared c)) @ pending (cr_pc c ! i) @ filter is_register (cr_todo c ! i)
        = filter is_register (progs ! i))"

text \<open>The events of a round are those subscribed at one moment, its handlers those of that or a later moment.\<close>

definition snapshot ::
    "'q virt \<Rightarrow> (DomainEventID list \<Rightarrow> DomainEventID list) \<Rightarrow> LibVirt \<times> 'q trace \<Rightarrow> (nat \<times> task) list
     \<Rightarrow> DomainEventID list \<Rightarrow> nat \<Rightarrow> bool" where
  "snapshot V ord b lg eventIds n \<longleftrightarrow>
     (\<exists>k \<le> n. n \<le> length lg \<and> eventIds = ord (lv_domEventChs (fst (run_log V (take k lg) b))))"

fun pc_seen ::
    "'q virt \<Rightarrow> (DomainEventID list \<Rightarrow> DomainEventID list) \<Rightarrow> LibVirt \<times> 'q trace \<Rightarrow> (nat \<times> task) list \<Rightarrow> pc \<Rightarrow> bool" where
  "pc_seen V ord b lg (RoundUnlockChs n eventIds) = snapshot V ord b lg eventIds (length lg)"
| "pc_seen V ord b lg (RoundLock eventIds ev) = (ev \<in> set eventIds \<and> snapshot V ord b lg eventIds (length lg))"
| "pc_seen V ord b lg (RoundLookup eventIds ev) = (ev \<in> set eventIds \<and> snapshot V ord b lg eventIds (length lg))"
| "pc_seen V ord b lg p = True"

definition round_found ::
    "'q virt \<Rightarrow> (DomainEventID list \<Rightarrow> DomainEventID list) \<Rightarrow> LibVirt \<times> 'q trace \<Rightarrow> (nat \<times> task) list
     \<Rightarrow> DomainEventID list \<times> DomainEventID \<times> (string \<times> handler_fn) list option \<Rightarrow> bool" where
  "round_found V ord b lg r \<longleftrightarrow> (case r of (eventIds, ev, hs) \<Rightarrow>
     \<exists>n. ev \<in> set eventIds \<and> snapshot V ord b lg eventIds n
        \<and> hs = map_of (lv_domEventChangeHandlers (fst (run_log V (take n lg) b))) ev)"

definition rounds_ok ::
    "'q virt \<Rightarrow> (DomainEventID list \<Rightarrow> DomainEventID list) \<Rightarrow> LibVirt \<times> 'q trace \<Rightarrow> 'q crew \<Rightarrow> bool" where
  "rounds_ok V ord b c \<longleftrightarrow> list_all (pc_seen V ord b (sh_log (cr_shared c))) (cr_pc c)
     \<and> list_all (round_found V ord b (sh_log (cr_shared c))) (sh_found (cr_shared c))"

definition calm :: "pc \<Rightarrow> bool" where
  "calm p \<longleftrightarrow> (\<forall>msg. p \<noteq> Panicked msg)"

definition crew_inv ::
    "'q virt \<Rightarrow> (DomainEventID list \<Rightarrow> DomainEventID list) \<Rightarrow> LibVirt \<times> 'q trace \<Rightarrow> task list list \<Rightarrow> 'q crew \<Rightarrow> bool" where
  "crew_inv V ord b progs c \<longleftrightarrow>
     lock_ok c \<and> order_ok progs c \<and> rounds_ok V ord b c \<and> list_all calm (cr_pc c)
     \<and> view_ok V (owner_pc c) (cr_shared c) (run_log V (sh_log (cr_shared c)) b)"

lemma lock_okD:
  assumes "lock_ok c"
  shows "sh_handlersLock (cr_shared c) = Some i \<longleftrightarrow> i < length (cr_pc c) \<and> holds_handlers (cr_pc c ! i)"
    and "sh_chsLock (cr_shared c) = Some i \<longleftrightarrow> i < length (cr_pc c) \<and> holds_chs (cr_pc c ! i)"
  using assms unfolding lock_ok_def by blast+

lemmas crew_inv_defs = lock_ok_def order_ok_def rounds_ok_def

lemma crew_inv_start: "crew_inv V ord (l, tr) progs (crew_start l tr progs)"
  by (auto simp: crew_inv_def crew_inv_defs crew_start_def owner_pc_def view_ok_def list_all_iff calm_def
      effective_of_def)

lemma view_calm: "view_ok V p s b \<Longrightarrow> calm p"
  by (auto simp: view_ok_def calm_def)

lemma snapshot_append: "snapshot V ord b lg ids n \<Longrightarrow> snapshot V ord b (lg @ xs) ids n"
  unfolding snapshot_def by force

lemma snapshot_later: "snapshot V ord b lg ids m \<Longrightarrow> m \<le> n \<Longrightarrow> n \<le> length lg \<Longrightarrow> snapshot V ord b lg ids n"
  unfolding snapshot_def by (metis order_trans)

lemma pc_seen_append: "pc_seen V ord b lg p \<Longrightarrow> pc_seen V ord b (lg @ xs) p"
  by (cases p) (auto intro: snapshot_append snapshot_later)

lemma snapshot_bound: "snapshot V ord b lg ids n \<Longrightarrow> n \<le> length lg"
  by (auto simp: snapshot_def)

lemma round_found_append:
  assumes "round_found V ord b lg r"
  shows "round_found V ord b (lg @ xs) r"
proof -
  obtain ids ev hs where r: "r = (ids, ev, hs)" by (metis prod.collapse)
  with assms obtain n where n: "ev \<in> set ids" "snapshot V ord b lg ids n"
      "hs = map_of (lv_domEventChangeHandlers (fst (run_log V (take n lg) b))) ev"
    by (auto simp: round_found_def)
  then have "take n (lg @ xs) = take n lg" using snapshot_bound by fastforce
  then show ?thesis
    using r n snapshot_append [OF n(2)] by (auto simp: round_found_def simp del: take_append intro!: exI [of _ n])
qed

section \<open>Every step keeps the invariant\<close>

lemma owner_update:
  assumes own: "\<And>j. lk = Some j \<longleftrightarrow> j < length ps \<and> P (ps ! j)" and i: "i < length ps"
    and lk': "lk' = (if P p' then if P (ps ! i) then lk else Some i else if P (ps ! i) then None else lk)
              \<and> (\<not> P (ps ! i) \<and> P p' \<longrightarrow> lk = None)"
  shows "lk' = Some j \<longleftrightarrow> j < length (ps[i := p']) \<and> P (ps[i := p'] ! j)"
proof (cases "j = i")
  case True
  then show ?thesis using own [of i] i lk' by auto
next
  case False
  have "lk = Some i \<Longrightarrow> \<not> (j < length ps \<and> P (ps ! j))" using own [of j] False by simp
  then show ?thesis using own [of i] own [of j] i lk' False by (simp split: if_splits)
qed

lemma lock_ok_step:
  assumes "lock_ok c" "i < length (cr_pc c)" "pc_exec V ord i (cr_pc c ! i) (cr_shared c) = Some (p', s')"
  shows "lock_ok (c\<lparr>cr_pc := (cr_pc c)[i := p'], cr_shared := s'\<rparr>)"
  using owner_update [where P = holds_handlers, OF _ assms(2) pc_exec_handlersLock [OF assms(3)]]
    owner_update [where P = holds_chs, OF _ assms(2) pc_exec_chsLock [OF assms(3)]] assms(1)
  by (simp add: lock_ok_def)

lemma view_step:
  assumes "lock_ok c" "i < length (cr_pc c)" "pc_exec V ord i (cr_pc c ! i) (cr_shared c) = Some (p', s')"
    and "view_ok V (owner_pc c) (cr_shared c) (run_log V (sh_log (cr_shared c)) b)"
  shows "view_ok V (owner_pc (c\<lparr>cr_pc := (cr_pc c)[i := p'], cr_shared := s'\<rparr>)) s' (run_log V (sh_log s') b)"
    and "calm p'"
proof -
  let ?d = "c\<lparr>cr_pc := (cr_pc c)[i := p'], cr_shared := s'\<rparr>" and ?p = "cr_pc c ! i"
  note h = pc_exec_handlersLock [OF assms(3)]
  have "view_ok V (owner_pc ?d) s' (run_log V (sh_log s') b) \<and> calm p'"
  proof (cases "holds_handlers ?p")
    case True
    then have own: "sh_handlersLock (cr_shared c) = Some i" using assms(1,2) by (simp add: lock_ok_def)
    then have "view_ok V ?p (cr_shared c) (run_log V (sh_log (cr_shared c)) b)" using assms(4) by (simp add: owner_pc_def)
    then have v: "view_ok V p' s' (run_log V (sh_log s') b)" using pc_exec_view [OF assms(3) True] by blast
    have "half_way p' q = half_way Idle q \<and> pc_facts V Idle q" if "\<not> holds_handlers p'" for q
      using that by (cases p'; cases q) auto
    then have "view_ok V (owner_pc ?d) s' (run_log V (sh_log s') b)"
      using v h True own assms(2) by (cases "holds_handlers p'") (auto simp: owner_pc_def view_ok_def)
    then show ?thesis using view_calm [OF v] by blast
  next
    case False
    note f = pc_exec_frame [OF assms(3) False]
    have same: "sh_virt s' = sh_virt (cr_shared c)" "sh_trace s' = sh_trace (cr_shared c)" "sh_log s' = sh_log (cr_shared c)"
      using f by blast+
    have "calm p'" using f [of b] by (cases b) (auto simp: calm_def)
    moreover have "view_ok V (owner_pc ?d) s' (run_log V (sh_log s') b)"
    proof (cases "holds_handlers p'")
      case True
      then have "owner_pc ?d = p'" "owner_pc c = Idle" using h False assms(2) by (simp_all add: owner_pc_def)
      moreover obtain l tr where "run_log V (sh_log (cr_shared c)) b = (l, tr)" by (metis prod.collapse)
      ultimately show ?thesis using f [of "(l, tr)"] same assms(4) by (simp add: view_ok_def)
    next
      case no: False
      then have "sh_handlersLock s' = sh_handlersLock (cr_shared c)" using h False by simp
      moreover have "sh_handlersLock (cr_shared c) \<noteq> Some i" using assms(1,2) False by (simp add: lock_ok_def)
      ultimately have "owner_pc ?d = owner_pc c" by (auto simp: owner_pc_def split: option.splits)
      then show ?thesis using same assms(4) by (simp add: view_ok_def)
    qed
    ultimately show ?thesis by blast
  qed
  then show "view_ok V (owner_pc ?d) s' (run_log V (sh_log s') b)" and "calm p'" by blast+
qed

lemma effective_of_append: "effective_of i (lg @ map (Pair j) ts) = effective_of i lg @ (if i = j then ts else [])"
  by (induction ts) (auto simp: effective_of_def)

lemma order_ok_step:
  assumes "order_ok progs c" "i < length (cr_pc c)" "pc_exec V ord i (cr_pc c ! i) (cr_shared c) = Some (p', s')" "calm p'"
  shows "order_ok progs (c\<lparr>cr_pc := (cr_pc c)[i := p'], cr_shared := s'\<rparr>)"
proof -
  obtain ts where "sh_log s' = sh_log (cr_shared c) @ map (Pair i) ts" "pending (cr_pc c ! i) = ts @ pending p'"
    using pc_exec_log [OF assms(3)] assms(4) by (auto simp: calm_def)
  then show ?thesis
    using assms(1,2) by (auto simp: order_ok_def effective_of_append nth_list_update)
qed

lemma view_chs:
  assumes "view_ok V p s b"
  shows "lv_domEventChs (sh_virt s) = lv_domEventChs (fst b)"
  using assms half_way_chs [of p b] by (metis fst_conv view_ok_def)

lemma pc_exec_rounds:
  assumes "pc_exec V ord i p s = Some (p', s')" "pc_seen V ord b (sh_log s) p"
    and "lv_domEventChs (sh_virt s) = lv_domEventChs (fst (run_log V (sh_log s) b))"
    and "\<And>ids ev. p = RoundLookup ids ev \<Longrightarrow> sh_virt s = fst (run_log V (sh_log s) b)"
  shows "pc_seen V ord b (sh_log s') p'"
    and "\<exists>rs. sh_found s' = sh_found s @ rs \<and> list_all (round_found V ord b (sh_log s')) rs"
proof -
  have now: "snapshot V ord b lg (ord (lv_domEventChs (fst (run_log V lg b)))) (length lg)" for lg
    by (auto simp: snapshot_def)
  show "pc_seen V ord b (sh_log s') p'"
    using assms(1-3) now [of "sh_log s"]
    by (cases p) (auto simp: pc_exec_def ext_def logged_def split: option.split_asm if_split_asm)
  show "\<exists>rs. sh_found s' = sh_found s @ rs \<and> list_all (round_found V ord b (sh_log s')) rs"
    using assms(1,2,4)
    by (cases p) (auto simp: pc_exec_def ext_def logged_def round_found_def split: option.split_asm if_split_asm
        intro!: exI [of _ "length (sh_log s)"])
qed

lemma list_all_update: "list_all P xs \<Longrightarrow> P x \<Longrightarrow> list_all P (xs[i := x])"
  by (auto simp: list_all_iff dest: set_update_subset_insert [THEN subsetD])

lemma rounds_ok_step:
  assumes "lock_ok c" "i < length (cr_pc c)" "pc_exec V ord i (cr_pc c ! i) (cr_shared c) = Some (p', s')"
    and "rounds_ok V ord b c" and view: "view_ok V (owner_pc c) (cr_shared c) (run_log V (sh_log (cr_shared c)) b)"
  shows "rounds_ok V ord b (c\<lparr>cr_pc := (cr_pc c)[i := p'], cr_shared := s'\<rparr>)"
proof -
  let ?s = "cr_shared c" and ?p = "cr_pc c ! i"
  have seen: "pc_seen V ord b (sh_log ?s) ?p" using assms(2,4) by (simp add: rounds_ok_def list_all_length)
  have whole: "sh_virt ?s = fst (run_log V (sh_log ?s) b)" if "?p = RoundLookup ids ev" for ids ev
  proof -
    have "owner_pc c = ?p" using assms(2) that lock_okD(1) [OF assms(1), of i] by (simp add: owner_pc_def)
    then show ?thesis using view that by (cases "run_log V (sh_log ?s) b") (simp add: view_ok_def)
  qed
  obtain ts where lg: "sh_log s' = sh_log ?s @ map (Pair i) ts" using pc_exec_log [OF assms(3)] by blast
  note r = pc_exec_rounds [OF assms(3) seen view_chs [OF view]]
  obtain rs where rs: "sh_found s' = sh_found ?s @ rs" "list_all (round_found V ord b (sh_log s')) rs"
    using r(2) whole by blast
  have "list_all (pc_seen V ord b (sh_log s')) (cr_pc c)" "list_all (round_found V ord b (sh_log s')) (sh_found ?s)"
    using assms(4) by (auto simp: rounds_ok_def lg list_all_iff pc_seen_append round_found_append)
  then show ?thesis
    using r(1) whole rs
    by (simp add: rounds_ok_def list_all_update)
qed

text \<open>Starting the next task changes nothing that is shared.\<close>

lemma crew_inv_next:
  assumes "crew_inv V ord b progs c" "i < length (cr_pc c)" "cr_pc c ! i = Idle" "cr_todo c ! i = t # ts"
  shows "crew_inv V ord b progs (c\<lparr>cr_todo := (cr_todo c)[i := ts], cr_pc := (cr_pc c)[i := first_pc t]\<rparr>)"
proof -
  let ?d = "c\<lparr>cr_todo := (cr_todo c)[i := ts], cr_pc := (cr_pc c)[i := first_pc t]\<rparr>"
  have t: "\<not> holds_handlers (first_pc t)" "\<not> holds_chs (first_pc t)" "calm (first_pc t)" "pc_seen V ord b lg (first_pc t)"
      "pending (first_pc t) = filter is_register [t]" for lg
    by (cases t; simp add: calm_def)+
  have locks: "lock_ok c" using assms(1) by (simp add: crew_inv_def)
  then have free: "sh_handlersLock (cr_shared c) \<noteq> Some i" "sh_chsLock (cr_shared c) \<noteq> Some i"
    using assms(2,3) by (simp_all add: lock_ok_def)
  have "lock_ok ?d" using locks t(1,2) free assms(2,3) by (auto simp: lock_ok_def nth_list_update)
  moreover have "order_ok progs ?d"
    using assms t(5) by (auto simp: crew_inv_def order_ok_def nth_list_update)
  moreover have "rounds_ok V ord b ?d" "list_all calm (cr_pc ?d)"
    using assms(1) t(3,4) by (simp_all add: crew_inv_def rounds_ok_def list_all_update)
  moreover have "owner_pc ?d = owner_pc c" using free by (auto simp: owner_pc_def split: option.splits)
  ultimately show ?thesis using assms(1) by (simp add: crew_inv_def)
qed

lemma crew_inv_step:
  assumes "crew_inv V ord b progs c" "crew_exec V ord i c = Some d"
  shows "crew_inv V ord b progs d"
proof -
  have i: "i < length (cr_pc c)" using assms(2) by (simp add: crew_exec_def split: if_splits)
  show ?thesis
  proof (cases "cr_pc c ! i = Idle")
    case True
    then obtain t ts where t: "cr_todo c ! i = t # ts" using assms(2) i by (auto simp: crew_exec_def split: list.splits)
    then have "d = c\<lparr>cr_todo := (cr_todo c)[i := ts], cr_pc := (cr_pc c)[i := first_pc t]\<rparr>"
      using assms(2) i True by (simp add: crew_exec_def)
    then show ?thesis using crew_inv_next [OF assms(1) i True t] by simp
  next
    case False
    then obtain p' s' where e: "pc_exec V ord i (cr_pc c ! i) (cr_shared c) = Some (p', s')"
      and d: "d = c\<lparr>cr_pc := (cr_pc c)[i := p'], cr_shared := s'\<rparr>"
      using assms(2) i by (auto simp: crew_exec_def)
    have inv: "lock_ok c" "order_ok progs c" "rounds_ok V ord b c" "list_all calm (cr_pc c)"
        "view_ok V (owner_pc c) (cr_shared c) (run_log V (sh_log (cr_shared c)) b)"
      using assms(1) by (simp_all add: crew_inv_def)
    note v = view_step [OF inv(1) i e inv(5)]
    show ?thesis
      unfolding crew_inv_def d
      using lock_ok_step [OF inv(1) i e] order_ok_step [OF inv(2) i e v(2)] rounds_ok_step [OF inv(1) i e inv(3,5)]
        list_all_update [OF inv(4) v(2)] v(1) by simp
  qed
qed

lemma crew_runs_inv: "crew_runs V ord c d \<Longrightarrow> crew_inv V ord b progs c \<Longrightarrow> crew_inv V ord b progs d"
  by (induction rule: crew_runs.induct) (auto intro: crew_inv_step)

section \<open>Progress\<close>

text \<open>The statements left to a goroutine at a point of the code, at most.\<close>

fun steps_left :: "pc \<Rightarrow> nat" where
  "steps_left Idle = 0"
| "steps_left (WatchLock ev hid h) = 10"
| "steps_left (WatchExists ev hid h) = 9"
| "steps_left (WatchMake ev hid h) = 8"
| "steps_left (WatchPut ev hid h) = 7"
| "steps_left (WatchLockChs ev hid h) = 6"
| "steps_left (WatchSubscribed ev hid h) = 5"
| "steps_left (WatchSubscribe ev hid h) = 4"
| "steps_left (WatchStore ev hid h) = 3"
| "steps_left WatchUnlockChs = 2"
| "steps_left WatchUnlock = 1"
| "steps_left (RoundLockChs n) = 6"
| "steps_left (RoundRange n) = 5"
| "steps_left (RoundUnlockChs n eventIds) = 4"
| "steps_left (RoundLock eventIds ev) = 3"
| "steps_left (RoundLookup eventIds ev) = 2"
| "steps_left RoundUnlock = 1"
| "steps_left (Panicked msg) = 0"

definition work_left :: "'q crew \<Rightarrow> nat" where
  "work_left c = sum_list (map steps_left (cr_pc c)) + 11 * sum_list (map length (cr_todo c))"

lemma pc_exec_less: "pc_exec V ord i p s = Some (p', s') \<Longrightarrow> steps_left p' < steps_left p"
  by (cases p) (auto simp: pc_exec_def ext_def split: option.split_asm if_split_asm)

lemma sum_list_update_nat: "i < length xs \<Longrightarrow> sum_list (map f (xs[i := x])) + f (xs ! i) = sum_list (map f xs) + (f x :: nat)"
  by (induction xs arbitrary: i) (auto split: nat.splits)

lemma crew_exec_less:
  assumes "crew_exec V ord i c = Some d" "length (cr_todo c) = length (cr_pc c)"
  shows "work_left d < work_left c" and "length (cr_todo d) = length (cr_pc d)"
proof -
  have i: "i < length (cr_pc c)" using assms(1) by (simp add: crew_exec_def split: if_splits)
  note sums = sum_list_update_nat [OF i, of steps_left]
  have start: "steps_left (first_pc t) \<le> 10" for t by (cases t) simp_all
  have "work_left d < work_left c \<and> length (cr_todo d) = length (cr_pc d)"
  proof (cases "cr_pc c ! i = Idle")
    case True
    then obtain t ts where t: "cr_todo c ! i = t # ts" using assms(1) i by (auto simp: crew_exec_def split: list.splits)
    then have d: "d = c\<lparr>cr_todo := (cr_todo c)[i := ts], cr_pc := (cr_pc c)[i := first_pc t]\<rparr>"
      using assms(1) i True by (simp add: crew_exec_def)
    have "sum_list (map length ((cr_todo c)[i := ts])) + Suc (length ts) = sum_list (map length (cr_todo c)) + length ts"
      using sum_list_update_nat [of i "cr_todo c" length ts] i assms(2) t by simp
    then show ?thesis using d assms(2) sums [of "first_pc t"] start [of t] True by (simp add: work_left_def)
  next
    case False
    then obtain p' s' where e: "pc_exec V ord i (cr_pc c ! i) (cr_shared c) = Some (p', s')"
      and d: "d = c\<lparr>cr_pc := (cr_pc c)[i := p'], cr_shared := s'\<rparr>"
      using assms(1) i by (auto simp: crew_exec_def)
    then show ?thesis using sums [of p'] pc_exec_less [OF e] assms(2) by (simp add: work_left_def)
  qed
  then show "work_left d < work_left c" and "length (cr_todo d) = length (cr_pc d)" by blast+
qed

lemma pc_exec_enabled:
  "holds_chs p \<Longrightarrow> pc_exec V ord i p s \<noteq> None"
  "holds_handlers p \<Longrightarrow> sh_chsLock s = None \<Longrightarrow> pc_exec V ord i p s \<noteq> None"
  "calm p \<Longrightarrow> p \<noteq> Idle \<Longrightarrow> sh_chsLock s = None \<Longrightarrow> sh_handlersLock s = None \<Longrightarrow> pc_exec V ord i p s \<noteq> None"
  by (cases p; simp add: pc_exec_def calm_def split: option.split)+

lemma crew_progress:
  assumes "crew_inv V ord b progs c" "\<not> crew_done c"
  shows "\<exists>i d. crew_exec V ord i c = Some d"
proof -
  have locks: "lock_ok c" and calm: "list_all calm (cr_pc c)" and len: "length (cr_todo c) = length (cr_pc c)"
    using assms(1) by (simp_all add: crew_inv_def order_ok_def)
  have step: ?thesis if "i < length (cr_pc c)" "cr_pc c ! i \<noteq> Idle" "pc_exec V ord i (cr_pc c ! i) (cr_shared c) \<noteq> None" for i
    using that by (auto simp: crew_exec_def)
  show ?thesis
  proof (cases "sh_chsLock (cr_shared c)")
    case (Some j)
    then have j: "j < length (cr_pc c)" "holds_chs (cr_pc c ! j)" using lock_okD(2) [OF locks] by blast+
    then have "cr_pc c ! j \<noteq> Idle" by auto
    then show ?thesis using step [of j] pc_exec_enabled(1) j by blast
  next
    case chs: None
    show ?thesis
    proof (cases "sh_handlersLock (cr_shared c)")
      case (Some j)
      then have j: "j < length (cr_pc c)" "holds_handlers (cr_pc c ! j)" using lock_okD(1) [OF locks] by blast+
      then have "cr_pc c ! j \<noteq> Idle" by auto
      then show ?thesis using step [of j] pc_exec_enabled(2) chs j by blast
    next
      case None
      obtain i where i: "i < length (cr_pc c)" "cr_pc c ! i \<noteq> Idle \<or> cr_todo c ! i \<noteq> []"
        using assms(2) len by (auto simp: crew_done_def list_all_length)
      show ?thesis
      proof (cases "cr_pc c ! i = Idle")
        case True
        then show ?thesis using i by (intro exI [of _ i]) (auto simp: crew_exec_def neq_Nil_conv)
      next
        case False
        moreover have "calm (cr_pc c ! i)" using calm i by (simp add: list_all_length)
        ultimately show ?thesis using step [of i] pc_exec_enabled(3) chs None i by blast
      qed
    qed
  qed
qed

lemma crew_runs_trans: "crew_runs V ord d e \<Longrightarrow> crew_runs V ord c d \<Longrightarrow> crew_runs V ord c e"
  by (induction rule: crew_runs.induct) (auto intro: crew_runs.intros)

lemma crew_run_runs: "crew_run V ord is c = Some d \<Longrightarrow> crew_runs V ord c d"
proof (induction "is" arbitrary: c)
  case (Cons i "is")
  then obtain e where "crew_exec V ord i c = Some e" "crew_run V ord is e = Some d" by (auto split: option.splits)
  then show ?case using Cons.IH crew_runs_trans [OF _ CrewMore [OF CrewNone]] by blast
qed (auto intro: crew_runs.intros)

text \<open>No schedule is longer than the work, and every one can be continued to the end.\<close>

lemma crew_run_bounded:
  "crew_run V ord is c = Some d \<Longrightarrow> length (cr_todo c) = length (cr_pc c) \<Longrightarrow> length is + work_left d \<le> work_left c"
proof (induction "is" arbitrary: c)
  case (Cons i "is")
  then obtain e where e: "crew_exec V ord i c = Some e" "crew_run V ord is e = Some d" by (auto split: option.splits)
  show ?case using Cons.IH [OF e(2)] crew_exec_less [OF e(1) Cons.prems(2)] by simp
qed simp

lemma crew_run_append: "crew_run V ord (is @ js) c = (case crew_run V ord is c of None \<Rightarrow> None | Some d \<Rightarrow> crew_run V ord js d)"
  by (induction "is" arbitrary: c) (auto split: option.splits)

lemma crew_completes: "crew_inv V ord b progs c \<Longrightarrow> \<exists>is d. crew_run V ord is c = Some d \<and> crew_done d"
proof (induction "work_left c" arbitrary: c rule: less_induct)
  case less
  show ?case
  proof (cases "crew_done c")
    case True
    then show ?thesis by (intro exI [of _ "[]"]) simp
  next
    case False
    then obtain i d where d: "crew_exec V ord i c = Some d" using crew_progress [OF less.prems] by blast
    have "length (cr_todo c) = length (cr_pc c)" using less.prems by (simp add: crew_inv_def order_ok_def)
    then obtain js e where "crew_run V ord js d = Some e" "crew_done e"
      using less.hyps [OF crew_exec_less(1) [OF d] crew_inv_step [OF less.prems d]] by blast
    then show ?thesis using d by (intro exI [of _ "i # js"]) simp
  qed
qed

section \<open>What the invariant says\<close>

lemma crew_inv_done:
  assumes "crew_inv V ord b progs c" "crew_done c"
  shows "(sh_virt (cr_shared c), sh_trace (cr_shared c)) = run_log V (sh_log (cr_shared c)) b
    \<and> (\<forall>i < length progs. effective_of i (sh_log (cr_shared c)) = filter is_register (progs ! i))"
proof
  have idle: "cr_pc c ! i = Idle \<and> cr_todo c ! i = []" if "i < length progs" for i
    using assms that by (simp add: crew_inv_def order_ok_def crew_done_def list_all_length)
  have locks: "lock_ok c" and len: "length (cr_pc c) = length progs" using assms(1) by (simp_all add: crew_inv_def order_ok_def)
  have "sh_handlersLock (cr_shared c) = None"
  proof (rule ccontr)
    assume "\<not> ?thesis"
    then obtain i where "sh_handlersLock (cr_shared c) = Some i" by blast
    then show False using lock_okD(1) [OF locks, of i] idle [of i] len by simp
  qed
  then have "owner_pc c = Idle" by (simp add: owner_pc_def)
  then show "(sh_virt (cr_shared c), sh_trace (cr_shared c)) = run_log V (sh_log (cr_shared c)) b"
    using assms(1) by (cases "run_log V (sh_log (cr_shared c)) b") (simp add: crew_inv_def view_ok_def)
  show "\<forall>i < length progs. effective_of i (sh_log (cr_shared c)) = filter is_register (progs ! i)"
    using assms(1) idle by (fastforce simp: crew_inv_def order_ok_def)
qed

lemma round_found_handlers:
  assumes "registry_inv (fst b)" "\<forall>chs. set (ord chs) = set chs" "round_found V ord b lg r"
  shows "case r of (eventIds, ev, hs) \<Rightarrow> \<exists>k n. k \<le> n \<and> n \<le> length lg \<and> ev \<in> set eventIds
    \<and> eventIds = ord (lv_domEventChs (fst (run_log V (take k lg) b)))
    \<and> hs = map_of (lv_domEventChangeHandlers (fst (run_log V (take n lg) b))) ev \<and> hs \<noteq> None"
proof -
  obtain ids ev hs where r: "r = (ids, ev, hs)" by (metis prod.collapse)
  with assms(3) obtain k n where kn: "k \<le> n" "n \<le> length lg" "ev \<in> set ids"
      "ids = ord (lv_domEventChs (fst (run_log V (take k lg) b)))"
      "hs = map_of (lv_domEventChangeHandlers (fst (run_log V (take n lg) b))) ev"
    by (auto simp: round_found_def snapshot_def)
  then have "ev \<in> set (lv_domEventChs (fst (run_log V (take n lg) b)))"
    using assms(2) run_log_channels [OF kn(1)] by blast
  then obtain hs' where "map_of (lv_domEventChangeHandlers (fst (run_log V (take n lg) b))) ev = Some hs'"
    using registry_inv_handlers [OF run_log_inv [OF assms(1)]] by metis
  then have "hs \<noteq> None" using kn(5) by simp
  then show ?thesis using r kn by blast
qed

text \<open>Three goroutines: two register for the same event, one runs a round meanwhile.\<close>

definition demo_progs :: "task list list" where
  "demo_progs = [[Register DomainEventIDLifecycle ''a'' OnLifecycleEvent],
     [Register DomainEventIDLifecycle ''b'' TriggerReconcile], [Round 0]]"

definition demo_crew :: "unit crew" where
  "demo_crew = crew_start (NewLibVirt (\<lambda>_. [])) [] demo_progs"

definition demo_schedule :: "nat list" where
  "demo_schedule = [0, 1, 0, 0, 2, 0, 0, 0, 0, 0, 0, 0, 0, 1, 1, 2, 2, 1, 2, 1, 1, 1, 1, 2, 2, 2]"

lemma demo_run:
  "map_option (\<lambda>c. (crew_done c, sh_found (cr_shared c), lv_domEventChs (sh_virt (cr_shared c)), length (sh_trace (cr_shared c))))
     (crew_run idle_virt id demo_schedule demo_crew)
   = Some (True, [([DomainEventIDLifecycle], DomainEventIDLifecycle, Some [(''a'', OnLifecycleEvent), (''b'', TriggerReconcile)])],
       [DomainEventIDLifecycle], 1)"
  by code_simp

section \<open>Properties\<close>

text \<open>
  C9. Registrations are linearizable: however the goroutines interleave that register handlers and run rounds of the event
  loop, no registration panics, and when all are done the object and the calls made to libvirtd are those of the
  registrations one after the other, in an order that keeps each goroutine's own. What a round finds is what
  it would find between two registrations: the events of one moment, the handlers of the same or a later one. So it always finds handlers
  for the event it selected.
\<close>

theorem registrations_linearizable:
  assumes "registry_inv l" and "\<forall>chs. set (ord chs) = set chs" and "crew_runs V ord (crew_start l tr progs) c"
  shows "list_all calm (cr_pc c) \<and>
    (\<exists>lg. (\<forall>e \<in> set lg. fst e < length progs)
       \<and> (crew_done c \<longrightarrow> (sh_virt (cr_shared c), sh_trace (cr_shared c)) = run_log V lg (l, tr)
            \<and> (\<forall>i < length progs. effective_of i lg = filter is_register (progs ! i)))
       \<and> (\<forall>(eventIds, ev, hs) \<in> set (sh_found (cr_shared c)). \<exists>k n. k \<le> n \<and> n \<le> length lg \<and> ev \<in> set eventIds
            \<and> eventIds = ord (lv_domEventChs (fst (run_log V (take k lg) (l, tr))))
            \<and> hs = map_of (lv_domEventChangeHandlers (fst (run_log V (take n lg) (l, tr)))) ev \<and> hs \<noteq> None))"
proof (intro conjI exI [of _ "sh_log (cr_shared c)"] ballI)
  let ?s = "cr_shared c" and ?b = "(l, tr)"
  have inv: "crew_inv V ord ?b progs c" using crew_runs_inv [OF assms(3) crew_inv_start] .
  then show "list_all calm (cr_pc c)" by (simp add: crew_inv_def)
  show "fst e < length progs" if "e \<in> set (sh_log ?s)" for e using inv that by (simp add: crew_inv_def order_ok_def)
  show "crew_done c \<longrightarrow> (sh_virt ?s, sh_trace ?s) = run_log V (sh_log ?s) ?b
      \<and> (\<forall>i < length progs. effective_of i (sh_log ?s) = filter is_register (progs ! i))"
    using crew_inv_done [OF inv] by blast
  fix r assume "r \<in> set (sh_found ?s)"
  then have "round_found V ord ?b (sh_log ?s) r" using inv by (simp add: crew_inv_def rounds_ok_def list_all_iff)
  then show "case r of (eventIds, ev, hs) \<Rightarrow> \<exists>k n. k \<le> n \<and> n \<le> length (sh_log ?s) \<and> ev \<in> set eventIds
      \<and> eventIds = ord (lv_domEventChs (fst (run_log V (take k (sh_log ?s)) ?b)))
      \<and> hs = map_of (lv_domEventChangeHandlers (fst (run_log V (take n (sh_log ?s)) ?b))) ev \<and> hs \<noteq> None"
    using round_found_handlers [of ?b ord V "sh_log ?s" r] assms(1,2) by simp
qed

theorem registrations_linearizable_witness:
  "\<exists>c. crew_run idle_virt id demo_schedule demo_crew = Some c \<and> crew_done c \<and> sh_found (cr_shared c) \<noteq> []
   \<and> (\<exists>lg. (sh_virt (cr_shared c), sh_trace (cr_shared c)) = run_log idle_virt lg (NewLibVirt (\<lambda>_. []), [])
        \<and> effective_of 0 lg = demo_progs ! 0 \<and> effective_of 1 lg = demo_progs ! 1)"
proof -
  obtain c where c: "crew_run idle_virt id demo_schedule demo_crew = Some c" "crew_done c" "sh_found (cr_shared c) \<noteq> []"
    using demo_run by auto
  have "crew_runs idle_virt id (crew_start (NewLibVirt (\<lambda>_. [])) [] demo_progs) c"
    using crew_run_runs [OF c(1)] by (simp add: demo_crew_def)
  from registrations_linearizable [OF registry_inv_New _ this] c(2)
  have "\<exists>lg. (sh_virt (cr_shared c), sh_trace (cr_shared c)) = run_log idle_virt lg (NewLibVirt (\<lambda>_. []), [])
      \<and> (\<forall>i < length demo_progs. effective_of i lg = filter is_register (demo_progs ! i))"
    by auto
  then obtain lg where lg: "(sh_virt (cr_shared c), sh_trace (cr_shared c)) = run_log idle_virt lg (NewLibVirt (\<lambda>_. []), [])"
    "\<And>i. i < length demo_progs \<Longrightarrow> effective_of i lg = filter is_register (demo_progs ! i)" by blast
  have "effective_of 0 lg = demo_progs ! 0" "effective_of 1 lg = demo_progs ! 1"
    using lg(2) [of 0] lg(2) [of 1] by (simp_all add: demo_progs_def)
  then show ?thesis using c lg(1) by blast
qed

text \<open>
  C10. Registrations and rounds finish: no schedule of the goroutines is longer than eleven statements for each of their tasks,
  and every schedule can be continued to one after which all are done, so that none is ever stuck behind a mutex.
\<close>

theorem registrations_finish:
  assumes "crew_run V ord sched (crew_start l tr progs) = Some c"
  shows "length sched \<le> 11 * sum_list (map length progs)
    \<and> (\<exists>more d. crew_run V ord (sched @ more) (crew_start l tr progs) = Some d \<and> crew_done d)"
proof
  have "work_left (crew_start l tr progs) = 11 * sum_list (map length progs)"
    by (simp add: work_left_def crew_start_def comp_def)
  then show "length sched \<le> 11 * sum_list (map length progs)"
    using crew_run_bounded [OF assms] by (simp add: crew_start_def)
  have "crew_inv V ord (l, tr) progs c" using crew_runs_inv [OF crew_run_runs [OF assms] crew_inv_start] .
  then show "\<exists>more d. crew_run V ord (sched @ more) (crew_start l tr progs) = Some d \<and> crew_done d"
    using crew_completes assms by (fastforce simp: crew_run_append)
qed

theorem registrations_finish_witness:
  "(\<exists>c. crew_run idle_virt id [0, 0, 1, 2] demo_crew = Some c)
   \<and> (\<exists>more d. crew_run idle_virt id ([0, 0, 1, 2] @ more) demo_crew = Some d \<and> crew_done d)"
proof -
  have "crew_run idle_virt id [0, 0, 1, 2] demo_crew \<noteq> None"
    by (simp add: demo_crew_def crew_start_def demo_progs_def crew_exec_def pc_exec_def)
  then obtain c where c: "crew_run idle_virt id [0, 0, 1, 2] demo_crew = Some c" by blast
  have "\<exists>more d. crew_run idle_virt id ([0, 0, 1, 2] @ more) demo_crew = Some d \<and> crew_done d"
    using registrations_finish [OF c [unfolded demo_crew_def]] unfolding demo_crew_def by blast
  then show ?thesis using c by blast
qed

end
