(* ===== verification/DeepCopy.thy ===== *)
theory DeepCopy
  imports Hypervisor
begin

text \<open>
  The generated deep copies of \<^verbatim>\<open>api/v1alpha1/zz_generated.deepcopy.go\<close> on an explicit store, where a
  shallow copy and a deep copy differ. A struct is a value; what it points to is in the store: the
  backing array of \<^verbatim>\<open>Items\<close>, and one block for the maps, slices and pointers inside \<^verbatim>\<open>ObjectMeta\<close> and
  \<^verbatim>\<open>ListMeta\<close>. These two structs belong to apimachinery, so their \<^verbatim>\<open>DeepCopyInto\<close> are parameters with what
  they promise; \<^verbatim>\<open>metav1.Time\<close> copies by assignment.
\<close>

section \<open>The store\<close>

record TypeMeta =
  tm_Kind :: string
  tm_APIVersion :: string

record ObjectMeta =
  om_Name :: string
  om_Namespace :: string
  om_Refs :: "nat option" \<comment> \<open>labels, annotations, owners, finalizers, ...\<close>

record ListMeta =
  lm_ResourceVersion :: string
  lm_Refs :: "nat option"

record MigrationSpec = spec_unit :: unit

record MigrationObject =
  mo_TypeMeta :: TypeMeta
  mo_ObjectMeta :: ObjectMeta
  mo_Spec :: MigrationSpec
  mo_Status :: MigrationStatus

record MigrationList =
  ml_TypeMeta :: TypeMeta
  ml_ListMeta :: ListMeta
  ml_Items :: "nat option" \<comment> \<open>the backing array; \<open>None\<close> is nil\<close>

record 'b store =
  blocks :: "nat \<Rightarrow> 'b"
  arrays :: "nat \<Rightarrow> MigrationObject list"
  next_free :: nat

text \<open>\<^verbatim>\<open>make([]Migration, n)\<close>: a new array, filled below.\<close>

definition new_array :: "MigrationObject list \<Rightarrow> 'b store \<Rightarrow> nat \<times> 'b store" where
  "new_array xs h = (next_free h, h\<lparr>arrays := (arrays h)(next_free h := xs), next_free := next_free h + 1\<rparr>)"

type_synonym ('a, 'b) copier = "'a \<Rightarrow> 'b store \<Rightarrow> 'a \<times> 'b store"

section \<open>The copies\<close>

definition MigrationSpec_DeepCopyInto :: "(MigrationSpec, 'b) copier" where
  "MigrationSpec_DeepCopyInto in' h = (in', h)"

definition MigrationStatus_DeepCopyInto :: "(MigrationStatus, 'b) copier" where
  "MigrationStatus_DeepCopyInto in' h = (in'\<lparr>mig_Started := mig_Started in'\<rparr>, h)"

definition Migration_DeepCopyInto :: "(ObjectMeta, 'b) copier \<Rightarrow> (MigrationObject, 'b) copier" where
  "Migration_DeepCopyInto omc in' h =
     (let out = in';
          out = out\<lparr>mo_TypeMeta := mo_TypeMeta in'\<rparr>;
          (om, h) = omc (mo_ObjectMeta in') h;
          out = out\<lparr>mo_ObjectMeta := om, mo_Spec := mo_Spec in'\<rparr>;
          (st, h) = MigrationStatus_DeepCopyInto (mo_Status in') h
      in (out\<lparr>mo_Status := st\<rparr>, h))"

text \<open>The loop over the items: each is copied into its place of the new array.\<close>

fun copy_items :: "(ObjectMeta, 'b) copier \<Rightarrow> nat \<Rightarrow> nat \<Rightarrow> MigrationObject list \<Rightarrow> 'b store \<Rightarrow> 'b store" where
  "copy_items omc a i [] h = h"
| "copy_items omc a i (x # xs) h =
     (let (y, h) = Migration_DeepCopyInto omc x h
      in copy_items omc a (i + 1) xs (h\<lparr>arrays := (arrays h)(a := (arrays h a)[i := y])\<rparr>))"

definition zero_Migration :: MigrationObject where
  "zero_Migration = \<lparr>mo_TypeMeta = \<lparr>tm_Kind = [], tm_APIVersion = []\<rparr>,
     mo_ObjectMeta = \<lparr>om_Name = [], om_Namespace = [], om_Refs = None\<rparr>, mo_Spec = \<lparr>spec_unit = ()\<rparr>,
     mo_Status = zero_MigrationStatus\<rparr>"

definition MigrationList_DeepCopyInto ::
    "(ObjectMeta, 'b) copier \<Rightarrow> (ListMeta, 'b) copier \<Rightarrow> (MigrationList, 'b) copier" where
  "MigrationList_DeepCopyInto omc lmc in' h =
     (let out = in'\<lparr>ml_TypeMeta := ml_TypeMeta in'\<rparr>;
          (lm, h) = lmc (ml_ListMeta in') h;
          out = out\<lparr>ml_ListMeta := lm\<rparr>
      in case ml_Items in' of
           None \<Rightarrow> (out, h)
         | Some b \<Rightarrow>
             (let items = arrays h b;
                  (a, h) = new_array (replicate (length items) zero_Migration) h
              in (out\<lparr>ml_Items := Some a\<rparr>, copy_items omc a 0 items h)))"

text \<open>\<^verbatim>\<open>DeepCopy\<close>: nil for a nil receiver, otherwise a new struct.\<close>

definition deep_copy :: "('a, 'b) copier \<Rightarrow> ('a option, 'b) copier" where
  "deep_copy into in' h =
     (case in' of None \<Rightarrow> (None, h) | Some x \<Rightarrow> (case into x h of (out, h) \<Rightarrow> (Some out, h)))"

definition Migration_DeepCopy :: "(ObjectMeta, 'b) copier \<Rightarrow> (MigrationObject option, 'b) copier" where
  "Migration_DeepCopy omc = deep_copy (Migration_DeepCopyInto omc)"

definition MigrationList_DeepCopy ::
    "(ObjectMeta, 'b) copier \<Rightarrow> (ListMeta, 'b) copier \<Rightarrow> (MigrationList option, 'b) copier" where
  "MigrationList_DeepCopy omc lmc = deep_copy (MigrationList_DeepCopyInto omc lmc)"

definition MigrationSpec_DeepCopy :: "(MigrationSpec option, 'b) copier" where
  "MigrationSpec_DeepCopy = deep_copy MigrationSpec_DeepCopyInto"

definition MigrationStatus_DeepCopy :: "(MigrationStatus option, 'b) copier" where
  "MigrationStatus_DeepCopy = deep_copy MigrationStatus_DeepCopyInto"

text \<open>\<^verbatim>\<open>DeepCopyObject\<close>: the copy as an interface value, nil for nil.\<close>

datatype runtime_Object = MigrationPtr MigrationObject | MigrationListPtr MigrationList

definition Migration_DeepCopyObject ::
    "(ObjectMeta, 'b) copier \<Rightarrow> MigrationObject option \<Rightarrow> 'b store \<Rightarrow> runtime_Object option \<times> 'b store" where
  "Migration_DeepCopyObject omc in' h =
     (case Migration_DeepCopy omc in' h of (Some c, h) \<Rightarrow> (Some (MigrationPtr c), h) | (None, h) \<Rightarrow> (None, h))"

definition MigrationList_DeepCopyObject ::
    "(ObjectMeta, 'b) copier \<Rightarrow> (ListMeta, 'b) copier \<Rightarrow> MigrationList option \<Rightarrow> 'b store
     \<Rightarrow> runtime_Object option \<times> 'b store" where
  "MigrationList_DeepCopyObject omc lmc in' h =
     (case MigrationList_DeepCopy omc lmc in' h of (Some c, h) \<Rightarrow> (Some (MigrationListPtr c), h) | (None, h) \<Rightarrow> (None, h))"

section \<open>What a copy promises\<close>

text \<open>A later store: nothing allocated before has changed.\<close>

definition grows :: "'b store \<Rightarrow> 'b store \<Rightarrow> bool" where
  "grows h h' \<longleftrightarrow> next_free h \<le> next_free h' \<and>
     (\<forall>a < next_free h. blocks h' a = blocks h a \<and> arrays h' a = arrays h a)"

lemma grows_refl [simp]: "grows h h"
  by (simp add: grows_def)

lemma grows_trans: "grows h h' \<Longrightarrow> grows h' h'' \<Longrightarrow> grows h h''"
  by (simp add: grows_def)

text \<open>
  The contract of a copier, by what a value denotes in a store and the addresses it reaches: the copy
  denotes the same, reaches only new addresses, and the old part of the store is kept.
\<close>

locale copier =
  fixes view :: "'b store \<Rightarrow> 'a \<Rightarrow> 'v" and reach :: "'b store \<Rightarrow> 'a \<Rightarrow> nat set" and copy :: "('a, 'b) copier"
  assumes contract: "reach h x \<subseteq> {..<next_free h} \<Longrightarrow> copy x h = (y, h') \<Longrightarrow>
        grows h h' \<and> view h' y = view h x \<and> reach h' y \<subseteq> {next_free h..<next_free h'}"
    and footprint: "(\<And>a. a \<in> reach h x \<Longrightarrow> blocks h' a = blocks h a \<and> arrays h' a = arrays h a) \<Longrightarrow>
        view h' x = view h x \<and> reach h' x = reach h x"
begin

text \<open>Whatever is written behind the copy later, the original denotes what it did.\<close>

lemma independent:
  assumes "reach h x \<subseteq> {..<next_free h}" "copy x h = (y, h')"
    and "\<And>a. a \<notin> {next_free h..<next_free h'} \<Longrightarrow> blocks h'' a = blocks h' a \<and> arrays h'' a = arrays h' a"
  shows "view h'' x = view h x"
proof -
  have "grows h h'" using contract assms(1,2) by blast
  then have "blocks h'' a = blocks h a \<and> arrays h'' a = arrays h a" if "a \<in> reach h x" for a
    using assms(1) assms(3) [of a] that by (auto simp: grows_def)
  then show ?thesis using footprint by blast
qed

text \<open>\<^verbatim>\<open>DeepCopy\<close> of a pointer.\<close>

lemma deep_copy_Some:
  assumes "reach h x \<subseteq> {..<next_free h}"
  obtains y h' where "deep_copy copy (Some x) h = (Some y, h')" "copy x h = (y, h')" "grows h h'" "view h' y = view h x"
    "reach h' y \<subseteq> {next_free h..<next_free h'}"
proof -
  obtain y h' where "copy x h = (y, h')" by (cases "copy x h")
  with that contract [OF assms this] show thesis by (simp add: deep_copy_def)
qed

end

definition view_om :: "'b store \<Rightarrow> ObjectMeta \<Rightarrow> string \<times> string \<times> 'b option" where
  "view_om h om = (om_Name om, om_Namespace om, map_option (blocks h) (om_Refs om))"

definition view_lm :: "'b store \<Rightarrow> ListMeta \<Rightarrow> string \<times> 'b option" where
  "view_lm h lm = (lm_ResourceVersion lm, map_option (blocks h) (lm_Refs lm))"

definition reach_om :: "'b store \<Rightarrow> ObjectMeta \<Rightarrow> nat set" where
  "reach_om h om = set_option (om_Refs om)"

definition reach_lm :: "'b store \<Rightarrow> ListMeta \<Rightarrow> nat set" where
  "reach_lm h lm = set_option (lm_Refs lm)"

definition view_migration :: "'b store \<Rightarrow> MigrationObject \<Rightarrow> TypeMeta \<times> (string \<times> string \<times> 'b option) \<times> MigrationSpec \<times> MigrationStatus" where
  "view_migration h m = (mo_TypeMeta m, view_om h (mo_ObjectMeta m), mo_Spec m, mo_Status m)"

definition reach_migration :: "'b store \<Rightarrow> MigrationObject \<Rightarrow> nat set" where
  "reach_migration h m = reach_om h (mo_ObjectMeta m)"

definition view_list where
  "view_list h l = (ml_TypeMeta l, view_lm h (ml_ListMeta l), map_option (\<lambda>a. map (view_migration h) (arrays h a)) (ml_Items l))"

definition reach_list :: "'b store \<Rightarrow> MigrationList \<Rightarrow> nat set" where
  "reach_list h l = reach_lm h (ml_ListMeta l) \<union>
     (case ml_Items l of None \<Rightarrow> {} | Some a \<Rightarrow> insert a (\<Union>m \<in> set (arrays h a). reach_migration h m))"

lemma migration_footprint:
  "(\<And>a. a \<in> reach_migration h x \<Longrightarrow> blocks h' a = blocks h a) \<Longrightarrow> view_migration h' x = view_migration h x"
  by (cases "om_Refs (mo_ObjectMeta x)") (auto simp: view_migration_def view_om_def reach_migration_def reach_om_def)

interpretation spec: copier "\<lambda>h x. x" "\<lambda>h x. {}" MigrationSpec_DeepCopyInto
  by unfold_locales (simp_all add: MigrationSpec_DeepCopyInto_def)

interpretation status: copier "\<lambda>h x. x" "\<lambda>h x. {}" MigrationStatus_DeepCopyInto
  by unfold_locales (simp_all add: MigrationStatus_DeepCopyInto_def)

text \<open>The metadata of apimachinery, with their copiers.\<close>

locale metadata =
  om: copier view_om reach_om omc + lm: copier view_lm reach_lm lmc
  for omc :: "(ObjectMeta, 'b) copier" and lmc :: "(ListMeta, 'b) copier"
begin

lemma migration_contract:
  assumes "reach_migration h x \<subseteq> {..<next_free h}" "Migration_DeepCopyInto omc x h = (y, h')"
  shows "grows h h' \<and> view_migration h' y = view_migration h x \<and> reach_migration h' y \<subseteq> {next_free h..<next_free h'}"
proof -
  obtain m h1 where m: "omc (mo_ObjectMeta x) h = (m, h1)" by (cases "omc (mo_ObjectMeta x) h")
  have "reach_om h (mo_ObjectMeta x) \<subseteq> {..<next_free h}" using assms(1) by (simp add: reach_migration_def)
  from om.contract [OF this m] show ?thesis
    using assms(2) m by (auto simp: Migration_DeepCopyInto_def MigrationStatus_DeepCopyInto_def view_migration_def
        reach_migration_def reach_om_def)
qed

text \<open>The loop fills the new array with copies of the items.\<close>

lemma copy_items_correct:
  assumes "\<forall>x \<in> set xs. reach_migration h x \<subseteq> {..<a}" "a < next_free h" "length (arrays h a) = i + length xs"
    and "copy_items omc a i xs h = h'"
  shows "next_free h \<le> next_free h' \<and> (\<forall>b < next_free h. blocks h' b = blocks h b \<and> (b \<noteq> a \<longrightarrow> arrays h' b = arrays h b)) \<and>
    length (arrays h' a) = i + length xs \<and> take i (arrays h' a) = take i (arrays h a) \<and>
    map (view_migration h') (drop i (arrays h' a)) = map (view_migration h) xs \<and>
    (\<forall>y \<in> set (drop i (arrays h' a)). reach_migration h' y \<subseteq> {next_free h..<next_free h'})"
  using assms
proof (induction xs arbitrary: i h)
  case Nil
  then show ?case by simp
next
  case (Cons x xs)
  obtain y h1 where y: "Migration_DeepCopyInto omc x h = (y, h1)" by (cases "Migration_DeepCopyInto omc x h")
  have "reach_migration h x \<subseteq> {..<next_free h}" using Cons.prems(1,2) by fastforce
  note c = migration_contract [OF this y]
  define h2 where "h2 = h1\<lparr>arrays := (arrays h1)(a := (arrays h1 a)[i := y])\<rparr>"
  have same: "blocks h2 b = blocks h b" "b \<noteq> a \<Longrightarrow> arrays h2 b = arrays h b" if "b < next_free h" for b
    using c that by (simp_all add: h2_def grows_def)
  have a2: "arrays h2 a = (arrays h a)[i := y]" using c Cons.prems(2) by (simp add: h2_def grows_def)
  have n: "next_free h \<le> next_free h2" "next_free h2 = next_free h1" using c by (simp_all add: h2_def grows_def)
  have view: "view_migration h2 z = view_migration h z" if "reach_migration h z \<subseteq> {..<a}" for z
    using that same Cons.prems(2) by (cases "om_Refs (mo_ObjectMeta z)")
      (auto simp: view_migration_def view_om_def reach_migration_def reach_om_def)
  have IH: "next_free h2 \<le> next_free h' \<and> (\<forall>b < next_free h2. blocks h' b = blocks h2 b \<and> (b \<noteq> a \<longrightarrow> arrays h' b = arrays h2 b)) \<and>
    length (arrays h' a) = Suc i + length xs \<and> take (Suc i) (arrays h' a) = take (Suc i) (arrays h2 a) \<and>
    map (view_migration h') (drop (Suc i) (arrays h' a)) = map (view_migration h2) xs \<and>
    (\<forall>y \<in> set (drop (Suc i) (arrays h' a)). reach_migration h' y \<subseteq> {next_free h2..<next_free h'})"
  proof (rule Cons.IH)
    show "\<forall>z \<in> set xs. reach_migration h2 z \<subseteq> {..<a}" using Cons.prems(1) by (simp add: reach_migration_def reach_om_def)
    show "a < next_free h2" using Cons.prems(2) n(1) by simp
    show "length (arrays h2 a) = Suc i + length xs" using Cons.prems(3) a2 by simp
    show "copy_items omc a (Suc i) xs h2 = h'" using Cons.prems(4) y by (simp add: h2_def)
  qed
  have len: "i < length (arrays h' a)" "i < length (arrays h a)" using IH Cons.prems(3) by simp_all
  have "arrays h' a ! i = take (Suc i) (arrays h' a) ! i" by simp
  also have "\<dots> = y" using IH a2 len by simp
  finally have "drop i (arrays h' a) = y # drop (Suc i) (arrays h' a)" using len Cons_nth_drop_Suc by metis
  moreover have "view_migration h' y = view_migration h x"
  proof -
    have "blocks h' b = blocks h1 b" if "b \<in> reach_migration h1 y" for b
      using that c IH n by (auto simp: h2_def)
    then have "view_migration h' y = view_migration h1 y" by (rule migration_footprint)
    then show ?thesis using c by simp
  qed
  moreover have "reach_migration h' y \<subseteq> {next_free h..<next_free h'}"
    using c IH n by (fastforce simp: reach_migration_def reach_om_def)
  moreover have "take i (arrays h' a) = take i (arrays h a)"
  proof -
    have "take i (arrays h' a) = take i (take (Suc i) (arrays h' a))" by (simp add: min_def)
    also have "\<dots> = take i (take (Suc i) ((arrays h a)[i := y]))" using IH a2 by simp
    also have "\<dots> = take i (arrays h a)" by (simp add: min_def)
    finally show ?thesis .
  qed
  moreover have "map (view_migration h2) xs = map (view_migration h) xs" using view Cons.prems(1) by simp
  moreover have "blocks h' b = blocks h b \<and> (b \<noteq> a \<longrightarrow> arrays h' b = arrays h b)" if "b < next_free h" for b
    using IH same [OF that] n that by simp
  moreover have "next_free h \<le> next_free h'" "length (arrays h' a) = i + length (x # xs)" using IH n by simp_all
  moreover have "reach_migration h' z \<subseteq> {next_free h..<next_free h'}" if "z \<in> set (drop (Suc i) (arrays h' a))" for z
  proof -
    have "reach_migration h' z \<subseteq> {next_free h2..<next_free h'}" using IH that by blast
    also have "\<dots> \<subseteq> {next_free h..<next_free h'}" using n(1) by simp
    finally show ?thesis .
  qed
  moreover have "map (view_migration h') (drop (Suc i) (arrays h' a)) = map (view_migration h2) xs" using IH by blast
  ultimately show ?case by simp
qed

lemma list_contract:
  assumes "reach_list h x \<subseteq> {..<next_free h}" "MigrationList_DeepCopyInto omc lmc x h = (y, h')"
  shows "grows h h' \<and> view_list h' y = view_list h x \<and> reach_list h' y \<subseteq> {next_free h..<next_free h'}"
proof -
  obtain m h1 where m: "lmc (ml_ListMeta x) h = (m, h1)" by (cases "lmc (ml_ListMeta x) h")
  have "reach_lm h (ml_ListMeta x) \<subseteq> {..<next_free h}" using assms(1) by (simp add: reach_list_def)
  note lm = lm.contract [OF this m]
  show ?thesis
  proof (cases "ml_Items x")
    case None
    then show ?thesis using assms(2) m lm by (auto simp: MigrationList_DeepCopyInto_def view_list_def reach_list_def)
  next
    case (Some b)
    define a where "a = next_free h1"
    define h2 where "h2 = h1\<lparr>arrays := (arrays h1)(a := replicate (length (arrays h1 b)) zero_Migration), next_free := a + 1\<rparr>"
    have b: "b < next_free h" "\<forall>z \<in> set (arrays h b). reach_migration h z \<subseteq> {..<next_free h}"
      using assms(1) Some by (auto simp: reach_list_def)
    have items: "arrays h1 b = arrays h b" and le: "next_free h \<le> a" using lm b(1) by (simp_all add: grows_def a_def)
    have y: "y = x\<lparr>ml_ListMeta := m, ml_Items := Some a\<rparr>" and h': "copy_items omc a 0 (arrays h b) h2 = h'"
      using assms(2) m Some by (auto simp: MigrationList_DeepCopyInto_def new_array_def Let_def a_def h2_def items)
    have c: "next_free h2 \<le> next_free h' \<and> (\<forall>b' < next_free h2. blocks h' b' = blocks h2 b' \<and> (b' \<noteq> a \<longrightarrow> arrays h' b' = arrays h2 b')) \<and>
      length (arrays h' a) = 0 + length (arrays h b) \<and> take 0 (arrays h' a) = take 0 (arrays h2 a) \<and>
      map (view_migration h') (drop 0 (arrays h' a)) = map (view_migration h2) (arrays h b) \<and>
      (\<forall>z \<in> set (drop 0 (arrays h' a)). reach_migration h' z \<subseteq> {next_free h2..<next_free h'})"
    proof (rule copy_items_correct [OF _ _ _ h'])
      show "\<forall>z \<in> set (arrays h b). reach_migration h2 z \<subseteq> {..<a}"
        using b(2) le by (fastforce simp: reach_migration_def reach_om_def)
    qed (simp_all add: h2_def items)
    have old: "blocks h2 k = blocks h k \<and> arrays h2 k = arrays h k" if "k < next_free h" for k
      using that lm le by (simp add: h2_def grows_def)
    have "grows h h'" using c old le by (auto simp: grows_def h2_def)
    moreover have "view_migration h2 z = view_migration h z" if "z \<in> set (arrays h b)" for z
      using b(2) that old by (cases "om_Refs (mo_ObjectMeta z)")
        (auto simp: view_migration_def view_om_def reach_migration_def reach_om_def)
    moreover have "view_lm h' m = view_lm h1 m"
      using c lm by (cases "lm_Refs m") (auto simp: view_lm_def reach_lm_def h2_def a_def)
    moreover have "reach_lm h' m \<subseteq> {next_free h..<next_free h'}"
      using lm c by (fastforce simp: reach_lm_def h2_def a_def)
    moreover have "a \<in> {next_free h..<next_free h'}" using c le by (simp add: h2_def)
    moreover have "reach_migration h' z \<subseteq> {next_free h..<next_free h'}" if "z \<in> set (arrays h' a)" for z
    proof -
      have "reach_migration h' z \<subseteq> {next_free h2..<next_free h'}" using c that by simp
      also have "\<dots> \<subseteq> {next_free h..<next_free h'}" using le by (simp add: h2_def)
      finally show ?thesis .
    qed
    ultimately show ?thesis using c lm Some y by (auto simp: view_list_def reach_list_def)
  qed
qed

end

sublocale metadata < migration: copier view_migration reach_migration "Migration_DeepCopyInto omc"
proof unfold_locales
  fix h h' :: "'a store" and x :: MigrationObject
  assume "\<And>a. a \<in> reach_migration h x \<Longrightarrow> blocks h' a = blocks h a \<and> arrays h' a = arrays h a"
  then show "view_migration h' x = view_migration h x \<and> reach_migration h' x = reach_migration h x"
    using migration_footprint [of h x h'] by (simp add: reach_migration_def reach_om_def)
qed (rule migration_contract)

sublocale metadata < list: copier view_list reach_list "MigrationList_DeepCopyInto omc lmc"
proof unfold_locales
  fix h h' :: "'a store" and x :: MigrationList
  assume same: "\<And>a. a \<in> reach_list h x \<Longrightarrow> blocks h' a = blocks h a \<and> arrays h' a = arrays h a"
  have "view_lm h' (ml_ListMeta x) = view_lm h (ml_ListMeta x)"
    using same by (cases "lm_Refs (ml_ListMeta x)") (auto simp: view_lm_def reach_list_def reach_lm_def)
  moreover have "view_migration h' m = view_migration h m" if "ml_Items x = Some a" "m \<in> set (arrays h a)" for a m
    by (rule migration_footprint) (use same that in \<open>auto simp: reach_list_def\<close>)
  moreover have "arrays h' a = arrays h a" if "ml_Items x = Some a" for a using same that by (simp add: reach_list_def)
  ultimately show "view_list h' x = view_list h x \<and> reach_list h' x = reach_list h x"
    by (auto simp: view_list_def reach_list_def reach_lm_def reach_migration_def reach_om_def split: option.splits)
qed (rule list_contract)

context metadata
begin

lemma list_copier: "copier view_list reach_list (MigrationList_DeepCopyInto omc lmc)"
  by unfold_locales

end

section \<open>Properties\<close>

text \<open>The copiers of the metadata as apimachinery documents them: the data behind the struct is copied to a new block.\<close>

definition copy_block :: "nat option \<Rightarrow> 'b store \<Rightarrow> nat option \<times> 'b store" where
  "copy_block r h =
     (case r of None \<Rightarrow> (None, h)
      | Some a \<Rightarrow> (Some (next_free h), h\<lparr>blocks := (blocks h)(next_free h := blocks h a), next_free := next_free h + 1\<rparr>))"

definition copy_om :: "(ObjectMeta, 'b) copier" where
  "copy_om om h = (case copy_block (om_Refs om) h of (r, h) \<Rightarrow> (om\<lparr>om_Refs := r\<rparr>, h))"

definition copy_lm :: "(ListMeta, 'b) copier" where
  "copy_lm lm h = (case copy_block (lm_Refs lm) h of (r, h) \<Rightarrow> (lm\<lparr>lm_Refs := r\<rparr>, h))"

interpretation blocks_om: copier view_om reach_om copy_om
  by unfold_locales (auto simp: copy_om_def copy_block_def view_om_def reach_om_def grows_def split: option.splits intro!: option.map_cong0)

interpretation blocks_lm: copier view_lm reach_lm copy_lm
  by unfold_locales (auto simp: copy_lm_def copy_block_def view_lm_def reach_lm_def grows_def split: option.splits intro!: option.map_cong0)

interpretation block_metadata: metadata copy_om copy_lm ..

text \<open>
  C29. A deep copy of a list of migrations denotes the same list and shares nothing with it: it reaches only memory allocated
  by the copy, and whatever is written there later (an item, its status, its metadata), the original list still denotes
  what it did. The copy of nil is nil. What is assumed of the metadata of apimachinery is the same contract.
\<close>

theorem MigrationList_DeepCopy_independent:
  assumes "copier view_om reach_om omc" "copier view_lm reach_lm lmc" "reach_list h x \<subseteq> {..<next_free h}"
  shows "MigrationList_DeepCopy omc lmc None h = (None, h) \<and>
    (\<exists>y h'. MigrationList_DeepCopy omc lmc (Some x) h = (Some y, h') \<and>
       view_list h' y = view_list h x \<and> reach_list h' y \<subseteq> {next_free h..<next_free h'} \<and>
       (\<forall>h''. (\<forall>a. a \<notin> {next_free h..<next_free h'} \<longrightarrow> blocks h'' a = blocks h' a \<and> arrays h'' a = arrays h' a) \<longrightarrow>
          view_list h'' x = view_list h x))"
proof -
  have m: "metadata omc lmc" using assms(1,2) by (simp add: metadata_def)
  then have l: "copier view_list reach_list (MigrationList_DeepCopyInto omc lmc)"
    by (rule metadata.list_copier)
  obtain y h' where y: "MigrationList_DeepCopy omc lmc (Some x) h = (Some y, h')" "MigrationList_DeepCopyInto omc lmc x h = (y, h')"
    "view_list h' y = view_list h x" "reach_list h' y \<subseteq> {next_free h..<next_free h'}"
    using copier.deep_copy_Some [OF l assms(3)] unfolding MigrationList_DeepCopy_def by metis
  moreover have "view_list h'' x = view_list h x"
    if "\<And>a. a \<notin> {next_free h..<next_free h'} \<Longrightarrow> blocks h'' a = blocks h' a \<and> arrays h'' a = arrays h' a" for h''
    using copier.independent [OF l assms(3) y(2) that] .
  ultimately show ?thesis by (auto simp: MigrationList_DeepCopy_def deep_copy_def)
qed

definition one_migration :: "string store \<times> MigrationList" where
  "one_migration =
     (\<lparr>blocks = (\<lambda>_. ''labels''),
       arrays = (\<lambda>_. [zero_Migration\<lparr>mo_ObjectMeta := \<lparr>om_Name = ''m'', om_Namespace = ''ns'', om_Refs = Some 0\<rparr>\<rparr>]),
       next_free = 2\<rparr>,
      \<lparr>ml_TypeMeta = \<lparr>tm_Kind = ''MigrationList'', tm_APIVersion = ''kvm.cloud.sap/v1alpha1''\<rparr>,
       ml_ListMeta = \<lparr>lm_ResourceVersion = ''1'', lm_Refs = None\<rparr>, ml_Items = Some 1\<rparr>)"

theorem MigrationList_DeepCopy_independent_witness:
  "\<exists>y h'. MigrationList_DeepCopy copy_om copy_lm (Some (snd one_migration)) (fst one_migration) = (Some y, h') \<and>
     view_list h' y = view_list (fst one_migration) (snd one_migration) \<and> reach_list h' y \<subseteq> {2..<next_free h'}"
proof -
  have "reach_list (fst one_migration) (snd one_migration) \<subseteq> {..<next_free (fst one_migration)}"
    by (simp add: one_migration_def reach_list_def reach_lm_def reach_migration_def reach_om_def)
  moreover have "next_free (fst one_migration) = 2" by (simp add: one_migration_def)
  ultimately show ?thesis
    using MigrationList_DeepCopy_independent [OF blocks_om.copier_axioms blocks_lm.copier_axioms] by metis
qed

end
