(* ===== verification/JsonRead.thy ===== *)
theory JsonRead
  imports JsonDecode Utf8
begin

text \<open>
  The scanner of \<^verbatim>\<open>encoding/json\<close>, byte by byte as in \<^verbatim>\<open>scanner.go\<close>: a state (the \<^verbatim>\<open>step\<close> function) and a stack of open
  containers (\<^verbatim>\<open>parseState\<close>), with its error messages. The stack also holds the values read so far, so that the result is the
  value of the document; strings are unquoted as in \<^verbatim>\<open>decode.go\<close>. \<open>json_read\<close> is one instance of \<open>json_reader\<close>; values written
  as text are read back.
\<close>

section \<open>Strings\<close>

definition hex4 :: "string \<Rightarrow> nat" where
  "hex4 s = foldl (\<lambda>n c. 16 * n + hex_val c) 0 (take 4 s)"

definition replacement :: string where
  "replacement = [CHR 0xEF, CHR 0xBF, CHR 0xBD]"

definition escaped_char :: "char \<Rightarrow> char" where
  "escaped_char c =
     (if c = CHR ''b'' then CHR 0x08 else if c = CHR ''f'' then CHR 0x0C else if c = CHR ''n'' then CHR 0x0A
      else if c = CHR ''r'' then CHR 0x0D else if c = CHR ''t'' then CHR 0x09 else c)"

text \<open>Two escapes for the halves of a surrogate pair are one rune; a half on its own is replaced.\<close>

definition low_surrogate :: "string \<Rightarrow> nat option" where
  "low_surrogate s =
     (if take 2 s = [CHR 0x5C, CHR ''u''] \<and> 0xDC00 \<le> hex4 (drop 2 s) \<and> hex4 (drop 2 s) \<le> 0xDFFF
      then Some (hex4 (drop 2 s)) else None)"

function unquote :: "string \<Rightarrow> string" where
  "unquote [] = []"
| "unquote (c # s) =
     (if c = CHR 0x5C then
        (case s of
           [] \<Rightarrow> []
         | e # r \<Rightarrow>
             if e \<noteq> CHR ''u'' then escaped_char e # unquote r
             else if 0xD800 \<le> hex4 r \<and> hex4 r \<le> 0xDFFF then
               (case (if hex4 r < 0xDC00 then low_surrogate (drop 4 r) else None) of
                  Some l \<Rightarrow> utf8 (0x10000 + (hex4 r - 0xD800) * 1024 + (l - 0xDC00)) @ unquote (drop 10 r)
                | None \<Rightarrow> replacement @ unquote (drop 4 r))
             else utf8 (hex4 r) @ unquote (drop 4 r))
      else if is_ascii c then c # unquote s
      else if rune_len (c # s) = 0 then replacement @ unquote s
      else take (rune_len (c # s)) (c # s) @ unquote (drop (rune_len (c # s)) (c # s)))"
  by pat_completeness auto
termination by (relation "measure length") auto

section \<open>Numbers\<close>

datatype number_state = NumNeg | NumZero | NumDigits | NumDot | NumFraction | NumE | NumESign | NumExponent

definition number_start :: "char \<Rightarrow> number_state option" where
  "number_start c =
     (if c = CHR ''-'' then Some NumNeg else if c = CHR ''0'' then Some NumZero
      else if is_digit_byte c then Some NumDigits else None)"

fun number_step :: "number_state \<Rightarrow> char \<Rightarrow> number_state option" where
  "number_step NumNeg c = (if c = CHR ''0'' then Some NumZero else if is_digit_byte c then Some NumDigits else None)"
| "number_step NumZero c = (if c = CHR ''.'' then Some NumDot else if c = CHR ''e'' \<or> c = CHR ''E'' then Some NumE else None)"
| "number_step NumDigits c =
     (if is_digit_byte c then Some NumDigits else if c = CHR ''.'' then Some NumDot
      else if c = CHR ''e'' \<or> c = CHR ''E'' then Some NumE else None)"
| "number_step NumDot c = (if is_digit_byte c then Some NumFraction else None)"
| "number_step NumFraction c =
     (if is_digit_byte c then Some NumFraction else if c = CHR ''e'' \<or> c = CHR ''E'' then Some NumE else None)"
| "number_step NumE c =
     (if c = CHR ''+'' \<or> c = CHR ''-'' then Some NumESign else if is_digit_byte c then Some NumExponent else None)"
| "number_step NumESign c = (if is_digit_byte c then Some NumExponent else None)"
| "number_step NumExponent c = (if is_digit_byte c then Some NumExponent else None)"

fun number_error :: "number_state \<Rightarrow> string option" where
  "number_error NumNeg = Some ''in numeric literal''"
| "number_error NumDot = Some ''after decimal point in numeric literal''"
| "number_error NumE = Some ''in exponent of numeric literal''"
| "number_error NumESign = Some ''in exponent of numeric literal''"
| "number_error n = None"

section \<open>The scanner\<close>

datatype scan_state =
    BeginValue | BeginValueOrEmpty | BeginString | BeginStringOrEmpty
  | AfterKey | AfterMember | AfterElement | EndTop json
  | InString string | InEscape string | InUnicode nat string
  | InNumber number_state string
  | InLiteral string string json

datatype scan_frame = ArrayFrame "json list" | ObjectFrame "(string \<times> json) list" "string option"

type_synonym scanner = "scan_state \<times> scan_frame list"

text \<open>A message names the byte: \<^verbatim>\<open>quoteChar\<close>.\<close>

definition quote_char :: "char \<Rightarrow> string" where
  "quote_char c =
     [CHR 0x27] @
     (if c = CHR 0x27 then [CHR 0x5C, CHR 0x27] else if c = CHR 0x5C then [CHR 0x5C, CHR 0x5C]
      else if c = CHR 0x07 then [CHR 0x5C, CHR ''a''] else if c = CHR 0x08 then [CHR 0x5C, CHR ''b'']
      else if c = CHR 0x0C then [CHR 0x5C, CHR ''f''] else if c = CHR 0x0A then [CHR 0x5C, CHR ''n'']
      else if c = CHR 0x0D then [CHR 0x5C, CHR ''r''] else if c = CHR 0x09 then [CHR 0x5C, CHR ''t'']
      else if c = CHR 0x0B then [CHR 0x5C, CHR ''v'']
      else if is_control c \<or> c = CHR 0x7F
      then [CHR 0x5C, CHR ''x'', hex_lower (of_char c div 16), hex_lower (of_char c)]
      else if of_char c \<in> {128..160 :: nat} \<or> c = CHR 0xAD
      then [CHR 0x5C, CHR ''u'', CHR ''0'', CHR ''0'', hex_lower (of_char c div 16), hex_lower (of_char c)]
      else utf8 (of_char c)) @ [CHR 0x27]"

definition bad_char :: "char \<Rightarrow> string \<Rightarrow> string + scanner" where
  "bad_char c ctx = Inl (''invalid character '' @ quote_char c @ '' '' @ ctx)"

definition json_blank :: "char \<Rightarrow> bool" where
  "json_blank c \<longleftrightarrow> c = CHR '' '' \<or> c = CHR 0x09 \<or> c = CHR 0x0D \<or> c = CHR 0x0A"

definition max_depth :: nat where
  "max_depth = 10000"

definition push :: "char \<Rightarrow> scan_frame \<Rightarrow> scan_state \<Rightarrow> scan_frame list \<Rightarrow> string + scanner" where
  "push c f next fs = (if length fs < max_depth then Inr (next, f # fs) else bad_char c ''exceeded max depth'')"

text \<open>A value is complete: it belongs to the innermost open container.\<close>

fun complete :: "json \<Rightarrow> scan_frame list \<Rightarrow> scanner" where
  "complete v [] = (EndTop v, [])"
| "complete v (ArrayFrame vs # fs) = (AfterElement, ArrayFrame (v # vs) # fs)"
| "complete v (ObjectFrame ms None # fs) =
     (AfterKey, ObjectFrame ms (Some (case v of JsonString k \<Rightarrow> k | _ \<Rightarrow> [])) # fs)"
| "complete v (ObjectFrame ms (Some k) # fs) = (AfterMember, ObjectFrame ((k, v) # ms) None # fs)"

fun close_container :: "scan_frame list \<Rightarrow> scanner" where
  "close_container [] = (EndTop JsonNull, [])"
| "close_container (ArrayFrame vs # fs) = complete (JsonArray (rev vs)) fs"
| "close_container (ObjectFrame ms k # fs) = complete (JsonObject (rev ms)) fs"

definition begin_value :: "char \<Rightarrow> scan_frame list \<Rightarrow> string + scanner" where
  "begin_value c fs =
     (if json_blank c then Inr (BeginValue, fs)
      else if c = CHR ''{'' then push c (ObjectFrame [] None) BeginStringOrEmpty fs
      else if c = CHR ''['' then push c (ArrayFrame []) BeginValueOrEmpty fs
      else if c = CHR 0x22 then Inr (InString [], fs)
      else if c = CHR ''t'' then Inr (InLiteral ''true'' ''rue'' (JsonBool True), fs)
      else if c = CHR ''f'' then Inr (InLiteral ''false'' ''alse'' (JsonBool False), fs)
      else if c = CHR ''n'' then Inr (InLiteral ''null'' ''ull'' JsonNull, fs)
      else case number_start c of
             Some n \<Rightarrow> Inr (InNumber n [c], fs)
           | None \<Rightarrow> bad_char c ''looking for beginning of value'')"

text \<open>\<^verbatim>\<open>stateEndValue\<close>, by what is open.\<close>

fun end_value :: "scan_state \<Rightarrow> char \<Rightarrow> scan_frame list \<Rightarrow> string + scanner" where
  "end_value AfterKey c fs =
     (if json_blank c then Inr (AfterKey, fs) else if c = CHR '':'' then Inr (BeginValue, fs) else bad_char c ''after object key'')"
| "end_value AfterMember c fs =
     (if json_blank c then Inr (AfterMember, fs) else if c = CHR '','' then Inr (BeginString, fs)
      else if c = CHR ''}'' then Inr (close_container fs) else bad_char c ''after object key:value pair'')"
| "end_value AfterElement c fs =
     (if json_blank c then Inr (AfterElement, fs) else if c = CHR '','' then Inr (BeginValue, fs)
      else if c = CHR '']'' then Inr (close_container fs) else bad_char c ''after array element'')"
| "end_value s c fs = (if json_blank c then Inr (s, fs) else bad_char c ''after top-level value'')"

fun scan_step :: "scan_state \<Rightarrow> char \<Rightarrow> scan_frame list \<Rightarrow> string + scanner" where
  "scan_step BeginValue c fs = begin_value c fs"
| "scan_step BeginValueOrEmpty c fs =
     (if json_blank c then Inr (BeginValueOrEmpty, fs)
      else if c = CHR '']'' then Inr (close_container fs) else begin_value c fs)"
| "scan_step BeginString c fs =
     (if json_blank c then Inr (BeginString, fs) else if c = CHR 0x22 then Inr (InString [], fs)
      else bad_char c ''looking for beginning of object key string'')"
| "scan_step BeginStringOrEmpty c fs =
     (if json_blank c then Inr (BeginStringOrEmpty, fs)
      else if c = CHR ''}'' then Inr (close_container fs)
      else if c = CHR 0x22 then Inr (InString [], fs)
      else bad_char c ''looking for beginning of object key string'')"
| "scan_step (InString raw) c fs =
     (if c = CHR 0x22 then Inr (complete (JsonString (unquote (rev raw))) fs)
      else if c = CHR 0x5C then Inr (InEscape (c # raw), fs)
      else if is_control c then bad_char c ''in string literal''
      else Inr (InString (c # raw), fs))"
| "scan_step (InEscape raw) c fs =
     (if c = CHR ''u'' then Inr (InUnicode 4 (c # raw), fs)
      else if c \<in> set ''bfnrt/'' \<or> c = CHR 0x5C \<or> c = CHR 0x22 then Inr (InString (c # raw), fs)
      else bad_char c ''in string escape code'')"
| "scan_step (InUnicode n raw) c fs =
     (if is_digit_byte c \<or> is_hex_letter c
      then Inr (if n \<le> 1 then InString (c # raw) else InUnicode (n - 1) (c # raw), fs)
      else bad_char c (''in '' @ [CHR 0x5C] @ ''u hexadecimal character escape''))"
| "scan_step (InNumber n raw) c fs =
     (case number_step n c of
        Some n' \<Rightarrow> Inr (InNumber n' (c # raw), fs)
      | None \<Rightarrow>
          (case number_error n of
             Some msg \<Rightarrow> bad_char c msg
           | None \<Rightarrow> (case complete (JsonNumber (rev raw)) fs of (s, fs) \<Rightarrow> end_value s c fs)))"
| "scan_step (InLiteral name rest v) c fs =
     (case rest of
        [] \<Rightarrow> (case complete v fs of (s, fs) \<Rightarrow> end_value s c fs)
      | e # es \<Rightarrow>
          if c = e then Inr (if es = [] then complete v fs else (InLiteral name es v, fs))
          else bad_char c (''in literal '' @ name @ '' (expecting '' @ quote_char e @ '')''))"
| "scan_step s c fs = end_value s c fs"

fun scan :: "scanner \<Rightarrow> string \<Rightarrow> string + scanner" where
  "scan st [] = Inr st"
| "scan st (c # s) = (case scan_step (fst st) c (snd st) of Inl msg \<Rightarrow> Inl msg | Inr st' \<Rightarrow> scan st' s)"

text \<open>At the end of the input the scanner is given one more blank, which ends a number.\<close>

definition json_read :: json_reader where
  "json_read s =
     (case scan (BeginValue, []) (s @ '' '') of
        Inl msg \<Rightarrow> Inl (ForeignErr 1 msg)
      | Inr (EndTop v, fs) \<Rightarrow> Inr v
      | Inr st \<Rightarrow> Inl (ForeignErr 1 ''unexpected end of JSON input''))"

lemma scan_append: "scan st (s @ t) = (case scan st s of Inl msg \<Rightarrow> Inl msg | Inr st' \<Rightarrow> scan st' t)"
  by (induction st s rule: scan.induct) (auto split: sum.splits)

section \<open>Writing\<close>

definition quote_json_char :: "char \<Rightarrow> string" where
  "quote_json_char c =
     (if c = CHR 0x22 then [CHR 0x5C, CHR 0x22] else if c = CHR 0x5C then [CHR 0x5C, CHR 0x5C]
      else if is_control c
      then [CHR 0x5C, CHR ''u'', CHR ''0'', CHR ''0'', hex_lower (of_char c div 16), hex_lower (of_char c)]
      else [c])"

definition quote_json :: "string \<Rightarrow> string" where
  "quote_json s = CHR 0x22 # concat (map quote_json_char s) @ [CHR 0x22]"

fun commas :: "string list \<Rightarrow> string" where
  "commas [] = []"
| "commas [s] = s"
| "commas (s # ss) = s @ CHR '','' # commas ss"

fun json_text :: "json \<Rightarrow> string" where
  "json_text JsonNull = ''null''"
| "json_text (JsonBool b) = (if b then ''true'' else ''false'')"
| "json_text (JsonNumber s) = s"
| "json_text (JsonString s) = quote_json s"
| "json_text (JsonArray vs) = ''['' @ commas (map json_text vs) @ '']''"
| "json_text (JsonObject ms) = ''{'' @ commas (map (\<lambda>m. quote_json (fst m) @ CHR '':'' # json_text (snd m)) ms) @ ''}''"

fun number_steps :: "number_state \<Rightarrow> string \<Rightarrow> number_state option" where
  "number_steps n [] = Some n"
| "number_steps n (c # s) = (case number_step n c of None \<Rightarrow> None | Some n' \<Rightarrow> number_steps n' s)"

definition json_number :: "string \<Rightarrow> bool" where
  "json_number s =
     (case s of [] \<Rightarrow> False
      | c # r \<Rightarrow>
          (case number_start c of None \<Rightarrow> False
           | Some n \<Rightarrow> (case number_steps n r of None \<Rightarrow> False | Some n' \<Rightarrow> number_error n' = None)))"

text \<open>Valid UTF-8.\<close>

function valid_utf8 :: "string \<Rightarrow> bool" where
  "valid_utf8 [] = True"
| "valid_utf8 (c # s) =
     (if is_ascii c then valid_utf8 s
      else if rune_len (c # s) = 0 then False
      else valid_utf8 (drop (rune_len (c # s)) (c # s)))"
  by pat_completeness auto
termination by (relation "measure length") auto

text \<open>The containers that may still be opened: \<open>n\<close>.\<close>

fun json_writable :: "nat \<Rightarrow> json \<Rightarrow> bool" where
  "json_writable n (JsonNumber s) = json_number s"
| "json_writable n (JsonString s) = valid_utf8 s"
| "json_writable n (JsonArray vs) = (0 < n \<and> list_all (json_writable (n - 1)) vs)"
| "json_writable n (JsonObject ms) = (0 < n \<and> list_all (\<lambda>m. valid_utf8 (fst m) \<and> json_writable (n - 1) (snd m)) ms)"
| "json_writable n v = True"

section \<open>Strings come back\<close>

lemma hex_val_lower: "n < 16 \<Longrightarrow> hex_val (hex_lower n) = n \<and> (is_digit_byte (hex_lower n) \<or> is_hex_letter (hex_lower n)) \<and>
    hex_lower n \<noteq> CHR 0x22"
proof -
  assume "n < 16"
  then have "n \<in> {0, 1, 2, 3, 4, 5, 6, 7, 8, 9, 10, 11, 12, 13, 14, 15}" by (simp, presburger)
  then show ?thesis by (auto simp: hex_lower_def hex_val_def is_hex_letter_def)
qed

lemma hex_lower_mod: "hex_lower n = hex_lower (n mod 16)"
  by (simp add: hex_lower_def)

lemma unquote_control:
  assumes "is_control c"
  shows "unquote (quote_json_char c @ s) = c # unquote s"
proof -
  have n: "of_char c < (32 :: nat)" using assms char_classes(2) by blast
  let ?n = "of_char c :: nat"
  have "hex4 (CHR ''0'' # CHR ''0'' # hex_lower (?n div 16) # hex_lower ?n # s) = 16 * (?n div 16) + ?n mod 16"
    using hex_val_lower [of "?n div 16"] hex_val_lower [of "?n mod 16"] hex_lower_mod [of ?n] n
    by (simp add: hex4_def hex_val_def)
  then have "hex4 (CHR ''0'' # CHR ''0'' # hex_lower (?n div 16) # hex_lower ?n # s) = ?n" by simp
  moreover have "c \<noteq> CHR 0x22" "c \<noteq> CHR 0x5C" using assms by auto
  ultimately show ?thesis using n assms by (simp add: quote_json_char_def utf8_def)
qed

lemma unquote_plain:
  assumes "is_ascii c" "\<not> is_control c"
  shows "unquote (quote_json_char c @ s) = c # unquote s"
  using assms by (auto simp: quote_json_char_def escaped_char_def)

lemma not_ascii_quote: "\<not> is_ascii c \<Longrightarrow> quote_json_char c = [c]"
  by (cases c) (auto simp: quote_json_char_def)

lemma not_ascii_quotes: "\<forall>c \<in> set h. \<not> is_ascii c \<Longrightarrow> concat (map quote_json_char h) = h"
  by (induction h) (simp_all add: not_ascii_quote)

text \<open>The bytes of a rune decide its length, and none of them is ASCII.\<close>

lemma rune_bytes:
  assumes "rune_len s = n" "n \<noteq> 0"
  shows "n \<le> length s" "rune_len (take n s @ t) = n" "\<forall>c \<in> set (take n s). \<not> is_ascii c"
proof -
  from assms obtain a b r where s: "s = a # b # r" and n: "announced a = n" "n \<le> length s" "second_byte a b"
      "list_all continuation (take (n - 2) r)"
    by (auto simp: rune_len_def split: list.splits if_splits)
  then have n2: "2 \<le> n" using assms(2) by (auto simp: announced_def Let_def split: if_splits)
  then obtain k where k: "n = Suc (Suc k)" by (metis add_2_eq_Suc le_Suc_ex)
  show "n \<le> length s" by (rule n)
  show "rune_len (take n s @ t) = n" using n k by (simp add: s rune_len_def)
  have cont: "continuation c \<Longrightarrow> \<not> is_ascii c" for c using char_classes(1) [of c] by (auto simp: continuation_def)
  have "\<not> is_ascii a" using n(1) assms(2) char_classes(1) [of a] by (auto simp: announced_def Let_def split: if_splits)
  moreover have "\<not> is_ascii b" using n(3) cont by (simp add: second_byte_def)
  ultimately show "\<forall>c \<in> set (take n s). \<not> is_ascii c" using n(4) cont by (auto simp: s k list_all_iff)
qed

lemma not_ascii_neq: "\<not> is_ascii c \<Longrightarrow> c \<noteq> CHR 0x5C"
  by auto

lemma unquote_rune:
  assumes "\<not> is_ascii c" "h = c # s" "rune_len (h @ q) = length h"
  shows "unquote (h @ q) = h @ unquote q"
  using assms not_ascii_neq [OF assms(1)] by simp

lemma unquote_quoted: "valid_utf8 s \<Longrightarrow> unquote (concat (map quote_json_char s)) = s"
proof (induction s rule: valid_utf8.induct)
  case (2 c s)
  show ?case
  proof (cases "is_ascii c")
    case True
    then show ?thesis using 2 unquote_control [of c] unquote_plain [of c] by (cases "is_control c") simp_all
  next
    case False
    define n where "n = rune_len (c # s)"
    have n: "n \<noteq> 0" "valid_utf8 (drop n (c # s))" using False "2.prems" by (auto simp: n_def split: if_splits)
    note bytes = rune_bytes [OF n_def [symmetric] n(1)]
    let ?h = "take n (c # s)" and ?q = "concat (map quote_json_char (drop n (c # s)))"
    have "concat (map quote_json_char ?h) = ?h"
      using bytes(3) by (rule not_ascii_quotes)
    then have "concat (map quote_json_char (c # s)) = ?h @ ?q" by (metis append_take_drop_id concat_append map_append)
    moreover obtain s' where h: "?h = c # s'" using n(1) by (cases n) auto
    have "length ?h = n" using bytes(1) by simp
    then have "unquote (?h @ ?q) = ?h @ unquote ?q" using bytes(2) [of ?q] by (intro unquote_rune [OF False h]) simp
    moreover have "unquote ?q = drop n (c # s)" using "2.IH"(2) [OF False] n by (simp add: n_def)
    ultimately show ?thesis by simp
  qed
qed simp

text \<open>The scanner goes through the text of a string.\<close>

lemma scan_quoted_char:
  "scan (InString raw, fs) (quote_json_char c @ s) = scan (InString (rev (quote_json_char c) @ raw), fs) s"
proof (cases "c = CHR 0x22 \<or> c = CHR 0x5C \<or> \<not> is_control c")
  case True
  then show ?thesis by (auto simp: quote_json_char_def)
next
  case False
  have "of_char c < (32 :: nat)" using False char_classes(2) by blast
  then show ?thesis using False hex_val_lower [of "of_char c div 16"] hex_val_lower [of "of_char c mod 16"] hex_lower_mod [of "of_char c"]
    by (simp add: quote_json_char_def)
qed

lemma scan_quoted:
  "scan (InString raw, fs) (concat (map quote_json_char s) @ t) = scan (InString (rev (concat (map quote_json_char s)) @ raw), fs) t"
  by (induction s arbitrary: raw) (simp_all add: scan_quoted_char)

lemma scan_string:
  assumes "valid_utf8 s"
  shows "scan (InString [], fs) (tl (quote_json s) @ t) = scan (complete (JsonString s) fs) t"
  using scan_quoted [of "[]" fs s "CHR 0x22 # t"] assms by (simp add: quote_json_def unquote_quoted)

section \<open>Numbers come back\<close>

definition json_delimiter :: "char \<Rightarrow> bool" where
  "json_delimiter c \<longleftrightarrow> c = CHR '','' \<or> c = CHR '']'' \<or> c = CHR ''}'' \<or> c = CHR '' ''"

lemma number_step_delimiter: "json_delimiter c \<Longrightarrow> number_step n c = None"
  by (cases n) (auto simp: json_delimiter_def)

lemma complete_end: "complete v fs = (st, gs) \<Longrightarrow> scan_step st c gs = end_value st c gs"
  by (induction v fs rule: complete.induct) auto

lemma number_start_other: "number_start a = Some n \<Longrightarrow> \<not> json_blank a \<and> a \<notin> {CHR ''{'', CHR ''['', CHR 0x22, CHR ''t'', CHR ''f'', CHR ''n'', CHR '']''}"
  by (cases "a = CHR ''-''"; cases "a = CHR ''0''"; cases "is_digit_byte a") (auto simp: number_start_def json_blank_def)

lemma scan_number:
  assumes "number_steps n s = Some n'" "number_error n' = None" "json_delimiter c"
  shows "scan (InNumber n raw, fs) (s @ c # t) = scan (complete (JsonNumber (rev raw @ s)) fs) (c # t)"
  using assms(1)
proof (induction n s arbitrary: raw rule: number_steps.induct)
  case (1 n)
  obtain st gs where st: "complete (JsonNumber (rev raw)) fs = (st, gs)" by fastforce
  have "scan_step st c gs = end_value st c gs" using st by (rule complete_end)
  then show ?case using 1 assms(2,3) st by (simp add: number_step_delimiter)
qed (auto split: option.splits)

section \<open>Values come back\<close>

text \<open>Literals and numbers are complete with the byte that follows, everything else before it.\<close>

lemma scan_begin_number:
  assumes "json_number s" "json_delimiter c"
  shows "scan (BeginValue, fs) (s @ c # t) = scan (complete (JsonNumber s) fs) (c # t)"
proof -
  from assms(1) obtain a r n n' where s: "s = a # r" and n: "number_start a = Some n" "number_steps n r = Some n'" "number_error n' = None"
    by (auto simp: json_number_def split: list.splits option.splits)
  have "scan_step BeginValue a fs = Inr (InNumber n [a], fs)"
    using n(1) number_start_other [OF n(1)] by (simp add: begin_value_def)
  then show ?thesis using scan_number [OF n(2,3) assms(2), of "[a]" fs t] by (simp add: s)
qed

lemma json_text_hd:
  assumes "json_writable n v"
  shows "\<exists>c r. json_text v = c # r \<and> \<not> json_blank c \<and> c \<noteq> CHR '']''"
proof (cases v)
  case (JsonNumber s)
  with assms obtain a r m where "s = a # r" "number_start a = Some m"
    by (auto simp: json_number_def split: list.splits option.splits)
  with JsonNumber number_start_other [of a m] show ?thesis by simp
qed (auto simp: json_blank_def quote_json_def)

text \<open>What is shown of a value, and the loops over the elements and the members of a container.\<close>

definition reads_back :: "nat \<Rightarrow> json \<Rightarrow> bool" where
  "reads_back n v \<longleftrightarrow> (\<forall>fs c t. length fs + n \<le> max_depth \<longrightarrow> json_delimiter c \<longrightarrow>
     scan (BeginValue, fs) (json_text v @ c # t) = scan (complete v fs) (c # t))"

lemma delimiters [simp]: "json_delimiter (CHR '','')" "json_delimiter (CHR '']'')" "json_delimiter (CHR ''}'')" "json_delimiter (CHR '' '')"
  by (simp_all add: json_delimiter_def)

lemma not_blank [simp]: "\<not> json_blank (CHR '','')" "\<not> json_blank (CHR '']'')" "\<not> json_blank (CHR ''}'')" "\<not> json_blank (CHR '':'')"
  "\<not> json_blank (CHR ''['')" "\<not> json_blank (CHR ''{'')" "\<not> json_blank (CHR 0x22)"
  by (simp_all add: json_blank_def)

lemma scan_elements:
  assumes "\<And>v. v \<in> set vs \<Longrightarrow> reads_back n v" "length fs + n < max_depth" "vs \<noteq> []"
  shows "scan (BeginValue, ArrayFrame acc # fs) (commas (map json_text vs) @ CHR '']'' # t) = scan (complete (JsonArray (rev acc @ vs)) fs) t"
  using assms(1,3)
proof (induction vs arbitrary: acc)
  case (Cons v vs)
  have v: "scan (BeginValue, ArrayFrame acc # fs) (json_text v @ c # u) = scan (complete v (ArrayFrame acc # fs)) (c # u)"
    if "json_delimiter c" for c u
    using Cons.prems(1) [of v] assms(2) that by (simp add: reads_back_def)
  show ?case
  proof (cases vs)
    case Nil
    then show ?thesis by (simp add: v)
  next
    case vs: (Cons w ws)
    then have "scan (BeginValue, ArrayFrame acc # fs) (commas (map json_text (v # vs)) @ CHR '']'' # t) =
        scan (BeginValue, ArrayFrame (v # acc) # fs) (commas (map json_text vs) @ CHR '']'' # t)"
      by (simp add: v)
    then show ?thesis using Cons.IH [of "v # acc"] Cons.prems(1) vs by simp
  qed
qed simp

definition member_text :: "string \<times> json \<Rightarrow> string" where
  "member_text m = quote_json (fst m) @ CHR '':'' # json_text (snd m)"

lemma scan_member:
  assumes "valid_utf8 k" "reads_back n v" "length fs + n < max_depth" "json_delimiter c" "st = BeginString \<or> st = BeginStringOrEmpty"
  shows "scan (st, ObjectFrame ms None # fs) (member_text (k, v) @ c # t) = scan (AfterMember, ObjectFrame ((k, v) # ms) None # fs) (c # t)"
proof -
  have "scan (st, ObjectFrame ms None # fs) (member_text (k, v) @ c # t) =
      scan (InString [], ObjectFrame ms None # fs) (tl (quote_json k) @ CHR '':'' # json_text v @ c # t)"
    using assms(5) by (auto simp: member_text_def quote_json_def)
  also have "\<dots> = scan (BeginValue, ObjectFrame ms (Some k) # fs) (json_text v @ c # t)"
    by (simp add: scan_string [OF assms(1)])
  also have "\<dots> = scan (AfterMember, ObjectFrame ((k, v) # ms) None # fs) (c # t)"
    using assms(2-4) by (simp add: reads_back_def)
  finally show ?thesis .
qed

lemma scan_members:
  assumes "\<And>m. m \<in> set ms \<Longrightarrow> valid_utf8 (fst m) \<and> reads_back n (snd m)" "length fs + n < max_depth" "ms \<noteq> []"
    "st = BeginString \<or> st = BeginStringOrEmpty"
  shows "scan (st, ObjectFrame acc None # fs) (commas (map member_text ms) @ CHR ''}'' # t) = scan (complete (JsonObject (rev acc @ ms)) fs) t"
  using assms(1,3,4)
proof (induction ms arbitrary: acc st)
  case (Cons m ms)
  obtain k v where m: "m = (k, v)" by (cases m)
  have v: "scan (st, ObjectFrame acc None # fs) (member_text m @ c # u) = scan (AfterMember, ObjectFrame (m # acc) None # fs) (c # u)"
    if "json_delimiter c" for c u
    using Cons.prems(1) [of m] scan_member [OF _ _ assms(2) that Cons.prems(3)] by (simp add: m)
  show ?case
  proof (cases ms)
    case Nil
    then show ?thesis by (simp add: v)
  next
    case ms: (Cons w ws)
    then have "scan (st, ObjectFrame acc None # fs) (commas (map member_text (m # ms)) @ CHR ''}'' # t) =
        scan (BeginString, ObjectFrame (m # acc) None # fs) (commas (map member_text ms) @ CHR ''}'' # t)"
      by (simp add: v)
    then show ?thesis using Cons.IH [of BeginString "m # acc"] Cons.prems(1) ms by simp
  qed
qed simp

lemma scan_value: "json_writable n v \<Longrightarrow> reads_back n v"
proof (induction v arbitrary: n)
  case (JsonNumber s)
  then show ?case by (simp add: reads_back_def scan_begin_number)
next
  case (JsonString s)
  then have "valid_utf8 s" by simp
  then have "scan (BeginValue, fs) (json_text (JsonString s) @ c # t) = scan (complete (JsonString s) fs) (c # t)" for fs c t
    using scan_string [of s fs "c # t"] by (simp add: quote_json_def begin_value_def)
  then show ?case by (simp add: reads_back_def)
next
  case (JsonArray vs)
  then have n: "0 < n" "\<And>v. v \<in> set vs \<Longrightarrow> json_writable (n - 1) v" by (simp_all add: list_all_iff)
  with JsonArray.IH have items: "\<And>v. v \<in> set vs \<Longrightarrow> reads_back (n - 1) v" by blast
  have "scan (BeginValue, fs) (json_text (JsonArray vs) @ c # t) = scan (complete (JsonArray vs) fs) (c # t)"
    if "length fs + n \<le> max_depth" for fs c t
  proof -
    have d: "length fs + (n - 1) < max_depth" "length fs < max_depth" using that n(1) by simp_all
    have "scan (BeginValue, fs) (json_text (JsonArray vs) @ c # t) =
        scan (BeginValueOrEmpty, ArrayFrame [] # fs) (commas (map json_text vs) @ CHR '']'' # c # t)"
      using d(2) by (simp add: begin_value_def push_def)
    also have "\<dots> = scan (complete (JsonArray vs) fs) (c # t)"
    proof (cases vs)
      case (Cons w ws)
      obtain a r where a: "json_text w = a # r" "\<not> json_blank a" "a \<noteq> CHR '']''"
        using json_text_hd [OF n(2) [of w]] Cons by auto
      then have "\<exists>u. commas (map json_text vs) = a # u" using Cons by (cases ws) simp_all
      then have "scan (BeginValueOrEmpty, ArrayFrame [] # fs) (commas (map json_text vs) @ u) =
          scan (BeginValue, ArrayFrame [] # fs) (commas (map json_text vs) @ u)" for u
        using a(2,3) by auto
      then show ?thesis using scan_elements [of vs "n - 1" fs "[]" "c # t"] items d(1) Cons by (simp del: scan.simps)
    qed simp
    finally show ?thesis .
  qed
  then show ?case by (simp add: reads_back_def)
next
  case (JsonObject ms)
  then have n: "0 < n" "\<And>m. m \<in> set ms \<Longrightarrow> valid_utf8 (fst m) \<and> json_writable (n - 1) (snd m)" by (simp_all add: list_all_iff)
  have items: "valid_utf8 (fst m) \<and> reads_back (n - 1) (snd m)" if "m \<in> set ms" for m
    using JsonObject.IH [OF that, of "snd m"] n(2) [OF that] by (cases m) simp
  have written: "json_text (JsonObject ms) = ''{'' @ commas (map member_text ms) @ ''}''" by (simp add: member_text_def [abs_def])
  have "scan (BeginValue, fs) (json_text (JsonObject ms) @ c # t) = scan (complete (JsonObject ms) fs) (c # t)"
    if "length fs + n \<le> max_depth" for fs c t
  proof -
    have d: "length fs + (n - 1) < max_depth" "length fs < max_depth" using that n(1) by simp_all
    have "scan (BeginValue, fs) (json_text (JsonObject ms) @ c # t) =
        scan (BeginStringOrEmpty, ObjectFrame [] None # fs) (commas (map member_text ms) @ CHR ''}'' # c # t)"
      using d(2) by (simp add: written begin_value_def push_def del: json_text.simps)
    also have "\<dots> = scan (complete (JsonObject ms) fs) (c # t)"
      using scan_members [of ms "n - 1" fs BeginStringOrEmpty "[]" "c # t"] items d(1) by (cases ms) (simp_all del: scan.simps, simp)
    finally show ?thesis .
  qed
  then show ?case by (simp add: reads_back_def)
qed (simp_all add: reads_back_def begin_value_def json_blank_def)

text \<open>A value that nests at most as deep as the scanner allows is read back from its text.\<close>

lemma json_read_text:
  assumes "json_writable max_depth v"
  shows "json_read (json_text v) = Inr v"
proof -
  have "scan (BeginValue, []) (json_text v @ '' '') = scan (EndTop v, []) '' ''"
    using scan_value [OF assms] by (simp add: reads_back_def)
  also have "\<dots> = Inr (EndTop v, [])" by (simp add: json_blank_def)
  finally show ?thesis by (simp add: json_read_def)
qed

end
