(* ===== verification/DescriptorProps.thy ===== *)
theory DescriptorProps
  imports Systemd JsonRead
begin

text \<open>
  The type discipline of \<^verbatim>\<open>Describe\<close>: which documents \<^verbatim>\<open>json.Unmarshal\<close> accepts for the struct
  \<^verbatim>\<open>Descriptor\<close>. The fields are given their Go types by a table; a document is well typed when every
  member whose key selects a field has a value of the type of that field.
\<close>

section \<open>The types of the fields\<close>

datatype json_type = TString | TInt64 | TAny | TSlice json_type

text \<open>A number that is an integer as written, without fraction or exponent, and within 64 bits.\<close>

definition int_literal :: "string \<Rightarrow> bool" where
  "int_literal s =
     (let neg = (s \<noteq> [] \<and> hd s = CHR ''-'');
          digits = (if s \<noteq> [] \<and> (hd s = CHR ''+'' \<or> hd s = CHR ''-'') then tl s else s)
      in digits \<noteq> [] \<and> list_all is_dec_digit digits \<and> undec digits < 2 ^ 63 + (if neg then 1 else 0))"

text \<open>An interface holds every value whose numbers fit a \<^verbatim>\<open>float64\<close>.\<close>

fun numbers_fit :: "json \<Rightarrow> bool" where
  "numbers_fit (JsonNumber s) = is_finite (parse_float s)"
| "numbers_fit (JsonArray vs) = list_all numbers_fit vs"
| "numbers_fit (JsonObject ms) = list_all (\<lambda>m. numbers_fit (snd m)) ms"
| "numbers_fit v = True"

fun fits :: "json_type \<Rightarrow> json \<Rightarrow> bool" where
  "fits t JsonNull = True"
| "fits TString v = (case v of JsonString s \<Rightarrow> True | _ \<Rightarrow> False)"
| "fits TInt64 v = (case v of JsonNumber s \<Rightarrow> int_literal s | _ \<Rightarrow> False)"
| "fits TAny v = numbers_fit v"
| "fits (TSlice t) v = (case v of JsonArray vs \<Rightarrow> list_all (fits t) vs | _ \<Rightarrow> False)"

text \<open>A key selects a field exactly or, failing that, without regard to case.\<close>

definition key_type :: "(string \<times> json_type) list \<Rightarrow> string \<Rightarrow> json_type option" where
  "key_type ts k =
     (case List.find (\<lambda>f. fst f = k) ts of
        Some f \<Rightarrow> Some (snd f)
      | None \<Rightarrow> map_option snd (List.find (\<lambda>f. fold_key (fst f) = fold_key k) ts))"

definition well_typed :: "(string \<times> json_type) list \<Rightarrow> json \<Rightarrow> bool" where
  "well_typed ts v =
     (case v of JsonNull \<Rightarrow> True
      | JsonObject ms \<Rightarrow> list_all (\<lambda>m. case key_type ts (fst m) of None \<Rightarrow> True | Some t \<Rightarrow> fits t (snd m)) ms
      | _ \<Rightarrow> False)"

definition Descriptor_types :: "(string \<times> json_type) list" where
  "Descriptor_types =
     [(''Hostname'', TString), (''StaticHostname'', TString), (''PrettyHostname'', TAny),
      (''DefaultHostname'', TString), (''HostnameSource'', TString), (''IconName'', TString),
      (''Chassis'', TString), (''Deployment'', TAny), (''Location'', TAny), (''KernelName'', TString),
      (''KernelRelease'', TString), (''KernelVersion'', TString), (''PrettyName'', TString),
      (''OperatingSystemCPEName'', TAny), (''OperatingSystemHomeURL'', TString),
      (''OperatingSystemReleaseData'', TSlice TString), (''MachineInformationData'', TSlice TAny),
      (''HardwareVendor'', TString), (''HardwareModel'', TString), (''HardwareSerial'', TString),
      (''FirmwareVersion'', TString), (''FirmwareVendor'', TString), (''FirmwareDate'', TInt64),
      (''MachineID'', TString), (''BootID'', TString), (''ProductUUID'', TString), (''VSockCID'', TAny)]"

section \<open>Decoders and types\<close>

text \<open>
  A decoder implements a type when it reports an error exactly for the values outside the type,
  whatever the field held before.
\<close>

locale decodes =
  fixes d :: "'a json_decoder" and t :: json_type
  assumes no_error: "snd (d field v old) = None \<longleftrightarrow> fits t v"
begin

lemma elements_no_error: "snd (into_elements d zero field vs old) = None \<longleftrightarrow> list_all (fits t) vs"
proof (induction vs arbitrary: old)
  case (Cons v vs)
  show ?case using no_error [of field v "case old of [] \<Rightarrow> zero | x # xs \<Rightarrow> x"] Cons.IH [of "tl old"]
    by (auto split: prod.splits)
qed simp

lemma slice: "decodes (into_slice ty d zero) (TSlice t)"
proof
  fix field v old
  show "snd (into_slice ty d zero field v old) = None \<longleftrightarrow> fits (TSlice t) v"
    by (cases v) (simp_all add: into_slice_def elements_no_error)
qed

lemma field_no_error: "snd (snd (json_field key get upd d) field v a) = None \<longleftrightarrow> fits t v"
  using no_error [of field v "get a"] by (simp add: json_field_def case_prod_beta)

end

text \<open>\<^verbatim>\<open>ParseInt\<close> accepts exactly the integer literals.\<close>

lemma ParseInt_literal: "(\<exists>i. ParseInt s = Inr i) \<longleftrightarrow> int_literal s"
proof -
  define neg where "neg = (s \<noteq> [] \<and> hd s = CHR ''-'')"
  define ds where "ds = (if s \<noteq> [] \<and> (hd s = CHR ''+'' \<or> hd s = CHR ''-'') then tl s else s)"
  have "int_literal s \<longleftrightarrow> (\<exists>n. ParseUint ds = Inr n \<and> n < 2 ^ 63 + (if neg then 1 else 0))"
    by (auto simp: int_literal_def Let_def neg_def [symmetric] ds_def [symmetric] ParseUint_iff)
  moreover have "(\<exists>i. ParseInt s = Inr i) \<longleftrightarrow> (\<exists>n. ParseUint ds = Inr n \<and> n < 2 ^ 63 + (if neg then 1 else 0))"
  proof (cases s)
    case Nil
    then show ?thesis by (simp add: ParseInt_def ds_def ParseUint_def)
  next
    case (Cons c cs)
    then have "s \<noteq> []" "(hd s = CHR ''-'') = neg" "(if hd s = CHR ''+'' \<or> hd s = CHR ''-'' then tl s else s) = ds"
      by (simp_all add: neg_def ds_def)
    note parts = this
    have "ParseInt s = (if ParseUint ds = Inl ErrSyntax then Inl ErrSyntax
        else let un = (case ParseUint ds of Inl e \<Rightarrow> 2 ^ 64 - 1 | Inr n \<Rightarrow> n)
             in if \<not> neg \<and> 2 ^ 63 \<le> un then Inl ErrRange else if neg \<and> 2 ^ 63 < un then Inl ErrRange
                else Inr (if neg then - int un else int un))"
      using parts(1) by (simp only: ParseInt_def Let_def parts(3) if_False) (simp only: parts(2))
    then show ?thesis
    proof (cases "ParseUint ds")
      case (Inl e)
      with \<open>ParseInt s = _\<close> show ?thesis by (cases e) simp_all
    next
      case (Inr n)
      with \<open>ParseInt s = _\<close> show ?thesis by (auto simp: Let_def not_less)
    qed
  qed
  ultimately show ?thesis by simp
qed

lemma any_no_error:
  "snd (any_value field v) = None \<longleftrightarrow> numbers_fit v"
  "snd (any_items field vs) = None \<longleftrightarrow> list_all numbers_fit vs"
  "snd (any_members field ms acc) = None \<longleftrightarrow> list_all (\<lambda>m. numbers_fit (snd m)) ms"
proof (induction field v and field vs and field ms acc rule: any_value_any_items_any_members.induct)
qed (auto split: prod.splits)

interpretation string_type: decodes into_string TString
proof
  fix field v old
  show "snd (into_string field v old) = None \<longleftrightarrow> fits TString v" by (cases v) (simp_all add: into_string_def)
qed

interpretation int64_type: decodes into_int64 TInt64
proof
  fix field v old
  show "snd (into_int64 field v old) = None \<longleftrightarrow> fits TInt64 v"
    by (cases v) (auto simp: into_int64_def ParseInt_literal [symmetric] split: sum.splits)
qed

interpretation any_type: decodes into_any TAny
proof
  fix field v old
  show "snd (into_any field v old) = None \<longleftrightarrow> fits TAny v" by (cases v) (simp_all add: into_any_def case_prod_beta any_no_error)
qed

interpretation strings_type: decodes "into_slice ty into_string zero" "TSlice TString" for ty zero
  by (rule string_type.slice)

interpretation anys_type: decodes "into_slice ty into_any zero" "TSlice TAny" for ty zero
  by (rule any_type.slice)

section \<open>Structs and tables of types\<close>

definition typed_field :: "'a json_field \<Rightarrow> string \<times> json_type \<Rightarrow> bool" where
  "typed_field f ft \<longleftrightarrow> fst f = fst ft \<and> (\<forall>field v a. snd (snd f field v a) = None \<longleftrightarrow> fits (snd ft) v)"

lemma find_typed:
  assumes "list_all2 typed_field fs ts"
  shows "rel_option typed_field (List.find (\<lambda>f. P (fst f)) fs) (List.find (\<lambda>f. P (fst f)) ts)"
  using assms by (induction rule: list_all2_induct) (auto simp: typed_field_def)

lemma find_field_typed:
  assumes "list_all2 typed_field fs ts"
  shows "rel_option (\<lambda>f t. \<forall>field v a. snd (snd f field v a) = None \<longleftrightarrow> fits t v) (find_field fs k) (key_type ts k)"
  using find_typed [OF assms, of "\<lambda>x. x = k"] find_typed [OF assms, of "\<lambda>x. fold_key x = fold_key k"]
  by (auto simp: find_field_def key_type_def typed_field_def split: option.splits elim!: option.rel_cases)

lemma json_members_no_error:
  assumes "list_all2 typed_field fs ts"
  shows "snd (json_members struct fs ms a) = None \<longleftrightarrow>
         list_all (\<lambda>m. case key_type ts (fst m) of None \<Rightarrow> True | Some t \<Rightarrow> fits t (snd m)) ms"
proof (induction ms arbitrary: a)
  case (Cons m ms)
  show ?case
  proof (cases "find_field fs (fst m)")
    case None
    then show ?thesis using find_field_typed [OF assms, of "fst m"] Cons.IH by (simp split: option.splits)
  next
    case (Some f)
    then obtain t where "key_type ts (fst m) = Some t" "\<And>field v a. snd (snd f field v a) = None \<longleftrightarrow> fits t v"
      using find_field_typed [OF assms, of "fst m"] by (auto elim: option.rel_cases)
    then show ?thesis using Some Cons.IH [of "fst (snd f (struct @ ''.'' @ fst f) (snd m) a)"]
      by (auto split: prod.splits) (metis snd_conv)+
  qed
qed simp

lemma typed_json_field:
  "decodes d t \<Longrightarrow> typed_field (json_field key get upd d) (key, t)"
  by (auto simp: typed_field_def decodes.field_no_error) (simp_all add: json_field_def)

lemmas Descriptor_decoders =
  string_type.decodes_axioms int64_type.decodes_axioms any_type.decodes_axioms
  strings_type.decodes_axioms anys_type.decodes_axioms

lemma Descriptor_typed: "list_all2 typed_field Descriptor_fields Descriptor_types"
  by (simp add: Descriptor_fields_def Descriptor_types_def typed_json_field Descriptor_decoders)

lemma unmarshal_no_error: "snd (unmarshal_Descriptor v a) = None \<longleftrightarrow> well_typed Descriptor_types v"
  by (cases v) (simp_all add: unmarshal_Descriptor_def json_struct_def well_typed_def json_members_no_error [OF Descriptor_typed])

lemma json_Unmarshal_ok:
  "(\<exists>a. json_Unmarshal rd d zero data = Inr a) \<longleftrightarrow> (\<exists>v. rd data = Inr v \<and> snd (d v zero) = None)"
  by (auto simp: json_Unmarshal_def split: sum.splits prod.splits option.splits)

section \<open>The property\<close>

text \<open>
  C28. \<^verbatim>\<open>Describe\<close> returns a descriptor exactly when the bus answers with a JSON document that is \<^verbatim>\<open>null\<close> or an
  object in which every member that selects a field of \<^verbatim>\<open>Descriptor\<close>, by its exact key or without regard
  to case, has a value of the Go type of that field: a string for a string, an integer literal within 64
  bits for \<^verbatim>\<open>FirmwareDate\<close>, an array of such values for the two slices, anything whose numbers are
  within the range of \<^verbatim>\<open>float64\<close> for an interface, and \<^verbatim>\<open>null\<close> for each of them. Members with other keys do not
  matter. In every other case it returns an error.
\<close>

theorem Describe_well_typed:
  "(\<exists>desc tr'. Describe D rd tr = (Inr desc, tr')) \<longleftrightarrow>
   (\<exists>res v. d_Describe D tr = Inr res \<and> rd res = Inr v \<and> well_typed Descriptor_types v)"
proof (cases "d_Describe D tr")
  case (Inl err)
  then show ?thesis by (simp add: Describe_def ext_def)
next
  case (Inr res)
  then have "(\<exists>desc tr'. Describe D rd tr = (Inr desc, tr')) \<longleftrightarrow>
      (\<exists>desc. json_Unmarshal rd unmarshal_Descriptor zero_Descriptor res = Inr desc)"
    by (auto simp: Describe_def ext_def split: sum.splits)
  with Inr show ?thesis by (simp add: json_Unmarshal_ok unmarshal_no_error)
qed

text \<open>For the text of a document, as the scanner of \<^verbatim>\<open>encoding/json\<close> reads it.\<close>

lemma Describe_text:
  assumes "d_Describe D tr = Inr (json_text v)" "json_writable max_depth v"
  shows "(\<exists>desc tr'. Describe D json_read tr = (Inr desc, tr')) \<longleftrightarrow> well_typed Descriptor_types v"
  using assms json_read_text [OF assms(2)]
  by (auto simp: Describe_def ext_def json_Unmarshal_def unmarshal_no_error [of v zero_Descriptor, symmetric]
      split: sum.splits prod.splits option.splits)

text \<open>Two documents: in the first the key differs in case only, in the second the date is a string.\<close>

lemma well_typed_samples:
  "well_typed Descriptor_types (JsonObject [(''hostname'', JsonString ''n''), (''FirmwareDate'', JsonNumber ''-12'')])"
  "\<not> well_typed Descriptor_types (JsonObject [(''FirmwareDate'', JsonString ''12'')])"
  by (simp_all add: well_typed_def key_type_def Descriptor_types_def int_literal_def undec_def digit_val_def is_dec_digit_def)

end
