(* ===== verification/AllocationOrder.thy ===== *)
theory AllocationOrder
  imports ProcessProps
begin

text \<open>
  Orders that the code does not control: the order in which libvirtd lists the domains, the order of the
  NUMA cells in the capabilities and the order of Go's iteration over the map of cells. On a host whose cells can be
  read and have different identifiers, neither whether the step succeeds nor the published amounts depend on any of them.
\<close>

section \<open>Amounts\<close>

text \<open>What a reader of the status sees of a resource list, of a cell and of the status: integers.\<close>

definition amounts :: "'q quantity_api \<Rightarrow> (ResourceName \<rightharpoonup> 'q) \<Rightarrow> int option \<times> int option" where
  "amounts Q m = (map_option (qint Q) (m ResourceMemory), map_option (qint Q) (m ResourceCPU))"

definition cell_amounts ::
    "'q quantity_api \<Rightarrow> 'q Cell \<Rightarrow> uint64 \<times> (int option \<times> int option) \<times> (int option \<times> int option)" where
  "cell_amounts Q cell = (cell_CellID cell, amounts Q (cell_Capacity cell), amounts Q (cell_Allocation cell))"

definition same_amounts :: "'q quantity_api \<Rightarrow> 'q HypervisorStatus \<Rightarrow> 'q HypervisorStatus \<Rightarrow> bool" where
  "same_amounts Q s t \<longleftrightarrow>
     amounts Q (status_Capacity s) = amounts Q (status_Capacity t) \<and>
     amounts Q (status_Allocation s) = amounts Q (status_Allocation t) \<and>
     mset (map (cell_amounts Q) (status_Cells s)) = mset (map (cell_amounts Q) (status_Cells t))"

lemma amounts_qty:
  "has_qty Q whole m ResourceMemory a \<Longrightarrow> has_qty Q whole m ResourceCPU b \<Longrightarrow> amounts Q m = (Some a, Some b)"
  by (auto simp: amounts_def has_qty_def)

section \<open>The specification fixes the amounts\<close>

lemma sum_list_perm: "mset xs = mset ys \<Longrightarrow> (\<Sum>x\<leftarrow>xs. f x) = (\<Sum>x\<leftarrow>ys. f x :: int)"
  by (metis mset_map sum_mset_sum_list)

lemma distinct_perm: "mset xs = mset ys \<Longrightarrow> distinct (map f xs) \<longleftrightarrow> distinct (map f ys)"
  by (metis mset_eq_imp_distinct_iff mset_map)

lemma cell_share_perm: "mset ds = mset es \<Longrightarrow> cell_share res ds i = cell_share res es i"
  unfolding cell_share_def by (rule sum_list_perm)

text \<open>The cells of the status are, up to order, the cells of the host with amounts given by their identifier.\<close>

lemma spec_cells:
  assumes spec: "allocation_spec Q whole cs ds s" and dist: "distinct (map topocell_ID cs)"
  shows "mset (map (cell_amounts Q) (status_Cells s)) =
         mset (map (\<lambda>c. (topocell_ID c, (Some (cell_bytes c), Some (cell_cpus c)),
            (Some (cell_share ResourceMemory ds (topocell_ID c)), Some (cell_share ResourceCPU ds (topocell_ID c))))) cs)"
    (is "_ = mset (map ?row cs)")
proof -
  define row where "row i = ?row (the (List.find (\<lambda>c. topocell_ID c = i) cs))" for i
  have find: "List.find (\<lambda>c'. topocell_ID c' = topocell_ID c) cs = Some c" if "c \<in> set cs" for c
    using that dist by (induction cs) auto
  have ids: "mset (map cell_CellID (status_Cells s)) = mset (map topocell_ID cs)"
    using spec by (simp add: allocation_spec_def)
  have "cell_amounts Q cell = row (cell_CellID cell)" if "cell \<in> set (status_Cells s)" for cell
  proof -
    have "cell_CellID cell \<in> set (map topocell_ID cs)" using that ids by (metis image_eqI mset_eq_setD set_map)
    then obtain c where c: "c \<in> set cs" "cell_CellID cell = topocell_ID c" by auto
    with that spec have "amounts Q (cell_Capacity cell) = (Some (cell_bytes c), Some (cell_cpus c))"
      "amounts Q (cell_Allocation cell) =
         (Some (cell_share ResourceMemory ds (topocell_ID c)), Some (cell_share ResourceCPU ds (topocell_ID c)))"
      by (auto simp: allocation_spec_def intro: amounts_qty)
    with c show ?thesis by (simp add: row_def find cell_amounts_def)
  qed
  then have "map (cell_amounts Q) (status_Cells s) = map row (map cell_CellID (status_Cells s))" by simp
  then have "mset (map (cell_amounts Q) (status_Cells s)) = image_mset row (mset (map cell_CellID (status_Cells s)))"
    by (simp only: mset_map)
  also have "\<dots> = mset (map row (map topocell_ID cs))" unfolding ids by (simp add: multiset.map_comp)
  also have "map row (map topocell_ID cs) = map ?row cs" by (simp add: row_def find)
  finally show ?thesis .
qed

lemma spec_totals:
  assumes "allocation_spec Q whole cs ds s"
  shows "amounts Q (status_Capacity s) = (Some (\<Sum>c\<leftarrow>cs. cell_bytes c), Some (\<Sum>c\<leftarrow>cs. cell_cpus c))"
    and "amounts Q (status_Allocation s) = (Some (\<Sum>d\<leftarrow>ds. dom_bytes d), Some (\<Sum>d\<leftarrow>ds. dom_vcpus d))"
  using assms by (auto simp: allocation_spec_def intro: amounts_qty)

lemma spec_same_amounts:
  assumes s: "allocation_spec Q whole cs ds s" and t: "allocation_spec Q whole cs' ds' t"
    and cells: "mset cs = mset cs'" and doms: "mset ds = mset ds'" and dist: "distinct (map topocell_ID cs)"
  shows "same_amounts Q s t"
proof -
  have "distinct (map topocell_ID cs')" using dist distinct_perm [OF cells] by blast
  then have "mset (map (cell_amounts Q) (status_Cells s)) = mset (map (cell_amounts Q) (status_Cells t))"
    using spec_cells [OF s dist] spec_cells [OF t] cells cell_share_perm [OF doms] by simp
  moreover have "amounts Q (status_Capacity s) = amounts Q (status_Capacity t)"
    "amounts Q (status_Allocation s) = amounts Q (status_Allocation t)"
    using sum_list_perm [OF cells] sum_list_perm [OF doms] by (simp_all add: spec_totals [OF s] spec_totals [OF t])
  ultimately show ?thesis by (simp add: same_amounts_def)
qed

section \<open>The property\<close>

lemma host_ok_perm: "mset cs = mset cs' \<Longrightarrow> host_ok cs \<longleftrightarrow> host_ok cs'"
  by (simp only: host_ok_def mset_eq_setD [of cs cs'] sum_list_perm [of cs cs'])

lemma doms_fit_perm: "mset ds = mset ds' \<Longrightarrow> doms_fit ds \<longleftrightarrow> doms_fit ds'"
  by (simp only: doms_fit_def sum_list_perm [of ds ds'])

text \<open>Domains whose amounts are not negative and whose sums are representable.\<close>

definition amounts_fit :: "DomainInfo list \<Rightarrow> bool" where
  "amounts_fit ds \<longleftrightarrow> doms_fit ds \<and> (\<forall>d \<in> set ds. \<forall>m. dom_Memory d = Some m \<longrightarrow> 0 \<le> sint (memory_Value m))"

lemma no_stop_dom_ok:
  assumes "domain_stop (set keys) d = None" and "\<forall>m. dom_Memory d = Some m \<longrightarrow> 0 \<le> sint (memory_Value m)"
  shows "dom_ok keys d"
  using assms by (auto simp: domain_stop_def dom_ok_def dom_complete_def memory_ok_def split: option.splits if_splits)

definition succeeds :: "('q Hypervisor \<times> goerr option) outcome \<times> 'q trace \<Rightarrow> bool" where
  "succeeds r \<longleftrightarrow> (\<exists>hv tr. r = (Ret (hv, None), tr))"

lemma allocation_succeeds_iff:
  assumes "quantity_laws Q whole" and "host_ok (caps_cells caps)" and "distinct (map topocell_ID (caps_cells caps))"
    and "capabilitiesClient C tr = (Inr caps, tr1)" and "domainInfoClient C [] tr1 = (Inr ds, tr2)"
  shows "succeeds (addAllocationCapacity Q ord C hv tr) \<longleftrightarrow>
    (\<forall>d \<in> set ds. domain_stop (topocell_ID ` set (caps_cells caps)) d = None)"
proof (cases "List.find (\<lambda>d. domain_stop (topocell_ID ` set (caps_cells caps)) d \<noteq> None) ds")
  case None
  have "\<forall>d \<in> set ds. domain_stop (topocell_ID ` set (caps_cells caps)) d = None"
    using None unfolding find_None_iff by blast
  moreover have "succeeds (addAllocationCapacity Q ord C hv tr)"
    using allocation_outcome [OF assms, of ord hv] unfolding None succeeds_def by auto
  ultimately show ?thesis by blast
next
  case (Some d)
  then have "d \<in> set ds" "domain_stop (topocell_ID ` set (caps_cells caps)) d \<noteq> None"
    unfolding find_Some_iff by auto
  moreover have "\<not> succeeds (addAllocationCapacity Q ord C hv tr)"
    using allocation_outcome [OF assms, of ord hv] unfolding Some succeeds_def by (auto split: if_splits)
  ultimately show ?thesis by auto
qed

text \<open>
  C2. The published capacity and allocation do not depend on the order in which the host is reported. Take two runs of
  \<^verbatim>\<open>addAllocationCapacity\<close> on the same domains and the same cells, listed in different orders and with different
  iteration orders of the map of cells, where the cells can be read and have different identifiers: either both succeed or
  none does; and if the amounts of the domains are not negative and their sums representable, two successful runs
  publish the same totals and the same cells, each with the same capacity and allocation, whatever the statuses held before.
\<close>

theorem allocation_order_irrelevant:
  assumes Q: "quantity_laws Q whole"
    and ord: "\<And>xs. mset (ord xs) = mset xs" and ord': "\<And>xs. mset (ord' xs) = mset xs"
    and run: "capabilitiesClient C tr = (Inr caps, tr1)" "domainInfoClient C [] tr1 = (Inr ds, tr2)"
    and run': "capabilitiesClient C' tr' = (Inr caps', tr1')" "domainInfoClient C' [] tr1' = (Inr ds', tr2')"
    and cells: "mset (caps_cells caps) = mset (caps_cells caps')" and doms: "mset ds = mset ds'"
    and host: "host_ok (caps_cells caps)" and dist: "distinct (map topocell_ID (caps_cells caps))"
  shows "(succeeds (addAllocationCapacity Q ord C hv tr) \<longleftrightarrow> succeeds (addAllocationCapacity Q ord' C' hv' tr'))
    \<and> (succeeds (addAllocationCapacity Q ord C hv tr) \<and> amounts_fit ds \<longrightarrow>
        (\<exists>hv1 hv2. addAllocationCapacity Q ord C hv tr = (Ret (hv1, None), tr2)
           \<and> addAllocationCapacity Q ord' C' hv' tr' = (Ret (hv2, None), tr2')
           \<and> same_amounts Q (hv_Status hv1) (hv_Status hv2)))"
proof (intro conjI impI)
  let ?keys = "map topocell_ID (caps_cells caps)" and ?keys' = "map topocell_ID (caps_cells caps')"
  have host': "host_ok (caps_cells caps')" "distinct ?keys'"
    using host_ok_perm [OF cells] host dist distinct_perm [OF cells] by blast+
  have keys: "topocell_ID ` set (caps_cells caps') = topocell_ID ` set (caps_cells caps)" and ds: "set ds' = set ds"
    using mset_eq_setD [OF cells] mset_eq_setD [OF doms] by auto
  note ok = allocation_succeeds_iff [OF Q host dist run] and ok' = allocation_succeeds_iff [OF Q host' run']
  show "succeeds (addAllocationCapacity Q ord C hv tr) \<longleftrightarrow> succeeds (addAllocationCapacity Q ord' C' hv' tr')"
    unfolding ok ok' keys ds ..
  assume a: "succeeds (addAllocationCapacity Q ord C hv tr) \<and> amounts_fit ds"
  have fine: "dom_ok ?keys d" if "d \<in> set ds" for d
    using a that ok by (intro no_stop_dom_ok) (auto simp: amounts_fit_def)
  have fit: "doms_fit ds" using a by (simp add: amounts_fit_def)
  obtain hv1 where 1: "addAllocationCapacity Q ord C hv tr = (Ret (hv1, None), tr2)"
      "allocation_spec Q whole (caps_cells caps) ds (hv_Status hv1)"
    using allocation_exact [OF Q ord run host dist fine fit] by auto
  have "dom_ok ?keys' d" if "d \<in> set ds'" for d
    using that fine [of d] ds keys by (simp add: dom_ok_def)
  then obtain hv2 where 2: "addAllocationCapacity Q ord' C' hv' tr' = (Ret (hv2, None), tr2')"
      "allocation_spec Q whole (caps_cells caps') ds' (hv_Status hv2)"
    using allocation_exact [OF Q ord' run' host'] doms_fit_perm [OF doms] fit by blast
  show "\<exists>hv1 hv2. addAllocationCapacity Q ord C hv tr = (Ret (hv1, None), tr2)
      \<and> addAllocationCapacity Q ord' C' hv' tr' = (Ret (hv2, None), tr2') \<and> same_amounts Q (hv_Status hv1) (hv_Status hv2)"
    using 1 2 spec_same_amounts [OF 1(2) 2(2) cells doms dist] by blast
qed

text \<open>The two cells of the sample host in the other order.\<close>

definition sample_caps_rev :: Capabilities where
  "sample_caps_rev = sample_caps\<lparr>caps_Host := (caps_Host sample_caps)\<lparr>host_Topology :=
     (host_Topology (caps_Host sample_caps))\<lparr>topology_CellSpec := \<lparr>cells_Num = 2, cells_Cells = [sample_cell 1 8 3, sample_cell 0 8 3]\<rparr>\<rparr>\<rparr>\<rparr>"

theorem allocation_order_irrelevant_witness:
  "\<exists>hv1 hv2. addAllocationCapacity int_quantity_api rev (sample_clients [sample_dom, sample_dom\<lparr>dom_Name := ''b''\<rparr>])
       (sample_hv (0, DecimalSI)) [] = (Ret (hv1, None), [])
     \<and> addAllocationCapacity int_quantity_api id
         ((sample_clients [sample_dom\<lparr>dom_Name := ''b''\<rparr>, sample_dom])\<lparr>capabilitiesClient := \<lambda>tr. (Inr sample_caps_rev, tr)\<rparr>)
         (sample_hv (0, DecimalSI)) [] = (Ret (hv2, None), [])
     \<and> same_amounts int_quantity_api (hv_Status hv1) (hv_Status hv2)"
proof -
  have "caps_cells sample_caps_rev = [sample_cell 1 8 3, sample_cell 0 8 3]"
    by (simp add: sample_caps_rev_def)
  then have cells: "mset (caps_cells sample_caps) = mset (caps_cells sample_caps_rev)" by (simp add: sample_host)
  have fit: "amounts_fit [sample_dom, sample_dom\<lparr>dom_Name := ''b''\<rparr>]"
    by (simp add: amounts_fit_def sample_dom_def doms_fit_def dom_bytes_def dom_vcpus_def memory_bytes_def int64_range_def)
  have stop: "domain_stop (topocell_ID ` set (caps_cells sample_caps)) d = None"
    if "d \<in> set [sample_dom, sample_dom\<lparr>dom_Name := ''b''\<rparr>]" for d
    using that by (auto simp: domain_stop_def sample_dom_def mem_cells_def cpu_cells_def sample_host sample_cell_def)
  have doms: "mset [sample_dom, sample_dom\<lparr>dom_Name := ''b''\<rparr>] = mset [sample_dom\<lparr>dom_Name := ''b''\<rparr>, sample_dom]"
    by (simp only: mset.simps add_mset_commute)
  let ?C = "sample_clients [sample_dom, sample_dom\<lparr>dom_Name := ''b''\<rparr>]"
    and ?C' = "(sample_clients [sample_dom\<lparr>dom_Name := ''b''\<rparr>, sample_dom])\<lparr>capabilitiesClient := \<lambda>tr. (Inr sample_caps_rev, tr)\<rparr>"
  have run: "capabilitiesClient ?C [] = (Inr sample_caps, [])" "domainInfoClient ?C [] [] = (Inr [sample_dom, sample_dom\<lparr>dom_Name := ''b''\<rparr>], [])"
    and run': "capabilitiesClient ?C' [] = (Inr sample_caps_rev, [])" "domainInfoClient ?C' [] [] = (Inr [sample_dom\<lparr>dom_Name := ''b''\<rparr>, sample_dom], [])"
    by (simp_all add: sample_clients_def)
  have host: "host_ok (caps_cells sample_caps)" "distinct (map topocell_ID (caps_cells sample_caps))" using sample_host_ok by blast+
  have "succeeds (addAllocationCapacity int_quantity_api rev ?C (sample_hv (0, DecimalSI)) [])"
    unfolding allocation_succeeds_iff [OF int_quantity_laws host run] using stop by blast
  then show ?thesis
    using allocation_order_irrelevant [OF int_quantity_laws mset_rev _ run run' cells doms host, of id
        "sample_hv (0, DecimalSI)" "sample_hv (0, DecimalSI)"] fit by simp
qed

end
