(* ===== verification/XmlLocal.thy ===== *)
theory XmlLocal
  imports XmlRead
begin

text \<open>
  Reading is local: a token that was read before the end of the input does not depend on what follows. So
  what comes after the root element is never looked at, and a document can be read piece by piece.
\<close>

section \<open>Tokens\<close>

lemma while_local:
  assumes "dropWhile P s = b # r"
  shows "dropWhile P (s @ t) = b # r @ t" "takeWhile P (s @ t) = takeWhile P s"
  using assms by (induction s) (auto split: if_splits)

lemma char_ref_local:
  assumes "char_ref base pre s = Inr (v, r)"
  shows "char_ref base pre (s @ t) = Inr (v, r @ t)"
proof -
  let ?P = "\<lambda>c. is_digit_byte c \<or> base = 16 \<and> is_hex_letter c"
  obtain b r' where b: "dropWhile ?P s = b # r'"
    using assms by (cases "dropWhile ?P s") (simp_all add: char_ref_def Let_def)
  show ?thesis using assms while_local [OF b, of t] b by (simp add: char_ref_def Let_def split: if_splits)
qed

lemma named_entity_local:
  assumes "named_entity s = Inr (v, r)"
  shows "named_entity (s @ t) = Inr (v, r @ t)"
proof -
  obtain b r' where b: "dropWhile name_byte s = b # r'"
    using assms by (cases "dropWhile name_byte s") (simp_all add: named_entity_def Let_def)
  show ?thesis using assms while_local [OF b, of t] b by (simp add: named_entity_def Let_def split: if_splits option.splits)
qed

lemma xml_entity_local: "xml_entity s = Inr (v, r) \<Longrightarrow> xml_entity (s @ t) = Inr (v, r @ t)"
  by (cases s; cases "tl s")
    (auto simp: xml_entity_def split: list.splits if_splits dest: char_ref_local [of _ _ _ _ _ t] named_entity_local [of _ _ _ t])

text \<open>A result before the end of the input, and the result with more input.\<close>

definition local_result :: "string \<Rightarrow> xml_error + 'a \<times> string \<Rightarrow> xml_error + 'a \<times> string \<Rightarrow> bool" where
  "local_result t x y \<longleftrightarrow> (\<forall>v r. x = Inr (v, r) \<longrightarrow> r \<noteq> [] \<longrightarrow> y = Inr (v, r @ t))"

lemma local_result_intros:
  "local_result t (Inl e) y"
  "local_result t (Inr (v, [])) y"
  "local_result t (Inr (v, r)) (Inr (v, r @ t))"
  "(c \<Longrightarrow> local_result t x y) \<Longrightarrow> (\<not> c \<Longrightarrow> local_result t x' y') \<Longrightarrow> local_result t (if c then x else x') (if c then y else y')"
  by (simp_all add: local_result_def)

lemma local_resultD: "local_result t x y \<Longrightarrow> x = Inr (v, r) \<Longrightarrow> r \<noteq> [] \<Longrightarrow> y = Inr (v, r @ t)"
  by (simp add: local_result_def)

lemma text_loop_local: "local_result t (text_loop q b0 b1 acc s) (text_loop q b0 b1 acc (s @ t))"
proof (induction s arbitrary: q b0 b1 acc rule: length_induct)
  case (1 s)
  show ?case
  proof (cases s)
    case Nil
    then show ?thesis by (simp add: text_loop.simps local_result_intros)
  next
    case (Cons b s')
    have step: "local_result t (text_loop q' c0 c1 acc' s'') (text_loop q' c0 c1 acc' (s'' @ t))"
      if "length s'' \<le> length s'" for q' c0 c1 acc' s''
      using "1.IH" that Cons by (metis le_imp_less_Suc length_Cons)
    have "local_result t
       (case xml_entity s' of Inl e \<Rightarrow> Inl e | Inr (u, r) \<Rightarrow> text_loop q (CHR 0x00) (CHR 0x00) (rev u @ acc) r)
       (case xml_entity (s' @ t) of Inl e \<Rightarrow> Inl e | Inr (u, r) \<Rightarrow> text_loop q (CHR 0x00) (CHR 0x00) (rev u @ acc) r)"
    proof (cases "xml_entity s'")
      case (Inr x)
      obtain u r where x: "x = (u, r)" by (cases x)
      with Inr have "length r < length s'" "xml_entity (s' @ t) = Inr (u, r @ t)"
        using xml_entity_shorter xml_entity_local by blast+
      then show ?thesis using Inr x by (simp add: step)
    qed (simp add: local_result_intros)
    then show ?thesis unfolding Cons append_Cons text_loop.simps
      by (intro local_result_intros step) (simp_all add: local_result_def)
  qed
qed

lemma xml_chars_local: "local_result t (xml_chars q s) (xml_chars q (s @ t))"
  using text_loop_local [of t q "CHR 0x00" "CHR 0x00" "[]" s]
  by (auto simp: xml_chars_def local_result_def split: sum.splits option.splits)

lemma xml_name_local: "local_result t (xml_name uni none s) (xml_name uni none (s @ t))"
proof (cases "dropWhile name_byte s")
  case Nil
  then show ?thesis by (auto simp: xml_name_def Let_def local_result_def)
next
  case (Cons b r)
  then have "s \<noteq> []" by auto
  then show ?thesis using while_local [OF Cons, of t] Cons by (simp add: xml_name_def Let_def local_result_def)
qed

lemma xml_nsname_local: "local_result t (xml_nsname uni none s) (xml_nsname uni none (s @ t))"
  using xml_name_local [of t uni none s] by (auto simp: xml_nsname_def local_result_def split: sum.splits if_splits)

lemma xml_name_rest: "xml_name uni none s = Inr (n, r) \<Longrightarrow> r \<noteq> []" "xml_nsname uni none s = Inr (m, r) \<Longrightarrow> r \<noteq> []"
  by (auto simp: xml_nsname_def xml_name_def Let_def split: sum.splits if_splits)

lemma blanks_local: "skip_blanks s = b # r \<Longrightarrow> skip_blanks (s @ t) = b # r @ t"
  by (rule while_local)

lemma xml_attr_local: "local_result t (xml_attr uni s) (xml_attr uni (s @ t))"
proof (unfold local_result_def, intro allI impI)
  fix v r
  assume *: "xml_attr uni s = Inr (v, r)" "r \<noteq> []"
  from *(1) obtain n r1 e r2 q r3 w
    where 1: "xml_nsname uni ''expected attribute name in element'' s = Inr (n, r1)" and 2: "skip_blanks r1 = e # r2" "e = CHR ''=''"
      and 3: "skip_blanks r2 = q # r3" "q = CHR 0x22 \<or> q = CHR 0x27" and 4: "xml_chars (InQuotes q) r3 = Inr (w, r)" "v = (n, w)"
    by (auto simp: xml_attr_def split: sum.splits list.splits if_splits)
  have "xml_nsname uni ''expected attribute name in element'' (s @ t) = Inr (n, r1 @ t)"
    using local_resultD [OF xml_nsname_local 1] xml_name_rest(2) [OF 1] by simp
  moreover have "xml_chars (InQuotes q) (r3 @ t) = Inr (w, r @ t)"
    using local_resultD [OF xml_chars_local 4(1) *(2)] .
  ultimately show "xml_attr uni (s @ t) = Inr (v, r @ t)"
    using blanks_local [OF 2(1), of t] blanks_local [OF 3(1), of t] 2(2) 3(2) 4(2) by (simp add: xml_attr_def)
qed

lemma xml_attrs_local: "local_result t (xml_attrs uni as s) (xml_attrs uni as (s @ t))"
proof (induction s arbitrary: as rule: length_induct)
  case (1 s)
  show ?case
  proof (cases "skip_blanks s")
    case Nil
    show ?thesis unfolding xml_attrs.simps [of uni as s] Nil by (simp add: local_result_def)
  next
    case (Cons b r)
    note more = blanks_local [OF Cons, of t]
    have "local_result t (case xml_attr uni (b # r) of Inl e \<Rightarrow> Inl e | Inr (a, r) \<Rightarrow> xml_attrs uni (as @ [a]) r)
        (case xml_attr uni (b # r @ t) of Inl e \<Rightarrow> Inl e | Inr (a, r) \<Rightarrow> xml_attrs uni (as @ [a]) r)"
    proof (cases "xml_attr uni (b # r)")
      case (Inr x)
      obtain a r' where x: "x = (a, r')" by (cases x)
      show ?thesis
      proof (cases "r' = []")
        case True
        have "xml_attrs uni (as @ [a]) [] = unexpected_EOF" by (simp add: xml_attrs.simps [of uni _ "[]"])
        then show ?thesis using Inr x True by (simp add: local_result_def)
      next
        case False
        have "xml_attr uni (b # r @ t) = Inr (a, r' @ t)"
          using local_resultD [OF xml_attr_local [of t uni "b # r"] _ False] Inr x by simp
        moreover have "length r' < length s"
          using xml_attr_shorter [of uni "b # r"] length_dropWhile_le [of xml_blank s] Inr x Cons by fastforce
        then have "local_result t (xml_attrs uni (as @ [a]) r') (xml_attrs uni (as @ [a]) (r' @ t))" using "1.IH" by blast
        ultimately show ?thesis using Inr x by simp
      qed
    qed (simp add: local_result_def)
    then show ?thesis unfolding xml_attrs.simps [of uni as s] xml_attrs.simps [of uni as "s @ t"] Cons more
      by (cases r) (auto simp: local_result_def split: if_splits)
  qed
qed

text \<open>Markup ends with its own terminator, so the rest may be empty.\<close>

lemma comment_loop_local: "comment_loop b0 b1 s = Inr r \<Longrightarrow> comment_loop b0 b1 (s @ t) = Inr (r @ t)"
  by (induction b0 b1 s rule: comment_loop.induct) (auto simp: comment_loop.simps split: if_splits)

lemma skip_comment_local: "skip_comment b0 b1 s = Inr r \<Longrightarrow> skip_comment b0 b1 (s @ t) = Inr (r @ t)"
  by (induction b0 b1 s rule: skip_comment.induct) (auto split: if_splits)

lemma pi_loop_local: "pi_loop b0 acc s = Inr (c, r) \<Longrightarrow> pi_loop b0 acc (s @ t) = Inr (c, r @ t)"
  by (induction b0 acc s rule: pi_loop.induct) (auto simp: pi_loop.simps split: if_splits)

lemma expect_local: "expect msg p s = Inr r \<Longrightarrow> expect msg p (s @ t) = Inr (r @ t)"
  by (induction msg p s rule: expect.induct) (auto split: if_splits)

lemma after_prefix_local:
  "after_prefix p s = Some r \<Longrightarrow> after_prefix p (s @ t) = Some (r @ t)"
  "after_prefix p s = None \<Longrightarrow> set s \<subseteq> set p \<or> after_prefix p (s @ t) = None"
  by (induction p s rule: after_prefix.induct) (auto split: if_splits)

lemma skip_comment_suffix: "skip_comment c0 c1 u = Inr w \<Longrightarrow> x \<in> set w \<Longrightarrow> x \<in> set u"
  by (induction c0 c1 u rule: skip_comment.induct) (auto split: if_splits)

lemma after_prefix_suffix: "after_prefix p u = Some w \<Longrightarrow> x \<in> set w \<Longrightarrow> x \<in> set u"
  by (induction p u rule: after_prefix.induct) (auto split: if_splits)

lemma directive_closes: "directive q depth s = Inr r \<Longrightarrow> CHR ''>'' \<in> set s"
  by (induction q depth s rule: directive.induct) (auto simp: directive.simps split: option.splits if_splits sum.splits
      dest: skip_comment_suffix after_prefix_suffix)

text \<open>Inside a directive a comment is recognised by its first bytes; if the input ends within them there is no end.\<close>

lemma directive_local: "directive q depth s = Inr r \<Longrightarrow> directive q depth (s @ t) = Inr (r @ t)"
proof (induction q depth s rule: directive.induct)
  case (2 q depth b s)
  show ?case
  proof (cases "q = None \<and> b = CHR ''<'' \<and> after_prefix ''!--'' s = None")
    case True
    then have d: "directive None (depth + 1) s = Inr r" using "2.prems" by (simp add: directive.simps(2))
    have "\<not> set s \<subseteq> set ''!--''" using directive_closes [OF d] by auto
    then have "after_prefix ''!--'' (s @ t) = None" using after_prefix_local(2) [of "''!--''" s t] True by metis
    moreover have "directive None (depth + 1) (s @ t) = Inr (r @ t)" using "2.IH"(3) True d by simp
    ultimately show ?thesis using True by (simp add: directive.simps(2))
  next
    case False
    then show ?thesis using "2.prems" "2.IH" after_prefix_local(1) [of "''!--''" s _ t] skip_comment_local [of _ _ _ _ t]
      by (auto simp: directive.simps(2) split: option.splits if_splits sum.splits)
  qed
qed (simp add: directive.simps)

lemma markup_tag_local: "local_result t (markup_tag s) (markup_tag (s @ t))"
proof (cases s)
  case (Cons b s')
  show ?thesis
  proof (cases "b = CHR ''-''")
    case True
    then show ?thesis using Cons comment_loop_local [of _ _ "tl s'" _ t]
      by (auto simp: markup_tag_def no_value_def local_result_def split: list.splits sum.splits)
  next
    case False
    show ?thesis
    proof (cases "b = CHR ''[''")
      case True
      then show ?thesis using Cons expect_local [of _ _ s' _ t] xml_chars_local [of t InCdata]
        by (auto simp: markup_tag_def local_result_def split: sum.splits)
    next
      case other: False
      then show ?thesis using False Cons directive_local [of None 0 s' _ t]
        by (auto simp: markup_tag_def no_value_def local_result_def split: sum.splits)
    qed
  qed
qed (simp add: markup_tag_def local_result_def)

lemma end_tag_local: "local_result t (end_tag uni s) (end_tag uni (s @ t))"
proof (cases "xml_nsname uni ''expected element name after </'' s")
  case (Inr x)
  obtain n r where x: "x = (n, r)" by (cases x)
  then have "xml_nsname uni ''expected element name after </'' (s @ t) = Inr (n, r @ t)"
    using local_resultD [OF xml_nsname_local] xml_name_rest(2) Inr by blast
  then show ?thesis using Inr x blanks_local [of r _ _ t]
    by (auto simp: end_tag_def local_result_def split: list.splits if_splits)
qed (simp add: end_tag_def local_result_def)

lemma start_tag_local: "local_result t (start_tag uni s) (start_tag uni (s @ t))"
proof (cases "xml_nsname uni ''expected element name after <'' s")
  case (Inr x)
  obtain n r where x: "x = (n, r)" by (cases x)
  then have "xml_nsname uni ''expected element name after <'' (s @ t) = Inr (n, r @ t)"
    using local_resultD [OF xml_nsname_local] xml_name_rest(2) Inr by blast
  then show ?thesis using Inr x xml_attrs_local [of t uni "[]" r]
    by (auto simp: start_tag_def local_result_def split: sum.splits)
qed (simp add: start_tag_def local_result_def)

lemma pi_blanks_local:
  assumes "pi_loop b0 acc (skip_blanks s) = Inr (c, r)"
  shows "pi_loop b0 acc (skip_blanks (s @ t)) = Inr (c, r @ t)"
proof (cases "skip_blanks s")
  case (Cons b r')
  then show ?thesis using assms pi_loop_local [of b0 acc "b # r'" c r t] blanks_local [OF Cons, of t] by simp
next
  case Nil
  show ?thesis using assms unfolding Nil by (simp add: pi_loop.simps)
qed

lemma instruction_local: "local_result t (instruction uni s) (instruction uni (s @ t))"
proof (cases "xml_name uni ''expected target name after <?'' s")
  case (Inr x)
  obtain n r where x: "x = (n, r)" by (cases x)
  then have "xml_name uni ''expected target name after <?'' (s @ t) = Inr (n, r @ t)"
    using local_resultD [OF xml_name_local] xml_name_rest(1) Inr by blast
  then show ?thesis using Inr x pi_blanks_local [of "CHR 0x00" "[]" r _ _ t]
    by (auto simp: instruction_def local_result_def split: sum.splits option.splits if_splits)
qed (simp add: instruction_def local_result_def)

lemma raw_token_local: "local_result t (raw_token uni s) (raw_token uni (s @ t))"
proof (cases s)
  case (Cons b r)
  show ?thesis
  proof (cases "b = CHR ''<''")
    case True
    then show ?thesis
      using Cons end_tag_local [of t uni "tl r"] instruction_local [of t uni "tl r"] markup_tag_local [of t "tl r"] start_tag_local [of t uni r]
      by (cases r) (simp_all add: raw_token_def local_result_intros)
  next
    case False
    then show ?thesis using Cons xml_chars_local [of t InContent s]
      by (auto simp: raw_token_def local_result_def split: sum.splits)
  qed
qed (simp add: raw_token_def local_result_def)

section \<open>Piece by piece\<close>

text \<open>What a token does to the open elements, unless it ends the document or is an error.\<close>

fun feed :: "xml_frame list \<Rightarrow> name_spaces \<Rightarrow> xml_token \<Rightarrow> (xml_frame list \<times> name_spaces) option" where
  "feed fs ns Markup = Some (fs, ns)"
| "feed fs ns (Text t) = Some (add_child (CharData t) fs, ns)"
| "feed fs ns (StartTag n as closed) =
     (if \<not> closed then Some (open_frame ns n as # fs, declare_spaces as ns)
      else if fs = [] then None
      else Some (add_child (frame_element (open_frame ns n as)) fs, ns))"
| "feed fs ns (EndTag n) =
     (if closing_error fs n = None \<and> tl fs \<noteq> []
      then Some (add_child (frame_element (hd fs)) (tl fs), xf_outer (hd fs)) else None)"

lemma feed_loop:
  assumes "raw_token uni s = Inr (tok, r)" "feed fs ns tok = Some (fs', ns')"
  shows "xml_loop uni fs ns s = xml_loop uni fs' ns' r"
  using assms by (subst xml_loop.simps) (cases tok; auto split: if_splits)

text \<open>A piece is read up to the start of the next tag.\<close>

function read_piece :: "(string \<Rightarrow> bool) \<Rightarrow> xml_frame list \<Rightarrow> name_spaces \<Rightarrow> string \<Rightarrow> (xml_frame list \<times> name_spaces) option" where
  "read_piece uni fs ns s =
     (if s = ''<'' then Some (fs, ns)
      else case raw_token uni s of
             Inl e \<Rightarrow> None
           | Inr (tok, r) \<Rightarrow>
               if r = [] then None
               else (case feed fs ns tok of None \<Rightarrow> None | Some (fs', ns') \<Rightarrow> read_piece uni fs' ns' r))"
  by pat_completeness auto
termination by (relation "measure (\<lambda>(uni, fs, ns, s). length s)") (auto dest: raw_token_shorter)

declare read_piece.simps [simp del]

lemma read_piece_loop:
  "read_piece uni fs ns s = Some (fs', ns') \<Longrightarrow> xml_loop uni fs ns (s @ t) = xml_loop uni fs' ns' (CHR ''<'' # t)"
proof (induction uni fs ns s rule: read_piece.induct)
  case (1 uni fs ns s)
  show ?case
  proof (cases "s = ''<''")
    case True
    then show ?thesis using "1.prems" by (simp add: read_piece.simps [of uni fs ns "''<''"])
  next
    case False
    with "1.prems" obtain tok r fs'' ns''
      where *: "raw_token uni s = Inr (tok, r)" "r \<noteq> []" "feed fs ns tok = Some (fs'', ns'')"
        "read_piece uni fs'' ns'' r = Some (fs', ns')"
      by (auto simp: read_piece.simps [of uni fs ns s] split: sum.splits if_splits option.splits)
    have "xml_loop uni fs ns (s @ t) = xml_loop uni fs'' ns'' (r @ t)"
      using feed_loop [OF local_resultD [OF raw_token_local *(1,2)] *(3)] .
    also have "\<dots> = xml_loop uni fs' ns' (CHR ''<'' # t)" using "1.IH" [OF False *(1) refl *(2,3) refl *(4)] .
    finally show ?thesis .
  qed
qed

fun read_pieces :: "(string \<Rightarrow> bool) \<Rightarrow> xml_frame list \<Rightarrow> name_spaces \<Rightarrow> string list \<Rightarrow> (xml_frame list \<times> name_spaces) option" where
  "read_pieces uni fs ns [] = Some (fs, ns)"
| "read_pieces uni fs ns (p # ps) =
     (case read_piece uni fs ns (CHR ''<'' # p @ ''<'') of None \<Rightarrow> None | Some (fs', ns') \<Rightarrow> read_pieces uni fs' ns' ps)"

lemma read_pieces_loop:
  "read_pieces uni fs ns ps = Some (fs', ns') \<Longrightarrow>
   xml_loop uni fs ns (concat (map (Cons (CHR ''<'')) ps) @ CHR ''<'' # t) = xml_loop uni fs' ns' (CHR ''<'' # t)"
proof (induction uni fs ns ps rule: read_pieces.induct)
  case (2 uni fs ns p ps)
  then obtain fs'' ns'' where *: "read_piece uni fs ns (CHR ''<'' # p @ ''<'') = Some (fs'', ns'')" "read_pieces uni fs'' ns'' ps = Some (fs', ns')"
    by (auto split: option.splits)
  have "\<exists>t'. concat (map (Cons (CHR ''<'')) ps) @ CHR ''<'' # t = CHR ''<'' # t'" by (cases ps) simp_all
  then obtain t' where t': "concat (map (Cons (CHR ''<'')) ps) @ CHR ''<'' # t = CHR ''<'' # t'" ..
  then show ?case using read_piece_loop [OF *(1), of t'] "2.IH" [OF *(1) refl *(2)] by simp
qed simp

text \<open>A document in pieces, the last of which ends it.\<close>

definition finish_pieces :: "(string \<Rightarrow> bool) \<Rightarrow> string list \<Rightarrow> string \<Rightarrow> xml option" where
  "finish_pieces uni ps last_piece =
     (case read_pieces uni [] [] ps of
        None \<Rightarrow> None
      | Some (fs, ns) \<Rightarrow> (case xml_loop uni fs ns (CHR ''<'' # last_piece) of Inl e \<Rightarrow> None | Inr x \<Rightarrow> Some x))"

lemma xml_read_pieces:
  assumes "doc = concat (map (Cons (CHR ''<'')) ps) @ CHR ''<'' # last_piece" "finish_pieces uni ps last_piece = Some x"
  shows "xml_read uni doc = Inr x"
  using assms(2) read_pieces_loop [of uni "[]" "[]" ps _ _ last_piece]
  by (auto simp: finish_pieces_def assms(1) xml_read_def split: option.splits sum.splits)

end
