(* ===== verification/Examples.thy ===== *)
theory Examples
  imports Clients XmlLocal
begin

text \<open>
  The document \<^verbatim>\<open>internal/libvirt/domcapabilities/example.xml\<close> that is embedded into the program, and what the emulated client
  makes of it: the tokenizer and the decoder of the model, run on a document of the repository.
\<close>

definition domcapabilities_exampleXML :: string where
  "domcapabilities_exampleXML = concat
     [''<!-- Copyright 2025 SAP SE -->\<newline>'',
      ''<!-- SPDX-License-Identifier: Apache-2.0 -->\<newline>'',
      ''\<newline>'',
      ''<domainCapabilities>\<newline>'',
      ''  <domain>ch</domain>\<newline>'',
      ''  <arch>x86_64</arch>\<newline>'',
      ''  <os supported='yes'>\<newline>'',
      ''    <loader supported='yes'>\<newline>'',
      ''      <enum name='secure'>\<newline>'',
      ''        <value>no</value>\<newline>'',
      ''      </enum>\<newline>'',
      ''    </loader>\<newline>'',
      ''  </os>\<newline>'',
      ''  <cpu>\<newline>'',
      ''    <mode name='host-passthrough' supported='yes'>\<newline>'',
      ''      <enum name='hostPassthroughMigratable'/>\<newline>'',
      ''    </mode>\<newline>'',
      ''    <mode name='maximum' supported='no'/>\<newline>'',
      ''    <mode name='host-model' supported='no'/>\<newline>'',
      ''    <mode name='custom' supported='no'/>\<newline>'',
      ''  </cpu>\<newline>'',
      ''  <devices>\<newline>'',
      ''    <video supported='yes'>\<newline>'',
      ''      <enum name='modelType'>\<newline>'',
      ''        <value>none</value>\<newline>'',
      ''      </enum>\<newline>'',
      ''    </video>\<newline>'',
      ''  </devices>\<newline>'',
      ''  <features>\<newline>'',
      ''    <sev supported='no'/>\<newline>'',
      ''    <sgx supported='no'/>\<newline>'',
      ''  </features>\<newline>'',
      ''</domainCapabilities>'']"

definition example_DomainCapabilities :: DomainCapabilities where
  "example_DomainCapabilities =
     \<lparr>dcaps_Domain = ''ch'', dcaps_Arch = ''x86_64'',
      dcaps_OS = \<lparr>dcos_Supported = ''yes'',
        dcos_Loader = \<lparr>loader_Supported = ''yes'', loader_Enums = [\<lparr>enum_Name = ''secure'', enum_Values = [''no'']\<rparr>]\<rparr>\<rparr>,
      dcaps_CPU = \<lparr>dccpu_Modes =
        [\<lparr>mode_Name = ''host-passthrough'', mode_Supported = ''yes'',
          mode_Enums = [\<lparr>enum_Name = ''hostPassthroughMigratable'', enum_Values = []\<rparr>]\<rparr>,
         \<lparr>mode_Name = ''maximum'', mode_Supported = ''no'', mode_Enums = []\<rparr>,
         \<lparr>mode_Name = ''host-model'', mode_Supported = ''no'', mode_Enums = []\<rparr>,
         \<lparr>mode_Name = ''custom'', mode_Supported = ''no'', mode_Enums = []\<rparr>]\<rparr>,
      dcaps_Devices = \<lparr>devices_Devices =
        [\<lparr>device_XMLName = ''video'', device_Supported = ''yes'',
          device_Enums = [\<lparr>enum_Name = ''modelType'', enum_Values = [''none'']\<rparr>]\<rparr>]\<rparr>,
      dcaps_Features = \<lparr>features_Features =
        [\<lparr>feature_XMLName = ''sev'', feature_Supported = ''no''\<rparr>, \<lparr>feature_XMLName = ''sgx'', feature_Supported = ''no''\<rparr>]\<rparr>\<rparr>"

text \<open>The pieces between the tags that start a line.\<close>

definition example_pieces :: "string list" where
  "example_pieces =
     [''!-- Copyright 2025 SAP SE -->\<newline>'',
      ''!-- SPDX-License-Identifier: Apache-2.0 -->\<newline>\<newline>'',
      ''domainCapabilities>\<newline>  '',
      ''domain>ch</domain>\<newline>  '',
      ''arch>x86_64</arch>\<newline>  '',
      ''os supported='yes'>\<newline>    '',
      ''loader supported='yes'>\<newline>      '',
      ''enum name='secure'>\<newline>        '',
      ''value>no</value>\<newline>      '',
      ''/enum>\<newline>    '',
      ''/loader>\<newline>  '',
      ''/os>\<newline>  '',
      ''cpu>\<newline>    '',
      ''mode name='host-passthrough' supported='yes'>\<newline>      '',
      ''enum name='hostPassthroughMigratable'/>\<newline>    '',
      ''/mode>\<newline>    '',
      ''mode name='maximum' supported='no'/>\<newline>    '',
      ''mode name='host-model' supported='no'/>\<newline>    '',
      ''mode name='custom' supported='no'/>\<newline>  '',
      ''/cpu>\<newline>  '',
      ''devices>\<newline>    '',
      ''video supported='yes'>\<newline>      '',
      ''enum name='modelType'>\<newline>        '',
      ''value>none</value>\<newline>      '',
      ''/enum>\<newline>    '',
      ''/video>\<newline>  '',
      ''/devices>\<newline>  '',
      ''features>\<newline>    '',
      ''sev supported='no'/>\<newline>    '',
      ''sgx supported='no'/>\<newline>  '',
      ''/features>\<newline>'']"

lemma example_in_pieces:
  "domcapabilities_exampleXML = concat (map (Cons (CHR ''<'')) example_pieces) @ CHR ''<'' # ''/domainCapabilities>''"
  by (simp add: domcapabilities_exampleXML_def example_pieces_def)

definition example_tree :: xml where
  "example_tree =
     Element ([], ''domainCapabilities'') []
      [CharData ''\<newline>  '', Element ([], ''domain'') []
      [CharData ''ch''], CharData ''\<newline>  '', Element ([], ''arch'') []
      [CharData ''x86_64''], CharData ''\<newline>  '', Element ([], ''os'') [(([], ''supported''), ''yes'')]
      [CharData ''\<newline>    '', Element ([], ''loader'') [(([], ''supported''), ''yes'')]
      [CharData ''\<newline>      '', Element ([], ''enum'') [(([], ''name''), ''secure'')]
      [CharData ''\<newline>        '', Element ([], ''value'') []
      [CharData ''no''], CharData ''\<newline>      ''], CharData ''\<newline>    ''], CharData ''\<newline>  ''], CharData ''\<newline>  '', Element ([], ''cpu'') []
      [CharData ''\<newline>    '', Element ([], ''mode'') [(([], ''name''), ''host-passthrough''), (([], ''supported''), ''yes'')]
      [CharData ''\<newline>      '', Element ([], ''enum'') [(([], ''name''), ''hostPassthroughMigratable'')]
      [], CharData ''\<newline>    ''], CharData ''\<newline>    '', Element ([], ''mode'') [(([], ''name''), ''maximum''), (([], ''supported''), ''no'')]
      [], CharData ''\<newline>    '', Element ([], ''mode'') [(([], ''name''), ''host-model''), (([], ''supported''), ''no'')]
      [], CharData ''\<newline>    '', Element ([], ''mode'') [(([], ''name''), ''custom''), (([], ''supported''), ''no'')]
      [], CharData ''\<newline>  ''], CharData ''\<newline>  '', Element ([], ''devices'') []
      [CharData ''\<newline>    '', Element ([], ''video'') [(([], ''supported''), ''yes'')]
      [CharData ''\<newline>      '', Element ([], ''enum'') [(([], ''name''), ''modelType'')]
      [CharData ''\<newline>        '', Element ([], ''value'') []
      [CharData ''none''], CharData ''\<newline>      ''], CharData ''\<newline>    ''], CharData ''\<newline>  ''], CharData ''\<newline>  '', Element ([], ''features'') []
      [CharData ''\<newline>    '', Element ([], ''sev'') [(([], ''supported''), ''no'')]
      [], CharData ''\<newline>    '', Element ([], ''sgx'') [(([], ''supported''), ''no'')]
      [], CharData ''\<newline>  ''], CharData ''\<newline>'']"

lemma example_tokenized: "finish_pieces uni example_pieces ''/domainCapabilities>'' = Some example_tree"
  by code_simp

lemma example_decoded: "unmarshal_DomainCapabilities example_tree zero_DomainCapabilities = Inr example_DomainCapabilities"
  by code_simp

lemma domcapabilities_emulator_example:
  "domcapabilities_emulator_Get (xml_read uni) domcapabilities_exampleXML tr = (Inr example_DomainCapabilities, tr)"
  using xml_read_pieces [OF example_in_pieces example_tokenized, of uni] example_decoded
  by (simp add: domcapabilities_emulator_Get_def xml_Unmarshal_def)

end
