(* ===== verification/Spec2Isabelle.thy ===== *)
theory Spec2Isabelle
  imports NodeAgent DocumentProps MockLog Interleaving Registration DeepCopy DescriptorProps AllocationOrder Examples
begin

text \<open>
  The verification of the KVM node agent (\<^verbatim>\<open>cobaltcore-dev/kvm-node-agent\<close>), the Kubernetes agent that runs on
  every hypervisor host: it publishes what libvirtd reports in the status of the host's \<^verbatim>\<open>Hypervisor\<close> object,
  follows migrations, inhibits shutdowns to evacuate the host, drives operating system updates through systemd, and
  installs TLS certificates for libvirt. This theory imports the whole development; it holds no definitions of its own.

  \<^bold>\<open>The parts of the program and their theories.\<close>
  \<^item> \<^verbatim>\<open>Prelude\<close>, \<^verbatim>\<open>GoFloat\<close>, \<^verbatim>\<open>Quantity\<close>: the parts of Go the code uses. Machine integers are words; a call
    returns, panics or blocks (\<open>outcome\<close>); errors are values with their wrapping; \<^verbatim>\<open>float64\<close> arithmetic is
    written out (round to nearest even on the exact value). \<^verbatim>\<open>resource.Quantity\<close> is a parameter with the laws
    the code relies on (\<open>quantity_laws\<close>).
  \<^item> \<^verbatim>\<open>Hypervisor\<close>, \<^verbatim>\<open>Schema\<close>, \<^verbatim>\<open>DomSchema\<close>: the data. The custom resources (\<^verbatim>\<open>api/v1alpha1\<close> and the fields the
    agent uses of the operator's \<^verbatim>\<open>Hypervisor\<close>), and the three documents of libvirt
    (\<^verbatim>\<open>internal/libvirt/{capabilities,domcapabilities,dominfo}/schema.go\<close>).
  \<^item> \<^verbatim>\<open>Strconv\<close>, \<^verbatim>\<open>XmlDecode\<close>, \<^verbatim>\<open>CapsDecode\<close>, \<^verbatim>\<open>DomDecode\<close>: \<^verbatim>\<open>xml.Unmarshal\<close> on trees of elements. A struct is the list
    of its fields (\<open>fields_X\<close>, one entry per tag), \<open>unmarshal_X\<close> the decoder they give and \<open>zero_X\<close> its zero value;
    \<open>render_X\<close> is a document for a value, and \<open>renders_X\<close> that it decodes to the value. Integers go through
    \<^verbatim>\<open>strings.TrimSpace\<close> and \<^verbatim>\<open>strconv.ParseInt\<close> with their errors. \<^verbatim>\<open>XmlRead\<close>: the tokenizer of \<^verbatim>\<open>encoding/xml\<close> on bytes, with
    entities, name spaces and its errors (\<open>xml_read\<close>, one instance of \<open>xml_reader\<close>), over the classes of bytes of \<^verbatim>\<open>Utf8\<close>;
    \<^verbatim>\<open>XmlText\<close>: documents as text and that they
    are read back; \<^verbatim>\<open>XmlLocal\<close>: a token does not depend on what follows it, so documents can be read in pieces; \<^verbatim>\<open>Examples\<close>: the model
    run on an example document of the repository. \<^verbatim>\<open>DocumentProps\<close>: what documents mean for the status.
  \<^item> \<^verbatim>\<open>World\<close>: the other side. Every call to the API server, libvirtd, systemd, logind or the operating system is a
    constructor of \<open>ext_call\<close>, appended to a trace; its response is an arbitrary function of the trace so far
    (records \<open>k8s\<close>, \<open>virt\<close>, \<open>dbus\<close>, \<open>os_env\<close>), so that theorems hold for every behaviour of the other side.
  \<^item> \<^verbatim>\<open>Sys\<close>: \<^verbatim>\<open>internal/sys\<close> and \<^verbatim>\<open>internal/kernel\<close>. \<^verbatim>\<open>Utils\<close>: \<^verbatim>\<open>internal/libvirt/utils.go\<close>.
  \<^item> \<^verbatim>\<open>LibvirtConn\<close>: \<^verbatim>\<open>Connect\<close>, \<^verbatim>\<open>Close\<close>, \<^verbatim>\<open>WatchDomainChanges\<close> and the event loop of \<^verbatim>\<open>libvirt.go\<close>.
    \<^verbatim>\<open>Clients\<close>: the \<^verbatim>\<open>client.go\<close> of the three documents. \<^verbatim>\<open>Process\<close>: \<^verbatim>\<open>Process\<close> and its six steps, each a
    processor on the hypervisor; the interface between them is the locale \<open>status_processor\<close> and the pipeline
    \<open>processor_pipeline\<close>, interpreted on the code's processors. \<^verbatim>\<open>Allocation\<close>, \<^verbatim>\<open>AllocationOrder\<close>, \<^verbatim>\<open>ProcessProps\<close>: their
    correctness, and that no order outside the control of the code matters.
  \<^item> \<^verbatim>\<open>Migration\<close>: \<^verbatim>\<open>libvirt_events.go\<close>; the handlers with the contexts and goroutines they start are also a state machine
    (\<open>watch_step\<close>), in which a round of \<open>watchMigrationLoop\<close> is a step.
  \<^item> \<^verbatim>\<open>Systemd\<close>: \<^verbatim>\<open>internal/systemd/systemd.go\<close>; the inhibitor with the goroutines around it is a state machine
    (\<open>inhibit_step\<close>). \<^verbatim>\<open>JsonDecode\<close>: \<^verbatim>\<open>json.Unmarshal\<close> on JSON values, with its matching of keys and its errors; the tags of
    \<^verbatim>\<open>Descriptor\<close> are \<open>Descriptor_fields\<close>. \<^verbatim>\<open>JsonRead\<close>: the scanner of \<^verbatim>\<open>encoding/json\<close> byte by byte (\<open>json_read\<close>, one instance of
    \<open>json_reader\<close>), values as text (\<open>json_text\<close>) and that they are read back. \<^verbatim>\<open>DescriptorProps\<close>: decoders and the types they implement (locale \<open>decodes\<close>).
  \<^item> \<^verbatim>\<open>Interleaving\<close>: the goroutines that share a \<^verbatim>\<open>LibVirt\<close>, at the granularity of their mutexes and of single accesses to
    its maps (\<open>go_step\<close>): \<^verbatim>\<open>WatchDomainChanges\<close>, the rounds of the event loop and the handlers they call. \<^verbatim>\<open>EventLoop\<close>: the
    channels the loop selects over. \<^verbatim>\<open>Registration\<close>: \<^verbatim>\<open>WatchDomainChanges\<close> and rounds of the loop with the contents of the maps, one
    statement at a time (\<open>crew_exec\<close>), refined to the sequential \<open>WatchDomainChanges\<close>.
  \<^item> \<^verbatim>\<open>DeepCopy\<close>: \<^verbatim>\<open>api/v1alpha1/zz_generated.deepcopy.go\<close> on an explicit store; the contract of a copy is the locale
    \<open>copier\<close>, assumed of the metadata of apimachinery and proved of the generated functions.
  \<^item> \<^verbatim>\<open>Interfaces\<close>: the two Go interfaces as records of methods, the real connections, the mocks and the emulators as
    their implementations, and the contracts the controllers rely on as locales (\<open>systemd_contract\<close>,
    \<open>libvirt_contract\<close>), interpreted on the real and on the emulated objects; a small calculus of triples
    for methods. \<^verbatim>\<open>MockLog\<close>: the call logs of the three generated mocks (locale \<open>logged_method\<close>).
  \<^item> \<^verbatim>\<open>Certificates\<close>, \<^verbatim>\<open>Eviction\<close>, \<^verbatim>\<open>SecretController\<close>: \<^verbatim>\<open>internal/certificates\<close>, \<^verbatim>\<open>internal/evacuation\<close>,
    \<^verbatim>\<open>internal/controller/secret_controller.go\<close>.
  \<^item> \<^verbatim>\<open>HypervisorController\<close>: \<^verbatim>\<open>internal/controller/hypervisor_controller.go\<close>; \<^verbatim>\<open>Reconcile\<close> is the sequence of its
    sections. \<^verbatim>\<open>ControllerProps\<close> (locale \<open>agent\<close>, for any two objects with the contracts) and
    \<^verbatim>\<open>ControllerFaults\<close> are its theorems.
  \<^item> \<^verbatim>\<open>NodeAgent\<close>: \<^verbatim>\<open>cmd/main.go\<close> and the scheme, with the theorems that span the program.

  \<^bold>\<open>What is shown.\<close> For the processing of a hypervisor: exact sums and shares of memory and CPUs over the NUMA cells,
  the effective capacity, the lists of instances and capabilities, what is kept when a step fails, which domains stop it
  and how. For the connection: registration and dispatch of events, that concurrent registrations have the effect of
  the same ones in some order and finish, freedom from deadlocks, which maps are free of data races and which is not. For migrations: at most one running watch per domain,
  which statistics panic, what the watch publishes. For documents: the round trip of all three schemas, what is ignored,
  which domain documents keep the status from being published. For systemd: the round trip of the inhibitor, what an update starts, which
  descriptions of the host are accepted.
  For the controllers: which calls a reconciliation makes, that the status says connected only with the results of a
  successful run, that a secret is installed once, that \<^verbatim>\<open>Start\<close> gets through. Several theorems state faults of the
  code: the lock that is never released after a shutdown signal, an inhibitor stuck after a partial failure, an update
  recorded as installed while it runs, retries that never end, an event loop that cannot shut down, migrations that are never followed because their type is
  not registered, a destination that is the source, a time that wraps around, watches that are not restarted or
  outlive their job, panics on incomplete domains, release data or in emulation mode.

  \<^bold>\<open>Bounds and fuel.\<close> The loops that wait for the other side have fuel: \<open>evict_poll\<close> (the polling of an eviction) and
  \<open>connect_loop\<close> (the attempts to reach libvirtd); the theorems say how much is enough in terms of how long the other
  side takes. \<open>runEventLoop\<close> and \<open>watchMigrationLoop\<close> run over a given list of rounds. All other functions are total.
  In the sequential models a critical section under a mutex is one step; \<^verbatim>\<open>Interleaving\<close> and \<^verbatim>\<open>Registration\<close> take it apart.
  A run of the goroutines of \<^verbatim>\<open>Registration\<close> is a schedule, and no schedule is longer than eleven statements per task.

  \<^bold>\<open>Not modelled.\<close> Logging; the Unicode tables for names of XML outside ASCII, a parameter of \<open>xml_read\<close>. The theorems about
  the clients hold for every \<open>xml_reader\<close> and those about \<^verbatim>\<open>Describe\<close> for every \<open>json_reader\<close>; the readers of the Go library
  are instances of both. Further: the ticker of \<^verbatim>\<open>Start\<close>, which only repeats \<^verbatim>\<open>triggerReconcile\<close>; command line parsing; the
  manager of controller-runtime beyond the answers \<^verbatim>\<open>main\<close> uses; the embedded example documents other than that of the
  domain capabilities, which are data. In \<^verbatim>\<open>Registration\<close> a round ends with the look-up of its handlers; that the loop then ranges over
  their map without the mutex is in \<^verbatim>\<open>Interleaving\<close>.
\<close>

end
